(* ===== verification/Prelude.thy ===== *)
theory Prelude
  imports Main "HOL-Library.AList" "HOL-Library.Word"
begin

text \<open>
  Shared vocabulary of the development: the outcome of a piece of C code (it returns, it calls
  \<^verbatim>\<open>Tcl_Panic\<close>, or it executes something the C standard leaves undefined), the two
  predicates by which outcomes are specified, decimal printing and \<^verbatim>\<open>snprintf\<close>, and generic
  lemmas on lists, association lists and maps that several components use.
\<close>

named_theorems exec_defs \<open>definitions of the state accessors, unfolded to run a model\<close>
named_theorems unchanged \<open>what an operation leaves as it was\<close>

section \<open>Outcomes of C code\<close>

text \<open>
  \<open>Done\<close> carries the value of code that returns. \<open>Panic\<close> is a call of \<^verbatim>\<open>Tcl_Panic\<close>, which
  prints its message and aborts the process. \<open>Fault\<close> is undefined behaviour: a read of a freed
  or uninitialised object, a write past the end of an array, a NULL pointer that is dereferenced,
  a signed overflow; the string says which.
\<close>

datatype 'a exec = Done 'a | Panic string | Fault string

primrec seq :: "'a exec \<Rightarrow> ('a \<Rightarrow> 'b exec) \<Rightarrow> 'b exec" where
  "seq (Done a) k = k a"
| "seq (Panic m) k = Panic m"
| "seq (Fault m) k = Fault m"

text \<open>Total correctness: the code returns, and its value satisfies the predicate.\<close>

primrec ensures :: "'a exec \<Rightarrow> ('a \<Rightarrow> bool) \<Rightarrow> bool" where
  "ensures (Done a) Q = Q a"
| "ensures (Panic m) Q = False"
| "ensures (Fault m) Q = False"

text \<open>Partial correctness: if the code returns, its value satisfies the predicate.\<close>

primrec allows :: "'a exec \<Rightarrow> ('a \<Rightarrow> bool) \<Rightarrow> bool" where
  "allows (Done a) Q = Q a"
| "allows (Panic m) Q = True"
| "allows (Fault m) Q = True"

lemma seq_eq_Done_iff: "seq m k = Done b \<longleftrightarrow> (\<exists>a. m = Done a \<and> k a = Done b)"
  by (cases m) auto

lemma seq_assoc: "seq (seq m k) l = seq m (\<lambda>a. seq (k a) l)"
  by (cases m) auto

lemma ensures_seq [simp]: "ensures (seq m k) Q = ensures m (\<lambda>a. ensures (k a) Q)"
  by (cases m) auto

lemma allows_True [simp]: "allows x (\<lambda>_. True)"
  by (cases x) simp_all

lemma allows_seq [simp]: "allows (seq m k) Q = allows m (\<lambda>a. allows (k a) Q)"
  by (cases m) auto

lemma ensures_mono: "ensures m P \<Longrightarrow> (\<And>a. P a \<Longrightarrow> Q a) \<Longrightarrow> ensures m Q"
  by (cases m) auto

lemma allows_mono: "allows m P \<Longrightarrow> (\<And>a. P a \<Longrightarrow> Q a) \<Longrightarrow> allows m Q"
  by (cases m) auto

lemma ensures_iff: "ensures m Q \<longleftrightarrow> (\<exists>a. m = Done a \<and> Q a)"
  by (cases m) auto

lemma allows_iff: "allows m Q \<longleftrightarrow> (\<forall>a. m = Done a \<longrightarrow> Q a)"
  by (cases m) auto

lemma ensures_allows: "ensures m Q \<Longrightarrow> allows m Q"
  by (cases m) auto

lemma ensures_split: "ensures m Q \<longleftrightarrow> ensures m (\<lambda>_. True) \<and> allows m Q"
  by (cases m) simp_all

lemma allows_DoneD: "allows m Q \<Longrightarrow> m = Done a \<Longrightarrow> Q a"
  by simp

section \<open>Machine integers of the C code\<close>

text \<open>
  \<^verbatim>\<open>int\<close> is 32 bits and \<^verbatim>\<open>long\<close> 64 bits wide (the LP64 builds of Solaris and Darwin).
  A narrowing conversion keeps the low bits and reads them as two's complement.
\<close>

definition INT_MAX :: int where
  "INT_MAX = 2147483647"

definition as_int :: "'a::len word \<Rightarrow> int" where
  "as_int w = sint (ucast w :: 32 word)"

lemma as_int_upper: "as_int w \<le> INT_MAX"
proof -
  have "sint (ucast w :: 32 word) < 2 ^ (LENGTH(32) - 1)"
    using sint_lt [of "ucast w :: 32 word"] by simp
  then show ?thesis by (simp add: as_int_def INT_MAX_def)
qed

lemma as_int_of_int: "0 \<le> n \<Longrightarrow> n \<le> INT_MAX \<Longrightarrow> as_int (word_of_int n :: 64 word) = n"
  by (simp add: as_int_def INT_MAX_def sint_uint unsigned_ucast_eq uint_word_of_int take_bit_int_eq_self
      signed_take_bit_int_eq_self)

section \<open>Decimal text and bounded printing\<close>

fun dec_nat :: "nat \<Rightarrow> string" where
  "dec_nat n = (if n < 10 then [char_of (48 + n)] else dec_nat (n div 10) @ [char_of (48 + n mod 10)])"

declare dec_nat.simps [simp del]

definition dec_int :: "int \<Rightarrow> string" where
  "dec_int i = (if i < 0 then CHR ''-'' # dec_nat (nat (- i)) else dec_nat (nat i))"

text \<open>\<^verbatim>\<open>snprintf(buf, size, ...)\<close> keeps at most \<open>size - 1\<close> characters of the text.\<close>

definition snprintf :: "nat \<Rightarrow> string \<Rightarrow> string" where
  "snprintf cap cs = take (cap - 1) cs"

lemma snprintf_fits: "length cs < cap \<Longrightarrow> snprintf cap cs = cs"
  by (simp add: snprintf_def)

lemma length_snprintf: "0 < cap \<Longrightarrow> length (snprintf cap cs) < cap"
  by (simp add: snprintf_def)

lemma dec_nat_digit: "n < 10 \<Longrightarrow> dec_nat n = [char_of (48 + n)]"
  by (subst dec_nat.simps) simp

lemma dec_nat_step: "\<not> n < 10 \<Longrightarrow> dec_nat n = dec_nat (n div 10) @ [char_of (48 + n mod 10)]"
  by (subst dec_nat.simps) simp

lemma dec_int_0_1 [simp]: "dec_int 0 = ''0''" "dec_int 1 = ''1''"
  by (simp_all add: dec_int_def dec_nat_digit char_of_def bit_0)

lemma dec_nat_nonempty: "dec_nat n \<noteq> []"
  by (subst dec_nat.simps) simp

lemma length_dec_nat: "n < 10 ^ k \<Longrightarrow> 0 < k \<Longrightarrow> length (dec_nat n) \<le> k"
proof (induction n arbitrary: k rule: dec_nat.induct)
  case (1 n)
  show ?case
  proof (cases "n < 10")
    case True
    with 1(3) show ?thesis by (subst dec_nat.simps) simp
  next
    case False
    with 1(2,3) obtain j where k: "k = Suc j" and j: "0 < j"
      by (cases k; cases "k - 1") auto
    from 1(2) k have "n div 10 < 10 ^ j" by (simp add: less_mult_imp_div_less mult.commute)
    with False 1(1) j have "length (dec_nat (n div 10)) \<le> j" by simp
    with False k show ?thesis by (subst dec_nat.simps) simp
  qed
qed

text \<open>Reading a decimal text back, to state that printing loses nothing.\<close>

definition dec_value :: "string \<Rightarrow> nat" where
  "dec_value cs = foldl (\<lambda>a c. 10 * a + (of_char c - 48)) 0 cs"

lemma dec_value_dec_nat: "dec_value (dec_nat n) = n"
proof (induction n rule: dec_nat.induct)
  case (1 n)
  then show ?case
    by (subst dec_nat.simps) (auto simp: dec_value_def of_char_of)
qed

lemma dec_nat_digits: "c \<in> set (dec_nat n) \<Longrightarrow> 48 \<le> (of_char c :: nat) \<and> of_char c \<le> (57 :: nat)"
proof (induction n arbitrary: c rule: dec_nat.induct)
  case (1 n)
  show ?case
  proof (cases "n < 10")
    case True
    with 1 show ?thesis by (simp add: dec_nat_digit of_char_of)
  next
    case False
    with 1 show ?thesis by (auto simp: dec_nat_step of_char_of)
  qed
qed

lemma dec_value_less:
  assumes "\<And>c. c \<in> set cs \<Longrightarrow> 48 \<le> (of_char c :: nat) \<and> of_char c \<le> (57 :: nat)"
  shows "dec_value cs < 10 ^ length cs"
  using assms
proof (induction cs rule: rev_induct)
  case Nil
  then show ?case by (simp add: dec_value_def)
next
  case (snoc c cs)
  then have "dec_value cs < 10 ^ length cs" by simp
  moreover have "(of_char c :: nat) \<le> 57" using snoc.prems [of c] by simp
  then have "(of_char c :: nat) - 48 \<le> 9" by simp
  ultimately have "10 * dec_value cs + (of_char c - 48) < 10 * 10 ^ length cs" by linarith
  then show ?case by (simp add: dec_value_def)
qed

section \<open>Association lists\<close>

lemma map_of_delete_eq: "map_of (AList.delete k es) = (map_of es)(k := None)"
  by (simp add: AList.delete_conv')

lemma distinct_fst_delete: "distinct (map fst es) \<Longrightarrow> distinct (map fst (AList.delete k es))"
  by (rule AList.distinct_delete)

lemma map_of_mem_snd: "map_of es k = Some v \<Longrightarrow> v \<in> snd ` set es"
  by (force dest: map_of_SomeD)

lemma mem_snd_map_of: "distinct (map fst es) \<Longrightarrow> v \<in> snd ` set es \<Longrightarrow> \<exists>k. map_of es k = Some v"
  by (auto simp: image_iff)

lemma option_eqI: "(\<And>a. x = Some a \<longleftrightarrow> y = Some a) \<Longrightarrow> x = y"
  by (cases x; cases y) auto

section \<open>Lists walked two elements at a time\<close>

text \<open>\<open>pairs_of xs\<close> are the consecutive pairs an index loop with step 2 visits.\<close>

fun pairs_of :: "'a list \<Rightarrow> ('a \<times> 'a) list" where
  "pairs_of (x # y # zs) = (x, y) # pairs_of zs"
| "pairs_of _ = []"

lemma length_pairs_of: "length (pairs_of xs) = length xs div 2"
  by (induction xs rule: pairs_of.induct) auto

end
