(* ===== verification/Hash_Tables.thy ===== *)
theory Hash_Tables
  imports Prelude
begin

text \<open>
  The hash tables with one-word keys in which the extension keeps its handles and its compiled
  programs. The contract the extension relies on is the locale \<open>lookup_table\<close>, extended to
  tables whose entries can be enumerated; both are interpreted on the association lists that
  stand for a table's entries. A table pointer is NULL, a table, or the address of a table
  that was freed.
\<close>

section \<open>The contract of a table\<close>

locale lookup_table =
  fixes empty :: "'m"
    and find :: "'k \<Rightarrow> 'm \<Rightarrow> 'v option"
    and create :: "'k \<Rightarrow> 'v \<Rightarrow> 'm \<Rightarrow> 'm"
    and remove :: "'k \<Rightarrow> 'm \<Rightarrow> 'm"
    and invar :: "'m \<Rightarrow> bool"
  assumes find_empty: "find k empty = None"
    and find_create: "invar m \<Longrightarrow> find k m = None \<Longrightarrow>
      find j (create k v m) = (if j = k then Some v else find j m)"
    and find_remove: "invar m \<Longrightarrow> find j (remove k m) = (if j = k then None else find j m)"
    and invar_empty: "invar empty"
    and invar_create: "invar m \<Longrightarrow> find k m = None \<Longrightarrow> invar (create k v m)"
    and invar_remove: "invar m \<Longrightarrow> invar (remove k m)"
begin

lemma find_created: "invar m \<Longrightarrow> find k m = None \<Longrightarrow> find k (create k v m) = Some v"
  by (simp add: find_create)

lemma find_removed: "invar m \<Longrightarrow> find k (remove k m) = None"
  by (simp add: find_remove)

lemma remove_create:
  assumes "invar m" and "find k m = None"
  shows "find j (remove k (create k v m)) = find j m"
  using assms by (simp add: find_create find_remove invar_create)

lemma dom_create:
  assumes "invar m" and "find k m = None"
  shows "dom (\<lambda>j. find j (create k v m)) = insert k (dom (\<lambda>j. find j m))"
  using assms by (auto simp: dom_def find_create)

lemma dom_remove:
  assumes "invar m"
  shows "dom (\<lambda>j. find j (remove k m)) = dom (\<lambda>j. find j m) - {k}"
  using assms by (auto simp: dom_def find_remove split: if_splits)

end

locale enumerable_table = lookup_table +
  fixes entries_of :: "'b \<Rightarrow> ('a \<times> 'c) list"
  assumes entries_find: "invar m \<Longrightarrow> (k, v) \<in> set (entries_of m) \<longleftrightarrow> find k m = Some v"
    and entries_distinct: "invar m \<Longrightarrow> distinct (map fst (entries_of m))"
begin

lemma find_Some_value: "invar m \<Longrightarrow> find k m = Some v \<Longrightarrow> v \<in> snd ` set (entries_of m)"
  by (force simp: entries_find [symmetric])

lemma value_find: "invar m \<Longrightarrow> v \<in> snd ` set (entries_of m) \<Longrightarrow> \<exists>k. find k m = Some v"
  by (force simp: entries_find)

lemma no_entries: "invar m \<Longrightarrow> entries_of m = [] \<Longrightarrow> find k m = None"
  using entries_find [of m k] by (cases "find k m") auto

end

section \<open>Tables as association lists\<close>

definition tab_create :: "'k \<Rightarrow> 'v \<Rightarrow> ('k \<times> 'v) list \<Rightarrow> ('k \<times> 'v) list" where
  "tab_create k v es = (k, v) # es"

definition tab_wf :: "('k \<times> 'v) list \<Rightarrow> bool" where
  "tab_wf es \<longleftrightarrow> distinct (map fst es)"

lemma map_of_None_iff: "map_of es k = None \<longleftrightarrow> k \<notin> fst ` set es"
  by (simp add: map_of_eq_None_iff)

interpretation tab: enumerable_table "[]" "\<lambda>k es. map_of es k" tab_create AList.delete tab_wf "\<lambda>es. es"
proof unfold_locales
  fix m :: "('a \<times> 'b) list" and k v
  assume "tab_wf m" and "map_of m k = None"
  then show "tab_wf (tab_create k v m)"
    by (auto simp: tab_wf_def tab_create_def map_of_None_iff)
next
  fix m :: "('a \<times> 'b) list" and k v
  assume "tab_wf m"
  then show "(k, v) \<in> set m \<longleftrightarrow> map_of m k = Some v"
    by (auto simp: tab_wf_def map_of_is_SomeI dest: map_of_SomeD)
qed (auto simp: tab_create_def tab_wf_def map_of_delete_eq distinct_fst_delete)

section \<open>Table pointers\<close>

datatype 'v htab = NullTable | Table "(int \<times> 'v) list" | FreedTable

primrec entries :: "'v htab \<Rightarrow> (int \<times> 'v) list" where
  "entries NullTable = []"
| "entries (Table es) = es"
| "entries FreedTable = []"

text \<open>
  The code tests a table pointer against NULL and panics; a pointer to a freed table is
  undefined to follow. \<open>with_table\<close> is that test with the use that comes after it.
\<close>

primrec with_table :: "'v htab \<Rightarrow> ((int \<times> 'v) list \<Rightarrow> 'a exec) \<Rightarrow> 'a exec" where
  "with_table NullTable f = Panic ''dtrace hash table not found''"
| "with_table (Table es) f = f es"
| "with_table FreedTable f = Fault ''use of a freed hash table''"

lemma with_table_Done: "with_table t f = Done a \<longleftrightarrow> t = Table (entries t) \<and> f (entries t) = Done a"
  by (cases t) auto

lemma allows_with_table: "(\<And>es. t = Table es \<Longrightarrow> allows (f es) Q) \<Longrightarrow> allows (with_table t f) Q"
  by (cases t) auto

end
