(* ===== verification/Dtrace_Types.thy ===== *)
theory Dtrace_Types
  imports Hash_Tables
begin

text \<open>
  The data of the extension (\<^verbatim>\<open>generic/dtrace.h\<close>) and the two interfaces it is written
  against: libdtrace and the Tcl C library. Neither library is part of the repository, so each is
  a record of functions, a parameter of every definition that calls it. The state \<open>st\<close> holds what
  the extension itself keeps between calls, the result and error fields of the interpreters, and
  \<open>world\<close>, the state of libdtrace and the kernel, of any type.
\<close>

section \<open>Tcl objects\<close>

text \<open>
  Objects the extension makes itself are strings, integers and lists. \<open>ScriptObj n\<close> is an object
  that a script passes in; the functions of the Tcl library say how it reads.
\<close>

datatype tcl_obj = StrObj string | IntObj int | ListObj "tcl_obj list" | ScriptObj nat

type_synonym interp = nat
type_synonym addr = nat
type_synonym dtrace_hdl = nat
type_synonym dtrace_prog = nat
type_synonym prochandle = nat

definition TCL_OK :: int where "TCL_OK = 0"
definition TCL_ERROR :: int where "TCL_ERROR = 1"

lemma tcl_codes [simp]: "TCL_OK \<noteq> TCL_ERROR" "TCL_ERROR \<noteq> TCL_OK"
  by (simp_all add: TCL_OK_def TCL_ERROR_def)

section \<open>Constants and enumerations of the header\<close>

definition CALLBACKS_COUNT :: nat where "CALLBACKS_COUNT = 5"
definition TUPLE_STRLEN :: nat where "TUPLE_STRLEN = 128"
definition ERROR_CLASS :: string where "ERROR_CLASS = ''DTRACE''"

definition internal_option :: "string \<Rightarrow> bool" where
  "internal_option a \<longleftrightarrow> a = ''-foldpdesc''"

definition basic_options :: "string list" where
  "basic_options = [''-flowindent'', ''-quiet'', ''-bufsize'', ''-foldpdesc'']"

datatype callbacks = cb_probe_desc | cb_probe_output | cb_drop | cb_error | cb_proc

primrec cb_index :: "callbacks \<Rightarrow> nat" where
  "cb_index cb_probe_desc = 0"
| "cb_index cb_probe_output = 1"
| "cb_index cb_drop = 2"
| "cb_index cb_error = 3"
| "cb_index cb_proc = 4"

definition callbackNames :: "string list" where
  "callbackNames = [''probe_desc'', ''probe_output'', ''drop'', ''error'', ''proc'']"

lemma cb_index_less [simp]: "cb_index c < CALLBACKS_COUNT"
  by (cases c) (simp_all add: CALLBACKS_COUNT_def)

lemma cb_index_inj [simp]: "cb_index c = cb_index d \<longleftrightarrow> c = d"
  by (cases c; cases d) simp_all

text \<open>The enumeration is ordered as the C enumeration is.\<close>

instantiation callbacks :: linorder
begin

definition less_eq_callbacks :: "callbacks \<Rightarrow> callbacks \<Rightarrow> bool" where
  "less_eq_callbacks c d \<longleftrightarrow> cb_index c \<le> cb_index d"

definition less_callbacks :: "callbacks \<Rightarrow> callbacks \<Rightarrow> bool" where
  "less_callbacks c d \<longleftrightarrow> cb_index c < cb_index d"

instance
  by standard (auto simp: less_eq_callbacks_def less_callbacks_def)

end

section \<open>Data libdtrace hands to the extension\<close>

text \<open>Only the fields that the extension reads.\<close>

record probedesc =
  dtpd_id :: "32 word"
  dtpd_provider :: string
  dtpd_mod :: string
  dtpd_func :: string
  dtpd_name :: string

record probedata =
  dtpda_pdesc :: probedesc
  dtpda_cpu :: int

datatype actkind =
  DTRACEACT_DIFEXPR | DTRACEACT_PRINTF | DTRACEACT_PRINTA | DTRACEACT_USTACK
| DTRACEACT_JSTACK | DTRACEACT_STACK | DTRACEACT_AGGREGATION nat | DTRACEACT_OTHER nat

definition DTRACEACT_ISAGG :: "actkind \<Rightarrow> bool" where
  "DTRACEACT_ISAGG a \<longleftrightarrow> (case a of DTRACEACT_AGGREGATION _ \<Rightarrow> True | _ \<Rightarrow> False)"

datatype dropkind =
  DTRACEDROP_PRINCIPAL | DTRACEDROP_AGGREGATION | DTRACEDROP_DYNAMIC | DTRACEDROP_DYNRINSE
| DTRACEDROP_DYNDIRTY | DTRACEDROP_SPEC | DTRACEDROP_SPECBUSY | DTRACEDROP_SPECUNAVAIL
| DTRACEDROP_STKSTROVERFLOW | DTRACEDROP_DBLERROR | DTRACEDROP_OTHER nat

text \<open>\<open>dtbda_aggdata\<close> says whether the pointer of that name is not NULL.\<close>

record bufdata =
  dtbda_probe :: probedata
  dtbda_recdesc :: "actkind option"
  dtbda_aggdata :: bool
  dtbda_buffered :: string

record dropdata =
  dtdda_cpu :: int
  dtdda_kind :: dropkind
  dtdda_drops :: "64 word"
  dtdda_msg :: string

record errdata =
  dteda_pdesc :: probedesc
  dteda_cpu :: int
  dteda_msg :: string

record ecbdesc =
  ecb_addr :: addr
  dted_probe :: probedesc

record proginfo =
  dpi_aggregates :: "32 word"
  dpi_recgens :: "32 word"
  dpi_matches :: "32 word"
  dpi_speculations :: "32 word"

datatype event =
  Ev_chew probedata
| Ev_chewrec
| Ev_buffered bufdata
| Ev_err errdata
| Ev_drop dropdata
| Ev_proc prochandle string

text \<open>What an intermediate callback returns to libdtrace.\<close>

datatype cbret =
  DTRACE_CONSUME_THIS | DTRACE_CONSUME_ERROR | DTRACE_HANDLE_OK | DTRACE_HANDLE_ABORT
| RetZero | RetVoid

text \<open>
  A call of libdtrace that runs callbacks: it returns a code, or it calls back with some data and
  goes on in a way that depends on what the callback returned and on the world it left.
\<close>

datatype ('e, 'w) lib_run =
  LibRet int 'w
| LibCall 'e 'w "cbret \<Rightarrow> 'w \<Rightarrow> ('e, 'w) lib_run"

section \<open>libdtrace\<close>

record 'w libdtrace =
  dtrace_open :: "bool \<Rightarrow> 'w \<Rightarrow> (int + dtrace_hdl) \<times> 'w"
  dtrace_close :: "dtrace_hdl \<Rightarrow> 'w \<Rightarrow> 'w"
  dtrace_getopt :: "dtrace_hdl \<Rightarrow> string \<Rightarrow> 'w \<Rightarrow> int option \<times> 'w"
  DTRACEOPT_UNSET :: int
  dtrace_setopt :: "dtrace_hdl \<Rightarrow> string \<Rightarrow> string \<Rightarrow> 'w \<Rightarrow> int \<times> 'w"
  dtrace_handle_err :: "dtrace_hdl \<Rightarrow> addr \<Rightarrow> 'w \<Rightarrow> int \<times> 'w"
  dtrace_handle_drop :: "dtrace_hdl \<Rightarrow> addr \<Rightarrow> 'w \<Rightarrow> int \<times> 'w"
  dtrace_handle_proc :: "dtrace_hdl \<Rightarrow> addr \<Rightarrow> 'w \<Rightarrow> int \<times> 'w"
  dtrace_handle_buffered :: "dtrace_hdl \<Rightarrow> addr \<Rightarrow> 'w \<Rightarrow> int \<times> 'w"
  dtrace_program_strcompile :: "dtrace_hdl \<Rightarrow> string \<Rightarrow> string list \<Rightarrow> 'w \<Rightarrow> dtrace_prog option \<times> 'w"
  dtrace_program_exec :: "dtrace_hdl \<Rightarrow> dtrace_prog \<Rightarrow> 'w \<Rightarrow> (int \<times> proginfo) \<times> 'w"
  dtrace_program_info :: "dtrace_hdl \<Rightarrow> dtrace_prog \<Rightarrow> 'w \<Rightarrow> proginfo \<times> 'w"
  dtrace_go :: "dtrace_hdl \<Rightarrow> 'w \<Rightarrow> int \<times> 'w"
  dtrace_stop :: "dtrace_hdl \<Rightarrow> 'w \<Rightarrow> int \<times> 'w"
  dtrace_sleep :: "dtrace_hdl \<Rightarrow> 'w \<Rightarrow> (event, 'w) lib_run"
  dtrace_work :: "dtrace_hdl \<Rightarrow> 'w \<Rightarrow> (event, 'w) lib_run"
  dtrace_aggregate_print :: "dtrace_hdl \<Rightarrow> 'w \<Rightarrow> (event, 'w) lib_run"
  dtrace_stmt_iter :: "dtrace_hdl \<Rightarrow> dtrace_prog \<Rightarrow> 'w \<Rightarrow> (ecbdesc, 'w) lib_run"
  dtrace_probe_iter :: "dtrace_hdl \<Rightarrow> probedesc \<Rightarrow> 'w \<Rightarrow> (probedesc, 'w) lib_run"
  dtrace_proc_grab :: "dtrace_hdl \<Rightarrow> int \<Rightarrow> 'w \<Rightarrow> prochandle option \<times> 'w"
  dtrace_proc_create :: "dtrace_hdl \<Rightarrow> string \<Rightarrow> string list \<Rightarrow> 'w \<Rightarrow> prochandle option \<times> 'w"
  dtrace_proc_continue :: "dtrace_hdl \<Rightarrow> prochandle \<Rightarrow> 'w \<Rightarrow> 'w"
  Pstatus_pid :: "prochandle \<Rightarrow> 'w \<Rightarrow> int"
  dtrace_errno :: "dtrace_hdl \<Rightarrow> 'w \<Rightarrow> int"
  dtrace_errmsg :: "dtrace_hdl option \<Rightarrow> int \<Rightarrow> 'w \<Rightarrow> string"

section \<open>The state of the extension\<close>

text \<open>
  \<open>agg_list\<close> is the list \<^verbatim>\<open>::dtrace::aggregations\<close> collects in. The pointer stays in the
  structure after the object has become the interpreter's result (\<open>HandedOver\<close>); from then on
  the extension holds no reference to the object, and what it holds is the interpreter's affair.
\<close>

datatype agg_list_ptr = NullList | OwnList "tcl_obj list" | HandedOver

text \<open>\<open>processes\<close> is NULL or a block of cells, each of them set or not yet written.\<close>

record handle_data =
  hdl :: "dtrace_hdl option"
  foldpdesc :: int
  hd_interp :: "interp option"
  agg_tuple :: "tcl_obj list option"
  agg_list :: agg_list_ptr
  processes :: "prochandle option list option"
  proc_count :: int
  proc_capacity :: int
  cb_procs :: "tcl_obj option list"
  cb_args :: "tcl_obj option list"

record program_data =
  compiled :: dtrace_prog
  pd_hd :: addr

record dtrace_data =
  handles :: "addr htab"
  programs :: "program_data htab"

datatype command =
  Cmd_open | Cmd_close | Cmd_configure | Cmd_compile | Cmd_exec | Cmd_info | Cmd_go | Cmd_stop
| Cmd_process | Cmd_list | Cmd_aggregations | Cmd_grab | Cmd_launch

text \<open>
  \<open>brk\<close> is the next address \<^verbatim>\<open>ckalloc\<close> returns. An address is never given out twice, so a
  pointer to freed memory stays recognisable. \<open>refs\<close> counts the references the extension holds
  to an object, \<open>bg_errors\<close> the reports it passed to \<^verbatim>\<open>Tcl_BackgroundError\<close>.
\<close>

record 'w st =
  next_free_id :: int
  next_free_pid :: int
  brk :: addr
  hds :: "addr \<rightharpoonup> handle_data"
  dds :: "addr \<rightharpoonup> dtrace_data"
  assoc :: "interp \<rightharpoonup> addr"
  exit_handlers :: "addr list"
  commands :: "interp \<Rightarrow> (string \<times> command) list"
  result :: "interp \<Rightarrow> tcl_obj"
  error_code :: "interp \<Rightarrow> string list"
  bg_errors :: "(interp \<times> string) list"
  refs :: "tcl_obj \<Rightarrow> int"
  world :: 'w

section \<open>The Tcl library\<close>

text \<open>
  A conversion gives \<open>Inr\<close> the value, or \<open>Inl\<close> the message that it leaves as the result of the
  interpreter. \<open>EvalObjv\<close> runs a command of a script: it may do anything to the state a script
  can do, calls of the extension's own commands included.

  \<open>append_handed\<close> and \<open>handed_value\<close> are what Tcl does with the list object a handle has given to
  an interpreter, in the state in which it is used: released memory is a \<open>Fault\<close>; an append to a
  shared object is a \<open>Panic\<close> of \<^verbatim>\<open>Tcl_ListObjAppendElement\<close>; an append to an object that is not
  shared succeeds, and whoever has the object sees the new element, the results of the
  interpreters included, which the function returns.
\<close>

record 'w tcl =
  int_rep :: "tcl_obj \<Rightarrow> string + int"
  long_rep :: "tcl_obj \<Rightarrow> string + 64 word"
  boolean_rep :: "tcl_obj \<Rightarrow> string + bool"
  string_rep :: "tcl_obj \<Rightarrow> string"
  list_rep :: "tcl_obj \<Rightarrow> string + tcl_obj list"
  index_rep :: "tcl_obj \<Rightarrow> string list \<Rightarrow> string \<Rightarrow> string + nat"
  wrong_num_args :: "tcl_obj list \<Rightarrow> string \<Rightarrow> string"
  EvalObjv :: "interp \<Rightarrow> tcl_obj list \<Rightarrow> 'w st \<Rightarrow> (int \<times> 'w st) exec"
  EvalScript :: "interp \<Rightarrow> string \<Rightarrow> 'w st \<Rightarrow> (int \<times> 'w st) exec"
  append_handed :: "addr \<Rightarrow> tcl_obj \<Rightarrow> 'w st \<Rightarrow> (interp \<Rightarrow> tcl_obj) exec"
  handed_value :: "addr \<Rightarrow> 'w st \<Rightarrow> tcl_obj exec"
  InitStubs_ok :: "interp \<Rightarrow> bool"
  PkgProvide_ok :: "interp \<Rightarrow> bool"
  tcl_version :: "int \<times> int"

text \<open>An integer object reads as its integer, a string object as its string, a list object as its members.\<close>

definition Tcl_GetIntFromObj :: "'w tcl \<Rightarrow> tcl_obj \<Rightarrow> string + int" where
  "Tcl_GetIntFromObj T ob = (case ob of IntObj n \<Rightarrow> Inr n | _ \<Rightarrow> int_rep T ob)"

definition Tcl_GetString :: "'w tcl \<Rightarrow> tcl_obj \<Rightarrow> string" where
  "Tcl_GetString T ob = (case ob of StrObj cs \<Rightarrow> cs | _ \<Rightarrow> string_rep T ob)"

definition Tcl_ListObjGetElements :: "'w tcl \<Rightarrow> tcl_obj \<Rightarrow> string + tcl_obj list" where
  "Tcl_ListObjGetElements T ob = (case ob of ListObj xs \<Rightarrow> Inr xs | _ \<Rightarrow> list_rep T ob)"

definition Tcl_GetLongFromObj :: "'w tcl \<Rightarrow> tcl_obj \<Rightarrow> string + 64 word" where
  "Tcl_GetLongFromObj T ob = (case ob of IntObj n \<Rightarrow> Inr (word_of_int n) | _ \<Rightarrow> long_rep T ob)"

lemma Tcl_GetIntFromObj_IntObj [simp]: "Tcl_GetIntFromObj T (IntObj n) = Inr n"
  by (simp add: Tcl_GetIntFromObj_def)

lemma Tcl_GetString_StrObj [simp]: "Tcl_GetString T (StrObj cs) = cs"
  by (simp add: Tcl_GetString_def)

end
