(* ===== verification/State_Ops.thy ===== *)
theory State_Ops
  imports Dtrace_Types
begin

text \<open>
  Access to the state: the interpreter's result and error code, pointers to handle data,
  reference counts, and the calls of libdtrace that run callbacks. Every accessor is followed
  by what it leaves unchanged, declared for the simplifier.
\<close>

section \<open>Result and error fields of an interpreter\<close>

definition set_result :: "interp \<Rightarrow> tcl_obj \<Rightarrow> 'w st \<Rightarrow> 'w st" where
  "set_result i ob s = s\<lparr>result := (result s)(i := ob)\<rparr>"

definition put_results :: "(interp \<Rightarrow> tcl_obj) \<Rightarrow> 'w st \<Rightarrow> 'w st" where
  "put_results r s = s\<lparr>result := r\<rparr>"

definition append_result :: "'w tcl \<Rightarrow> interp \<Rightarrow> string \<Rightarrow> 'w st \<Rightarrow> 'w st" where
  "append_result T i msg s = set_result i (StrObj (Tcl_GetString T (result s i) @ msg)) s"

definition set_error_code :: "interp \<Rightarrow> string list \<Rightarrow> 'w st \<Rightarrow> 'w st" where
  "set_error_code i codes s = s\<lparr>error_code := (error_code s)(i := codes)\<rparr>"

definition background_error :: "interp \<Rightarrow> string \<Rightarrow> 'w st \<Rightarrow> 'w st" where
  "background_error i info s = s\<lparr>bg_errors := bg_errors s @ [(i, info)]\<rparr>"

definition newline :: string where
  "newline = [CHR 0x0A]"

text \<open>\<^verbatim>\<open>COMMAND\<close>: the name under which the running command was called.\<close>

definition COMMAND :: "'w tcl \<Rightarrow> tcl_obj list \<Rightarrow> string" where
  "COMMAND T objv = Tcl_GetString T (objv ! 0)"

text \<open>The recurring three lines: append to the result, set the error code, return TCL_ERROR.\<close>

definition fail :: "'w tcl \<Rightarrow> interp \<Rightarrow> string \<Rightarrow> string list \<Rightarrow> 'w st \<Rightarrow> int \<times> 'w st" where
  "fail T i msg codes s = (TCL_ERROR, set_error_code i (ERROR_CLASS # codes) (append_result T i msg s))"

text \<open>The failing branch of \<^verbatim>\<open>objcCheck\<close>.\<close>

definition objcFail :: "'w tcl \<Rightarrow> interp \<Rightarrow> tcl_obj list \<Rightarrow> string \<Rightarrow> 'w st \<Rightarrow> int \<times> 'w st" where
  "objcFail T i objv arguments s =
     (TCL_ERROR, set_error_code i [ERROR_CLASS, ''USAGE'']
        (set_result i (StrObj (wrong_num_args T (take 1 objv) arguments)) s))"

text \<open>The failing branch of \<^verbatim>\<open>handleCheck\<close>.\<close>

definition badHandle :: "'w tcl \<Rightarrow> interp \<Rightarrow> tcl_obj list \<Rightarrow> 'w st \<Rightarrow> int \<times> 'w st" where
  "badHandle T i objv s = fail T i (COMMAND T objv @ '' bad handle'') [''HANDLE''] s"

section \<open>Handle data on the heap\<close>

definition with_hd :: "addr \<Rightarrow> 'w st \<Rightarrow> (handle_data \<Rightarrow> 'a exec) \<Rightarrow> 'a exec" where
  "with_hd p s f = (case hds s p of None \<Rightarrow> Fault ''use of a freed handle_data'' | Some H \<Rightarrow> f H)"

text \<open>\<^verbatim>\<open>hd->handle\<close> passed to a function of libdtrace.\<close>

definition with_handle :: "addr \<Rightarrow> 'w st \<Rightarrow> (dtrace_hdl \<Rightarrow> 'a exec) \<Rightarrow> 'a exec" where
  "with_handle p s f = with_hd p s (\<lambda>H. case hdl H of None \<Rightarrow> Fault ''NULL dtrace handle'' | Some h \<Rightarrow> f h)"

definition put_hd :: "addr \<Rightarrow> handle_data \<Rightarrow> 'w st \<Rightarrow> 'w st" where
  "put_hd p H s = s\<lparr>hds := (hds s)(p \<mapsto> H)\<rparr>"

text \<open>The failing branch of \<^verbatim>\<open>libError\<close>: libdtrace's message and its error number.\<close>

definition libError :: "'w libdtrace \<Rightarrow> 'w tcl \<Rightarrow> interp \<Rightarrow> tcl_obj list \<Rightarrow> addr \<Rightarrow> 'w st \<Rightarrow> (int \<times> 'w st) exec" where
  "libError L T i objv p s =
     with_handle p s (\<lambda>h.
       let n = dtrace_errno L h (world s) in
       Done (fail T i (COMMAND T objv @ '' libdtrace error: '' @ dtrace_errmsg L (Some h) n (world s))
               [''LIB'', snprintf 24 (dec_int n)] s))"

section \<open>Reference counts\<close>

definition incr_refs :: "tcl_obj list \<Rightarrow> 'w st \<Rightarrow> 'w st" where
  "incr_refs obs s = s\<lparr>refs := (\<lambda>ob. refs s ob + int (count_list obs ob))\<rparr>"

definition decr_refs :: "tcl_obj list \<Rightarrow> 'w st \<Rightarrow> 'w st" where
  "decr_refs obs s = s\<lparr>refs := (\<lambda>ob. refs s ob - int (count_list obs ob))\<rparr>"

lemma decr_incr_refs [simp]: "decr_refs obs (incr_refs obs s) = s"
  by (simp add: decr_refs_def incr_refs_def)

section \<open>Calls of libdtrace that run callbacks\<close>

text \<open>
  \<open>drive\<close> runs such a call: each time the library calls back, the handler runs on the state with
  the library's world, and the library goes on from the world the handler left. The state may be
  larger than \<open>st\<close> (a handler's own variables), so reading and writing the world are arguments.
\<close>

primrec drive :: "('x \<Rightarrow> 'w) \<Rightarrow> ('w \<Rightarrow> 'x \<Rightarrow> 'x) \<Rightarrow> ('e \<Rightarrow> 'x \<Rightarrow> (cbret \<times> 'x) exec)
    \<Rightarrow> ('e, 'w) lib_run \<Rightarrow> 'x \<Rightarrow> (int \<times> 'x) exec" where
  "drive getw putw h (LibRet rc w) x = Done (rc, putw w x)"
| "drive getw putw h (LibCall e w k) x =
     seq (h e (putw w x)) (\<lambda>(r, y). drive getw putw h (k r (getw y)) y)"

definition put_world :: "'w \<Rightarrow> 'w st \<Rightarrow> 'w st" where
  "put_world w s = s\<lparr>world := w\<rparr>"

text \<open>
  \<open>within moves run w\<close>: begun in the world \<open>w\<close>, each stretch of the call, from one callback to
  the next, stays within a relation on worlds, wherever the callbacks leave the world.
\<close>

primrec within :: "('w \<Rightarrow> 'w \<Rightarrow> bool) \<Rightarrow> ('e, 'w) lib_run \<Rightarrow> 'w \<Rightarrow> bool" where
  "within moves (LibRet rc w) = (\<lambda>v. moves v w)"
| "within moves (LibCall e w k) = (\<lambda>v. moves v w \<and> (\<forall>r u. within moves (k r u) u))"

lemma within_any [simp]: "within (\<lambda>_ _. True) run w"
  by (induction run arbitrary: w) (auto intro: rangeI)

text \<open>A property that the handler keeps, and the library in between, is kept by the call.\<close>

lemma drive_allows:
  assumes "P x" and "within moves run (getw x)"
    and put: "\<And>w y. P y \<Longrightarrow> moves (getw y) w \<Longrightarrow> P (putw w y)"
    and step: "\<And>e y. P y \<Longrightarrow> allows (h e y) (\<lambda>(r, z). P z)"
  shows "allows (drive getw putw h run x) (\<lambda>(rc, z). P z)"
  using assms(1,2)
proof (induction run arbitrary: x)
  case (LibRet rc w)
  then show ?case by (simp add: put)
next
  case (LibCall e w k)
  have "allows (h e (putw w x)) (\<lambda>(r, z). P z)"
    using LibCall.prems by (intro step put) simp_all
  then show ?case
    using LibCall.prems by (auto elim!: allows_mono intro!: LibCall.IH [OF rangeI rangeI])
qed

text \<open>
  The events a call can deliver, whatever the callbacks answer: a property of them all is a
  condition on the library under which a handler is total.
\<close>

primrec all_events :: "('e \<Rightarrow> bool) \<Rightarrow> ('e, 'w) lib_run \<Rightarrow> bool" where
  "all_events A (LibRet rc w) = True"
| "all_events A (LibCall e w k) = (A e \<and> (\<forall>r w'. all_events A (k r w')))"

lemma drive_ensures:
  assumes "P x" and "all_events A run" and put: "\<And>w y. P y \<Longrightarrow> P (putw w y)"
    and step: "\<And>e y. A e \<Longrightarrow> P y \<Longrightarrow> ensures (h e y) (\<lambda>(r, z). P z)"
  shows "ensures (drive getw putw h run x) (\<lambda>(rc, z). P z)"
  using assms(1,2)
proof (induction run arbitrary: x)
  case (LibRet rc w)
  then show ?case by (simp add: put)
next
  case (LibCall e w k)
  have "ensures (h e (putw w x)) (\<lambda>(r, z). P z)"
    using LibCall.prems by (intro step put) simp_all
  then show ?case
    using LibCall.prems by (auto elim!: ensures_mono intro!: LibCall.IH [OF rangeI rangeI])
qed

section \<open>What the accessors leave unchanged\<close>

text \<open>
  \<open>core\<close> is the part of the state that the tables, the heap and the counters make up. Everything
  above but \<open>put_hd\<close> leaves it alone.
\<close>

definition core :: "'w st \<Rightarrow> int \<times> int \<times> addr \<times> (addr \<rightharpoonup> handle_data) \<times> (addr \<rightharpoonup> dtrace_data) \<times> (interp \<rightharpoonup> addr)" where
  "core s = (next_free_id s, next_free_pid s, brk s, hds s, dds s, assoc s)"

lemma core_set_result [simp, unchanged]: "core (set_result i ob s) = core s"
  by (simp add: core_def set_result_def)

lemma core_put_results [simp, unchanged]: "core (put_results r s) = core s"
  by (simp add: core_def put_results_def)

lemma core_append_result [simp, unchanged]: "core (append_result T i msg s) = core s"
  by (simp add: append_result_def)

lemma core_set_error_code [simp, unchanged]: "core (set_error_code i codes s) = core s"
  by (simp add: core_def set_error_code_def)

lemma core_background_error [simp, unchanged]: "core (background_error i info s) = core s"
  by (simp add: core_def background_error_def)

lemma core_incr_refs [simp, unchanged]: "core (incr_refs obs s) = core s"
  by (simp add: core_def incr_refs_def)

lemma core_decr_refs [simp, unchanged]: "core (decr_refs obs s) = core s"
  by (simp add: core_def decr_refs_def)

lemma core_put_world [simp, unchanged]: "core (put_world w s) = core s"
  by (simp add: core_def put_world_def)

lemma core_world_update [simp, unchanged]: "core (s\<lparr>world := w\<rparr>) = core s"
  by (simp add: core_def)

lemma core_fail [simp, unchanged]: "core (snd (fail T i msg codes s)) = core s"
  by (simp add: fail_def)

lemma core_objcFail [simp, unchanged]: "core (snd (objcFail T i objv msg s)) = core s"
  by (simp add: objcFail_def)

lemma core_badHandle [simp, unchanged]: "core (snd (badHandle T i objv s)) = core s"
  by (simp add: badHandle_def)

lemma core_eqD:
  assumes "core s' = core s"
  shows "next_free_id s' = next_free_id s" "next_free_pid s' = next_free_pid s" "brk s' = brk s"
    "hds s' = hds s" "dds s' = dds s" "assoc s' = assoc s"
  using assms by (simp_all add: core_def)

lemmas result_ops_defs = set_result_def put_results_def append_result_def set_error_code_def background_error_def

lemma hds_result_ops [simp, unchanged]:
  "hds (set_result i ob s) = hds s" "hds (append_result T i msg s) = hds s"
  "hds (set_error_code i codes s) = hds s" "hds (background_error i info s) = hds s"
  "hds (incr_refs obs s) = hds s" "hds (decr_refs obs s) = hds s" "hds (put_world w s) = hds s"
  by (simp_all add: result_ops_defs incr_refs_def decr_refs_def put_world_def)

lemma dds_result_ops [simp, unchanged]:
  "dds (set_result i ob s) = dds s" "dds (append_result T i msg s) = dds s"
  "dds (set_error_code i codes s) = dds s" "dds (background_error i info s) = dds s"
  "dds (incr_refs obs s) = dds s" "dds (decr_refs obs s) = dds s" "dds (put_world w s) = dds s"
  "dds (put_hd p H s) = dds s"
  by (simp_all add: result_ops_defs incr_refs_def decr_refs_def put_world_def put_hd_def)

lemma assoc_result_ops [simp, unchanged]:
  "assoc (set_result i ob s) = assoc s" "assoc (append_result T i msg s) = assoc s"
  "assoc (set_error_code i codes s) = assoc s" "assoc (background_error i info s) = assoc s"
  "assoc (incr_refs obs s) = assoc s" "assoc (decr_refs obs s) = assoc s" "assoc (put_world w s) = assoc s"
  "assoc (put_hd p H s) = assoc s"
  by (simp_all add: result_ops_defs incr_refs_def decr_refs_def put_world_def put_hd_def)

lemma world_result_ops [simp, unchanged]:
  "world (set_result i ob s) = world s" "world (append_result T i msg s) = world s"
  "world (set_error_code i codes s) = world s" "world (background_error i info s) = world s"
  "world (incr_refs obs s) = world s" "world (decr_refs obs s) = world s" "world (put_world w s) = w"
  "world (put_hd p H s) = world s"
  by (simp_all add: result_ops_defs incr_refs_def decr_refs_def put_world_def put_hd_def)

lemma refs_result_ops [simp, unchanged]:
  "refs (set_result i ob s) = refs s" "refs (append_result T i msg s) = refs s"
  "refs (set_error_code i codes s) = refs s" "refs (background_error i info s) = refs s"
  "refs (put_world w s) = refs s" "refs (put_hd p H s) = refs s"
  by (simp_all add: result_ops_defs put_world_def put_hd_def)

lemma error_code_set_error_code [simp]: "error_code (set_error_code i codes s) = (error_code s)(i := codes)"
  by (simp add: set_error_code_def)

lemma result_set_result [simp]: "result (set_result i ob s) = (result s)(i := ob)"
  by (simp add: set_result_def)

lemma put_results_sel [simp, unchanged]:
  "hds (put_results r s) = hds s" "dds (put_results r s) = dds s" "assoc (put_results r s) = assoc s"
  "world (put_results r s) = world s" "refs (put_results r s) = refs s" "result (put_results r s) = r"
  by (simp_all add: put_results_def)

lemma hds_put_hd [simp]: "hds (put_hd p H s) = (hds s)(p \<mapsto> H)"
  by (simp add: put_hd_def)

lemma allows_with_hd:
  "(\<And>H. hds s p = Some H \<Longrightarrow> allows (f H) Q) \<Longrightarrow> allows (with_hd p s f) Q"
  by (auto simp: with_hd_def split: option.splits)

lemma allows_with_handle:
  "(\<And>H h. hds s p = Some H \<Longrightarrow> hdl H = Some h \<Longrightarrow> allows (f h) Q) \<Longrightarrow> allows (with_handle p s f) Q"
  by (auto simp: with_handle_def with_hd_def split: option.splits)

lemma with_hd_Some [simp]: "hds s p = Some H \<Longrightarrow> with_hd p s f = f H"
  by (simp add: with_hd_def)

lemma with_handle_Some [simp]: "hds s p = Some H \<Longrightarrow> hdl H = Some h \<Longrightarrow> with_handle p s f = f h"
  by (simp add: with_handle_def)

lemma with_handle_freed: "hds s p = None \<Longrightarrow> with_handle p s f = Fault ''use of a freed handle_data''"
  by (simp add: with_handle_def with_hd_def)

text \<open>\<open>ledger\<close> adds the references the extension holds.\<close>

definition ledger :: "'w st \<Rightarrow> (int \<times> int \<times> addr \<times> (addr \<rightharpoonup> handle_data) \<times> (addr \<rightharpoonup> dtrace_data) \<times> (interp \<rightharpoonup> addr)) \<times> (tcl_obj \<Rightarrow> int)" where
  "ledger s = (core s, refs s)"

lemma ledger_iff: "ledger t = ledger s \<longleftrightarrow> core t = core s \<and> refs t = refs s"
  by (simp add: ledger_def)

lemma ledger_core: "ledger t = ledger s \<Longrightarrow> core t = core s"
  by (simp add: ledger_def)

lemma refs_fail [simp, unchanged]:
  "refs (snd (fail T i msg codes s)) = refs s" "refs (snd (objcFail T i objv arguments s)) = refs s"
  "refs (snd (badHandle T i objv s)) = refs s"
  by (simp_all add: fail_def objcFail_def badHandle_def)

lemma ledger_ops [simp, unchanged]:
  "ledger (set_result i ob s) = ledger s" "ledger (append_result T i msg s) = ledger s"
  "ledger (set_error_code i codes s) = ledger s" "ledger (background_error i info s) = ledger s"
  "ledger (put_world w s) = ledger s" "ledger (put_results r s) = ledger s"
  "ledger (snd (fail T i msg codes s)) = ledger s" "ledger (snd (objcFail T i objv arguments s)) = ledger s"
  "ledger (snd (badHandle T i objv s)) = ledger s"
  by (simp_all add: ledger_def)

text \<open>\<open>books\<close> adds the world: what stays when only the fields of an interpreter are written.\<close>

definition books :: "'w st \<Rightarrow> ((int \<times> int \<times> addr \<times> (addr \<rightharpoonup> handle_data) \<times> (addr \<rightharpoonup> dtrace_data) \<times> (interp \<rightharpoonup> addr)) \<times> (tcl_obj \<Rightarrow> int)) \<times> 'w" where
  "books s = (ledger s, world s)"

lemma books_iff: "books t = books s \<longleftrightarrow> ledger t = ledger s \<and> world t = world s"
  by (simp add: books_def)

lemma books_core: "books t = books s \<Longrightarrow> core t = core s"
  by (simp add: books_def ledger_def)

lemma books_ops [simp, unchanged]:
  "books (set_result i ob s) = books s" "books (append_result T i msg s) = books s"
  "books (set_error_code i codes s) = books s" "books (background_error i info s) = books s"
  "books (put_results r s) = books s"
  "books (snd (fail T i msg codes s)) = books s" "books (snd (objcFail T i objv arguments s)) = books s"
  "books (snd (badHandle T i objv s)) = books s"
  by (simp_all add: books_def fail_def objcFail_def badHandle_def append_result_def)

lemma libError_books: "allows (libError L T i objv p s) (\<lambda>(rc, s'). rc = TCL_ERROR \<and> books s' = books s)"
  by (auto simp: libError_def Let_def books_def fail_def append_result_def intro!: allows_with_handle)

lemma put_put_world [simp]: "put_world w (put_world v s) = put_world w s"
  by (simp add: put_world_def)

lemma put_world_id [simp]: "put_world (world s) s = s"
  by (simp add: put_world_def)

text \<open>A call that leaves all but the world as it was.\<close>

definition only_world :: "'w st \<Rightarrow> 'w st \<Rightarrow> bool" where
  "only_world s s' \<longleftrightarrow> s' = s\<lparr>world := world s'\<rparr>"

lemma only_world_refl [simp]: "only_world s s"
  by (simp add: only_world_def)

lemma only_world_put [simp]: "only_world s (put_world w s)"
  by (simp add: only_world_def put_world_def)

lemma only_world_trans: "only_world s t \<Longrightarrow> only_world t u \<Longrightarrow> only_world s u"
  by (cases u, cases t, cases s) (simp add: only_world_def)

lemma only_world_ledger: "only_world s s' \<Longrightarrow> ledger s' = ledger s"
  unfolding only_world_def ledger_iff by (metis core_world_update st.select_convs(12) st.surjective st.update_convs(13))

lemma only_world_core: "only_world s s' \<Longrightarrow> core s' = core s"
  by (rule ledger_core [OF only_world_ledger])

lemmas [exec_defs] = result_ops_defs fail_def objcFail_def badHandle_def COMMAND_def
  with_hd_def with_handle_def put_hd_def put_world_def libError_def Let_def

end
