(* ===== verification/Proc_Vector.thy ===== *)
theory Proc_Vector
  imports State_Ops
begin

text \<open>
  The growing vector of grabbed processes in a handle: \<^verbatim>\<open>::dtrace::grab\<close> and
  \<^verbatim>\<open>::dtrace::launch\<close> append to it with the same eight lines of code, \<^verbatim>\<open>::dtrace::go\<close>
  reads it from the first cell to the last. The contract of such a vector is the locale
  \<open>growing_vector\<close>; the code's cells, count and capacity implement it.
\<close>

section \<open>The contract: appending to a list\<close>

fun push_all :: "('a \<Rightarrow> 'v \<Rightarrow> 'v exec) \<Rightarrow> 'a list \<Rightarrow> 'v \<Rightarrow> 'v exec" where
  "push_all push [] v = Done v"
| "push_all push (x # xs) v = seq (push x v) (push_all push xs)"

locale growing_vector =
  fixes contents :: "'v \<Rightarrow> 'a list"
    and push :: "'a \<Rightarrow> 'v \<Rightarrow> 'v exec"
    and invar :: "'v \<Rightarrow> bool"
    and limit :: nat
  assumes push_spec: "invar v \<Longrightarrow> length (contents v) < limit \<Longrightarrow>
    ensures (push x v) (\<lambda>v'. invar v' \<and> contents v' = contents v @ [x])"
    and push_full: "invar v \<Longrightarrow> limit \<le> length (contents v) \<Longrightarrow> \<not> ensures (push x v) Q"
begin

lemma push_all_spec:
  assumes "invar v" and "length (contents v) + length xs \<le> limit"
  shows "ensures (push_all push xs v) (\<lambda>v'. invar v' \<and> contents v' = contents v @ xs)"
  using assms
proof (induction xs arbitrary: v)
  case Nil
  then show ?case by simp
next
  case (Cons x xs)
  from Cons.prems have "ensures (push x v) (\<lambda>v'. invar v' \<and> contents v' = contents v @ [x])"
    by (intro push_spec) auto
  moreover have "ensures (push_all push xs w) (\<lambda>v'. invar v' \<and> contents v' = contents v @ x # xs)"
    if "invar w" and "contents w = contents v @ [x]" for w
    using Cons.IH [of w] that Cons.prems by simp
  ultimately show ?case by (auto elim!: ensures_mono)
qed

lemma push_allows:
  assumes "invar v"
  shows "allows (push x v) (\<lambda>v'. invar v' \<and> contents v' = contents v @ [x])"
proof (cases "length (contents v) < limit")
  case True
  with push_spec [OF assms, of x] show ?thesis by (auto simp: ensures_iff)
next
  case False
  with push_full [OF assms, of x "\<lambda>_. True"] show ?thesis
    by (auto simp: ensures_iff allows_iff)
qed

end

section \<open>The code's vector\<close>

text \<open>
  \<^verbatim>\<open>ckrealloc\<close> keeps the cells that fit and leaves new ones unwritten. A store outside the
  block and an overflow of the new capacity are undefined.
\<close>

definition ckrealloc_cells :: "prochandle option list option \<Rightarrow> int \<Rightarrow> prochandle option list" where
  "ckrealloc_cells old n =
     (let cells = (case old of None \<Rightarrow> [] | Some cs \<Rightarrow> cs)
      in take (nat n) cells @ replicate (nat n - length cells) None)"

definition grow_if_full :: "handle_data \<Rightarrow> handle_data exec" where
  "grow_if_full H =
     (if proc_count H = proc_capacity H then
        if INT_MAX < 2 * proc_capacity H + 1 then Fault ''overflow of proc_capacity''
        else let n = 2 * proc_capacity H + 1 in
          Done (H\<lparr>proc_capacity := n, processes := Some (ckrealloc_cells (processes H) n)\<rparr>)
      else Done H)"

definition store_process :: "prochandle \<Rightarrow> handle_data \<Rightarrow> handle_data exec" where
  "store_process proc H =
     (case processes H of
        None \<Rightarrow> Fault ''store through a NULL process vector''
      | Some cells \<Rightarrow>
          if 0 \<le> proc_count H \<and> proc_count H < int (length cells) then
            Done (H\<lparr>processes := Some (cells[nat (proc_count H) := Some proc]), proc_count := proc_count H + 1\<rparr>)
          else Fault ''store past the process vector'')"

definition push_process :: "prochandle \<Rightarrow> handle_data \<Rightarrow> handle_data exec" where
  "push_process proc H = seq (grow_if_full H) (store_process proc)"

text \<open>One read of \<^verbatim>\<open>hd->processes[i]\<close>, as \<^verbatim>\<open>::dtrace::go\<close> does it.\<close>

definition read_process :: "int \<Rightarrow> handle_data \<Rightarrow> prochandle exec" where
  "read_process i H =
     (case processes H of
        None \<Rightarrow> Fault ''read through a NULL process vector''
      | Some cells \<Rightarrow>
          if 0 \<le> i \<and> i < int (length cells) then
            (case cells ! nat i of None \<Rightarrow> Fault ''read of an unwritten cell'' | Some proc \<Rightarrow> Done proc)
          else Fault ''read past the process vector'')"

section \<open>Its abstraction and invariant\<close>

definition cells_of :: "handle_data \<Rightarrow> prochandle option list" where
  "cells_of H = (case processes H of None \<Rightarrow> [] | Some cs \<Rightarrow> cs)"

definition grabbed :: "handle_data \<Rightarrow> prochandle list" where
  "grabbed H = map the (take (nat (proc_count H)) (cells_of H))"

text \<open>
  Capacities are the numbers \<open>2 ^ k - 1\<close> up to \<open>INT_MAX\<close>, which is itself one of them: that is
  why the doubling never overflows before the vector is full.
\<close>

definition vec_wf :: "handle_data \<Rightarrow> bool" where
  "vec_wf H \<longleftrightarrow>
     0 \<le> proc_count H \<and> proc_count H \<le> proc_capacity H \<and>
     (\<exists>k\<le>31. proc_capacity H + 1 = 2 ^ k) \<and>
     length (cells_of H) = nat (proc_capacity H) \<and>
     (processes H = None \<longleftrightarrow> proc_capacity H = 0) \<and>
     (\<forall>j < nat (proc_count H). cells_of H ! j \<noteq> None)"

lemma vec_wf_bounds: "vec_wf H \<Longrightarrow> 0 \<le> proc_count H \<and> proc_count H \<le> INT_MAX \<and> proc_capacity H \<le> INT_MAX"
proof -
  assume wf: "vec_wf H"
  then obtain k where k: "k \<le> 31" "proc_capacity H + 1 = 2 ^ k"
    by (auto simp: vec_wf_def)
  have "(2::int) ^ k \<le> 2 ^ 31" using k(1) by (rule power_increasing) simp
  with wf k show ?thesis by (simp add: vec_wf_def INT_MAX_def)
qed

lemma length_grabbed: "vec_wf H \<Longrightarrow> length (grabbed H) = nat (proc_count H)"
  by (auto simp: vec_wf_def grabbed_def intro!: min_absorb2 nat_mono)

lemma pow2_step:
  assumes "k \<le> 31" and "c + 1 = (2::int) ^ k" and "2 * c + 1 \<le> INT_MAX"
  shows "\<exists>j\<le>31. 2 * c + 2 = 2 ^ j"
proof -
  have "k \<noteq> 31"
    using assms by (auto simp: INT_MAX_def)
  with assms show ?thesis by (intro exI [of _ "Suc k"]) simp
qed

lemma grow_spec:
  assumes wf: "vec_wf H" and room: "proc_count H < INT_MAX"
  shows "ensures (grow_if_full H)
    (\<lambda>H'. vec_wf H' \<and> proc_count H' = proc_count H \<and> proc_count H' < proc_capacity H' \<and> grabbed H' = grabbed H)"
proof (cases "proc_count H = proc_capacity H")
  case False
  with wf show ?thesis by (auto simp: grow_if_full_def vec_wf_def)
next
  case True
  let ?n = "2 * proc_capacity H + 1"
  let ?H = "H\<lparr>proc_capacity := ?n, processes := Some (ckrealloc_cells (processes H) ?n)\<rparr>"
  from wf obtain k where k: "k \<le> 31" "proc_capacity H + 1 = 2 ^ k" by (auto simp: vec_wf_def)
  have fits: "?n \<le> INT_MAX"
  proof (rule ccontr)
    assume "\<not> ?n \<le> INT_MAX"
    then have "(2::int) ^ 30 < 2 ^ k" using k(2) by (simp add: INT_MAX_def)
    then have "30 < k" by (rule power_less_imp_less_exp [rotated]) simp
    with k have "proc_capacity H = INT_MAX" by (simp add: INT_MAX_def le_less)
    with True room show False by simp
  qed
  have cells: "cells_of ?H = cells_of H @ replicate (nat ?n - nat (proc_capacity H)) None"
    using wf by (auto simp: cells_of_def ckrealloc_cells_def vec_wf_def Let_def split: option.splits)
  have "\<exists>j\<le>31. ?n + 1 = 2 ^ j" using pow2_step [OF k fits] by (simp add: add.assoc)
  then have "vec_wf ?H"
    using wf True cells by (auto simp: vec_wf_def nth_append)
  moreover have "grabbed ?H = grabbed H"
    using wf True cells by (simp add: grabbed_def vec_wf_def)
  ultimately show ?thesis
    using wf True fits by (simp add: grow_if_full_def Let_def vec_wf_def)
qed

lemma store_spec:
  assumes wf: "vec_wf H" and room: "proc_count H < proc_capacity H"
  shows "ensures (store_process proc H) (\<lambda>H'. vec_wf H' \<and> grabbed H' = grabbed H @ [proc])"
proof -
  let ?c = "nat (proc_count H)"
  from wf room obtain cells where cells: "processes H = Some cells" by (auto simp: vec_wf_def)
  with wf room have c: "?c < length cells" "nat (proc_count H + 1) = Suc ?c"
    and b: "0 \<le> proc_count H" "proc_count H < int (length cells)"
    by (auto simp: vec_wf_def cells_of_def)
  let ?H = "H\<lparr>processes := Some (cells[?c := Some proc]), proc_count := proc_count H + 1\<rparr>"
  have "vec_wf ?H"
    using wf room cells c by (auto simp: vec_wf_def cells_of_def nth_list_update less_Suc_eq)
  moreover have "grabbed ?H = grabbed H @ [proc]"
    using cells c by (simp add: grabbed_def cells_of_def take_Suc_conv_app_nth)
  ultimately show ?thesis using cells b by (simp add: store_process_def)
qed

lemma push_process_spec:
  assumes "vec_wf H" and "proc_count H < INT_MAX"
  shows "ensures (push_process proc H) (\<lambda>H'. vec_wf H' \<and> grabbed H' = grabbed H @ [proc])"
proof -
  have "ensures (store_process proc H') (\<lambda>H'. vec_wf H' \<and> grabbed H' = grabbed H @ [proc])"
    if "vec_wf H' \<and> proc_count H' = proc_count H \<and> proc_count H' < proc_capacity H' \<and> grabbed H' = grabbed H" for H'
    using that store_spec [of H' proc] by simp
  then show ?thesis
    unfolding push_process_def ensures_seq by (rule ensures_mono [OF grow_spec [OF assms]])
qed

interpretation procs: growing_vector grabbed push_process vec_wf "nat INT_MAX"
proof unfold_locales
  fix H :: handle_data and proc
  assume wf: "vec_wf H" and "length (grabbed H) < nat INT_MAX"
  then have "proc_count H < INT_MAX" by (simp add: length_grabbed)
  with wf show "ensures (push_process proc H) (\<lambda>H'. vec_wf H' \<and> grabbed H' = grabbed H @ [proc])"
    by (rule push_process_spec)
next
  fix H :: handle_data and proc and Q
  assume wf: "vec_wf H" and "nat INT_MAX \<le> length (grabbed H)"
  then have "proc_count H = INT_MAX" "proc_capacity H = INT_MAX"
    using vec_wf_bounds [OF wf] by (auto simp: length_grabbed vec_wf_def)
  then show "\<not> ensures (push_process proc H) Q"
    by (simp add: push_process_def grow_if_full_def INT_MAX_def)
qed

text \<open>What a push leaves of the other fields.\<close>

definition same_but_vector :: "handle_data \<Rightarrow> handle_data \<Rightarrow> bool" where
  "same_but_vector H H' \<longleftrightarrow>
     H' = H\<lparr>processes := processes H', proc_count := proc_count H', proc_capacity := proc_capacity H'\<rparr>"

lemma push_process_frame: "allows (push_process proc H) (same_but_vector H)"
  by (auto simp: push_process_def grow_if_full_def store_process_def same_but_vector_def Let_def
      split: option.splits)

text \<open>Reading the cells in order gives the abstract list.\<close>

lemma read_process_spec:
  assumes "vec_wf H" and "j < length (grabbed H)"
  shows "read_process (int j) H = Done (grabbed H ! j)"
proof -
  from assms have j: "j < nat (proc_count H)" by (simp add: length_grabbed)
  with assms(1) obtain cells where cells: "processes H = Some cells" by (auto simp: vec_wf_def)
  with assms(1) j have "j < length cells" and "cells ! j \<noteq> None"
    by (auto simp: vec_wf_def cells_of_def)
  with cells j show ?thesis
    by (auto simp: read_process_def grabbed_def cells_of_def)
qed

end
