(* ===== verification/Registry.thy ===== *)
theory Registry
  imports Proc_Vector
begin

text \<open>
  Handles and compiled programs: the tables of an interpreter that give a script's integers a
  meaning (\<^verbatim>\<open>new_hd\<close>, \<^verbatim>\<open>get_hd\<close>, \<^verbatim>\<open>del_hd\<close>, \<^verbatim>\<open>register_pd\<close>, \<^verbatim>\<open>get_pd\<close> of
  \<^verbatim>\<open>generic/dtrace.c\<close>), and the invariant that ties the tables to the heap.
\<close>

section \<open>The operations\<close>

text \<open>
  \<^verbatim>\<open>Tcl_GetAssocData\<close>: the extension's data of an interpreter, with the branch taken when
  there is none.
\<close>

definition with_assoc :: "interp \<Rightarrow> 'w st \<Rightarrow> 'a exec \<Rightarrow> (addr \<Rightarrow> dtrace_data \<Rightarrow> 'a exec) \<Rightarrow> 'a exec" where
  "with_assoc i s none f =
     (case assoc s i of
        None \<Rightarrow> none
      | Some d \<Rightarrow> (case dds s d of None \<Rightarrow> Fault ''use of a freed dtrace_data'' | Some dd \<Rightarrow> f d dd))"

definition no_data :: "'a exec" where
  "no_data = Panic ''dtrace dtrace data not found''"

definition put_dd :: "addr \<Rightarrow> dtrace_data \<Rightarrow> 'w st \<Rightarrow> 'w st" where
  "put_dd d dd s = s\<lparr>dds := (dds s)(d \<mapsto> dd)\<rparr>"

definition get_hd :: "'w tcl \<Rightarrow> interp \<Rightarrow> tcl_obj \<Rightarrow> 'w st \<Rightarrow> (addr option \<times> 'w st) exec" where
  "get_hd T i toid s =
     (case Tcl_GetIntFromObj T toid of
        Inl msg \<Rightarrow> Done (None, append_result T i newline (set_result i (StrObj msg) s))
      | Inr iid \<Rightarrow>
          with_assoc i s no_data (\<lambda>d dd. with_table (handles dd) (\<lambda>es. Done (map_of es iid, s))))"

definition del_hd :: "'w tcl \<Rightarrow> interp \<Rightarrow> tcl_obj \<Rightarrow> 'w st \<Rightarrow> 'w st exec" where
  "del_hd T i idobj s =
     (case Tcl_GetIntFromObj T idobj of
        Inl msg \<Rightarrow> Fault ''use of an uninitialised id''
      | Inr iid \<Rightarrow>
          with_assoc i s no_data (\<lambda>d dd.
            with_table (handles dd) (\<lambda>es.
              case map_of es iid of
                None \<Rightarrow> Panic ''dtrace hash entry to be deleted not found''
              | Some p \<Rightarrow>
                  with_hd p s (\<lambda>H.
                    case programs dd of
                      Table ps \<Rightarrow>
                        Done (put_dd d (dd\<lparr>handles := Table (AList.delete iid es), programs := Table []\<rparr>)
                               (s\<lparr>hds := (hds s)(p := None)\<rparr>))
                    | _ \<Rightarrow> Fault ''walk through a table that is not there''))))"

definition zero_hd :: handle_data where
  "zero_hd = \<lparr>hdl = None, foldpdesc = 0, hd_interp = None, agg_tuple = None, agg_list = NullList,
     processes = None, proc_count = 0, proc_capacity = 0,
     cb_procs = replicate CALLBACKS_COUNT None, cb_args = replicate CALLBACKS_COUNT None\<rparr>"

definition new_hd :: "interp \<Rightarrow> 'w st \<Rightarrow> ((addr option \<times> int) \<times> 'w st) exec" where
  "new_hd i s =
     with_assoc i s (Fault ''NULL dtrace_data'') (\<lambda>d dd.
       with_table (handles dd) (\<lambda>es.
         if next_free_id s = INT_MAX then Fault ''overflow of next_free_id''
         else
           let id = next_free_id s; p = brk s;
             s1 = s\<lparr>next_free_id := id + 1, brk := p + 1, hds := (hds s)(p \<mapsto> zero_hd)\<rparr>
           in if map_of es id \<noteq> None then Panic ''dtrace duplicate hash table entry''
              else Done ((Some p, id), put_dd d (dd\<lparr>handles := Table (tab_create id p es)\<rparr>) s1)))"

definition register_pd :: "interp \<Rightarrow> addr \<Rightarrow> dtrace_prog \<Rightarrow> 'w st \<Rightarrow> (tcl_obj \<times> 'w st) exec" where
  "register_pd i p prog s =
     with_assoc i s no_data (\<lambda>d dd.
       with_table (programs dd) (\<lambda>ps.
         if next_free_pid s = INT_MAX then Fault ''overflow of next_free_pid''
         else
           let id = next_free_pid s; s1 = s\<lparr>next_free_pid := id + 1\<rparr>
           in if map_of ps id \<noteq> None then Panic ''dtrace duplicate hash table entry''
              else Done (IntObj id,
                     put_dd d (dd\<lparr>programs := Table (tab_create id \<lparr>compiled = prog, pd_hd = p\<rparr> ps)\<rparr>) s1)))"

definition get_pd :: "'w tcl \<Rightarrow> interp \<Rightarrow> tcl_obj \<Rightarrow> 'w st \<Rightarrow> (program_data option \<times> 'w st) exec" where
  "get_pd T i idobj s =
     (case Tcl_GetIntFromObj T idobj of
        Inl msg \<Rightarrow> Done (None, append_result T i newline (set_result i (StrObj msg) s))
      | Inr iid \<Rightarrow>
          with_assoc i s no_data (\<lambda>d dd. with_table (programs dd) (\<lambda>ps. Done (map_of ps iid, s))))"

section \<open>The invariant\<close>

definition owns :: "'w st \<Rightarrow> addr \<Rightarrow> int \<Rightarrow> addr \<Rightarrow> bool" where
  "owns s d k p \<longleftrightarrow> (\<exists>dd. dds s d = Some dd \<and> map_of (entries (handles dd)) k = Some p)"

definition has_prog :: "'w st \<Rightarrow> addr \<Rightarrow> int \<Rightarrow> program_data \<Rightarrow> bool" where
  "has_prog s d k pd \<longleftrightarrow> (\<exists>dd. dds s d = Some dd \<and> map_of (entries (programs dd)) k = Some pd)"

definition slots_wf :: "handle_data \<Rightarrow> bool" where
  "slots_wf H \<longleftrightarrow> length (cb_procs H) = CALLBACKS_COUNT \<and> length (cb_args H) = CALLBACKS_COUNT \<and>
     (\<forall>j < CALLBACKS_COUNT. cb_procs H ! j = None \<longleftrightarrow> cb_args H ! j = None)"

definition wf_hd :: "handle_data \<Rightarrow> bool" where
  "wf_hd H \<longleftrightarrow> vec_wf H \<and> slots_wf H"

text \<open>The identifiers given out so far, within range.\<close>

definition ids_wf :: "'w st \<Rightarrow> bool" where
  "ids_wf s \<longleftrightarrow> 1 \<le> next_free_id s \<and> next_free_id s \<le> INT_MAX \<and> 1 \<le> next_free_pid s \<and> next_free_pid s \<le> INT_MAX \<and>
     (\<forall>d k p. owns s d k p \<longrightarrow> 1 \<le> k \<and> k < next_free_id s) \<and>
     (\<forall>d k pd. has_prog s d k pd \<longrightarrow> 1 \<le> k \<and> k < next_free_pid s)"

text \<open>Every entry points to a live structure, every live structure has one entry, in one table.\<close>

definition owners_wf :: "'w st \<Rightarrow> bool" where
  "owners_wf s \<longleftrightarrow>
     (\<forall>d k p. owns s d k p \<longrightarrow> hds s p \<noteq> None) \<and>
     (\<forall>p. hds s p \<noteq> None \<longrightarrow> (\<exists>d k. owns s d k p)) \<and>
     (\<forall>d k p d' k' p'. owns s d k p \<longrightarrow> owns s d' k' p' \<longrightarrow> k = k' \<or> p = p' \<longrightarrow> d = d' \<and> k = k' \<and> p = p')"

text \<open>A compiled program belongs to a handle of the same interpreter; its number is used once.\<close>

definition progs_wf :: "'w st \<Rightarrow> bool" where
  "progs_wf s \<longleftrightarrow>
     (\<forall>d k pd. has_prog s d k pd \<longrightarrow> (\<exists>k'. owns s d k' (pd_hd pd))) \<and>
     (\<forall>d d' k pd pd'. has_prog s d k pd \<longrightarrow> has_prog s d' k pd' \<longrightarrow> d = d')"

definition tables_wf :: "'w st \<Rightarrow> bool" where
  "tables_wf s \<longleftrightarrow>
     (\<forall>d dd. dds s d = Some dd \<longrightarrow> d < brk s \<and> tab_wf (entries (handles dd)) \<and> tab_wf (entries (programs dd))) \<and>
     (\<forall>i d. assoc s i = Some d \<longrightarrow> (\<exists>es ps. dds s d = Some \<lparr>handles = Table es, programs = Table ps\<rparr>)) \<and>
     (\<forall>i j d. assoc s i = Some d \<longrightarrow> assoc s j = Some d \<longrightarrow> i = j)"

definition heap_wf :: "'w st \<Rightarrow> bool" where
  "heap_wf s \<longleftrightarrow> (\<forall>p H. hds s p = Some H \<longrightarrow> p < brk s \<and> wf_hd H)"

definition wf_st :: "'w st \<Rightarrow> bool" where
  "wf_st s \<longleftrightarrow> ids_wf s \<and> owners_wf s \<and> progs_wf s \<and> tables_wf s \<and> heap_wf s"

lemmas wf_defs = wf_st_def ids_wf_def owners_wf_def progs_wf_def tables_wf_def heap_wf_def

text \<open>The invariant looks at \<open>core\<close> only.\<close>

lemma owns_core: "core s' = core s \<Longrightarrow> owns s' = owns s"
  by (simp add: fun_eq_iff owns_def core_def)

lemma has_prog_core: "core s' = core s \<Longrightarrow> has_prog s' = has_prog s"
  by (simp add: fun_eq_iff has_prog_def core_def)

lemma wf_core:
  assumes "core s' = core s"
  shows "wf_st s' = wf_st s"
  by (simp add: wf_defs core_eqD [OF assms] owns_core [OF assms] has_prog_core [OF assms])

lemma wf_state_ops [simp]:
  "wf_st (set_result i ob s) = wf_st s" "wf_st (append_result T i msg s) = wf_st s"
  "wf_st (set_error_code i codes s) = wf_st s" "wf_st (background_error i info s) = wf_st s"
  "wf_st (incr_refs obs s) = wf_st s" "wf_st (decr_refs obs s) = wf_st s" "wf_st (put_world w s) = wf_st s"
  "wf_st (s\<lparr>world := w\<rparr>) = wf_st s"
  "wf_st (snd (fail T i msg codes s)) = wf_st s" "wf_st (snd (objcFail T i objv msg s)) = wf_st s"
  "wf_st (snd (badHandle T i objv s)) = wf_st s"
  by (rule wf_core, simp)+

end
