(* ===== verification/Registry_Inv.thy ===== *)
theory Registry_Inv
  imports Registry
begin

text \<open>
  What the registry's operations do, and that each keeps the invariant of \<open>Registry\<close>: a handle
  that was created is found under its number, a deleted one is gone with every program of its
  interpreter, and no operation on a well-formed state follows a pointer to freed memory.
\<close>

section \<open>Views of an updated state\<close>

lemma owns_put_dd:
  "owns (put_dd d dd s) d' k p =
     (if d' = d then map_of (entries (handles dd)) k = Some p else owns s d' k p)"
  by (simp add: owns_def put_dd_def)

lemma has_prog_put_dd:
  "has_prog (put_dd d dd s) d' k pd =
     (if d' = d then map_of (entries (programs dd)) k = Some pd else has_prog s d' k pd)"
  by (simp add: has_prog_def put_dd_def)

lemma owns_cong_dds: "dds s' = dds s \<Longrightarrow> owns s' d k p = owns s d k p"
  by (simp add: owns_def)

lemma has_prog_cong_dds: "dds s' = dds s \<Longrightarrow> has_prog s' d k pd = has_prog s d k pd"
  by (simp add: has_prog_def)

lemma put_dd_sel [simp]:
  "next_free_id (put_dd d dd s) = next_free_id s" "next_free_pid (put_dd d dd s) = next_free_pid s"
  "brk (put_dd d dd s) = brk s" "hds (put_dd d dd s) = hds s" "assoc (put_dd d dd s) = assoc s"
  "dds (put_dd d dd s) = (dds s)(d \<mapsto> dd)" "world (put_dd d dd s) = world s"
  "result (put_dd d dd s) = result s" "error_code (put_dd d dd s) = error_code s"
  "refs (put_dd d dd s) = refs s" "bg_errors (put_dd d dd s) = bg_errors s"
  by (simp_all add: put_dd_def)

lemma wf_assocE:
  assumes "wf_st s" and "assoc s i = Some d"
  obtains es ps where "dds s d = Some \<lparr>handles = Table es, programs = Table ps\<rparr>"
    "tab_wf es" "tab_wf ps" "d < brk s"
proof -
  from assms obtain es ps where dd: "dds s d = Some \<lparr>handles = Table es, programs = Table ps\<rparr>"
    unfolding wf_st_def tables_wf_def by blast
  with assms have "tab_wf es" "tab_wf ps" "d < brk s"
    by (fastforce simp: wf_st_def tables_wf_def)+
  with dd show ?thesis by (rule that)
qed

lemma wf_tables: "wf_st s \<Longrightarrow> dds s d = Some dd \<Longrightarrow>
    d < brk s \<and> tab_wf (entries (handles dd)) \<and> tab_wf (entries (programs dd))"
  unfolding wf_st_def tables_wf_def by blast

lemma wf_assoc_inj: "wf_st s \<Longrightarrow> assoc s i = Some d \<Longrightarrow> assoc s j = Some d \<Longrightarrow> i = j"
  unfolding wf_st_def tables_wf_def by blast

lemma wf_ids: "wf_st s \<Longrightarrow> 1 \<le> next_free_id s \<and> next_free_id s \<le> INT_MAX \<and> 1 \<le> next_free_pid s \<and> next_free_pid s \<le> INT_MAX"
  unfolding wf_st_def ids_wf_def by blast

lemma wf_owns_live: "wf_st s \<Longrightarrow> owns s d k p \<Longrightarrow> \<exists>H. hds s p = Some H"
  unfolding wf_st_def owners_wf_def by blast

lemma wf_live_owned: "wf_st s \<Longrightarrow> hds s p = Some H \<Longrightarrow> \<exists>d k. owns s d k p"
  unfolding wf_st_def owners_wf_def by blast

lemma wf_owns_unique:
  assumes "wf_st s" and "owns s d k p" and "owns s d' k' p'" and "k = k' \<or> p = p'"
  shows "d = d' \<and> k = k' \<and> p = p'"
proof -
  from assms(1) have "\<forall>d k p d' k' p'. owns s d k p \<longrightarrow> owns s d' k' p' \<longrightarrow> k = k' \<or> p = p' \<longrightarrow> d = d' \<and> k = k' \<and> p = p'"
    unfolding wf_st_def owners_wf_def by (elim conjE)
  from this [rule_format, OF assms(2-4)] show ?thesis .
qed

lemma wf_live_hd: "wf_st s \<Longrightarrow> hds s p = Some H \<Longrightarrow> wf_hd H"
  by (simp add: wf_st_def heap_wf_def)

lemma wf_live_brk: "wf_st s \<Longrightarrow> hds s p = Some H \<Longrightarrow> p < brk s"
  by (simp add: wf_st_def heap_wf_def)

lemma wf_fresh_addr: "wf_st s \<Longrightarrow> hds s (brk s) = None"
  using wf_live_brk by (cases "hds s (brk s)") auto

lemma wf_owns_range: "wf_st s \<Longrightarrow> owns s d k p \<Longrightarrow> 1 \<le> k \<and> k < next_free_id s"
  unfolding wf_st_def ids_wf_def by blast

lemma wf_prog_range: "wf_st s \<Longrightarrow> has_prog s d k pd \<Longrightarrow> 1 \<le> k \<and> k < next_free_pid s"
  unfolding wf_st_def ids_wf_def by blast

lemma wf_prog_owner: "wf_st s \<Longrightarrow> has_prog s d k pd \<Longrightarrow> \<exists>k'. owns s d k' (pd_hd pd)"
  unfolding wf_st_def progs_wf_def by blast

lemma wf_prog_live: "wf_st s \<Longrightarrow> has_prog s d k pd \<Longrightarrow> \<exists>H. hds s (pd_hd pd) = Some H"
  using wf_prog_owner wf_owns_live by blast

lemma wf_prog_unique: "wf_st s \<Longrightarrow> has_prog s d k pd \<Longrightarrow> has_prog s d' k pd' \<Longrightarrow> d = d'"
  by (simp only: wf_st_def progs_wf_def)

lemma wf_fresh_id: "wf_st s \<Longrightarrow> \<not> owns s d (next_free_id s) p"
  using wf_owns_range by fastforce

lemma wf_fresh_pid: "wf_st s \<Longrightarrow> \<not> has_prog s d (next_free_pid s) pd"
  using wf_prog_range by fastforce

lemma not_owns_brk: "wf_st s \<Longrightarrow> \<not> owns s d k (brk s)"
  using wf_owns_live wf_fresh_addr by fastforce

lemmas wf_dests = wf_ids wf_owns_live wf_live_owned wf_owns_unique wf_owns_range wf_prog_range
  wf_prog_owner wf_prog_unique wf_tables wf_assoc_inj wf_live_hd wf_live_brk

section \<open>Writing a handle's structure\<close>

lemma wf_put_hd:
  assumes wf: "wf_st s" and live: "hds s p = Some H0" and H: "wf_hd H"
  shows "wf_st (put_hd p H s)"
proof -
  have o: "owns (put_hd p H s) = owns s" and q: "has_prog (put_hd p H s) = has_prog s"
    by (simp_all add: fun_eq_iff owns_def has_prog_def)
  from wf live H show ?thesis
    unfolding wf_st_def ids_wf_def owners_wf_def progs_wf_def tables_wf_def heap_wf_def o q
    by (simp add: put_hd_def)
qed

lemma wf_hd_zero: "wf_hd zero_hd"
  by (simp add: wf_hd_def slots_wf_def vec_wf_def cells_of_def zero_hd_def exI [of _ 0])

text \<open>Replacing one interpreter's tables by two well-formed ones.\<close>

lemma tables_wf_put_dd:
  assumes wf: "wf_st s" and d: "dds s d = Some dd0"
    and s': "dds s' = (dds s)(d \<mapsto> \<lparr>handles = Table es, programs = Table ps\<rparr>)" "assoc s' = assoc s" "brk s \<le> brk s'"
    and "tab_wf es" "tab_wf ps"
  shows "tables_wf s'"
proof (unfold tables_wf_def, intro conjI allI impI)
  fix d' dd'
  assume "dds s' d' = Some dd'"
  then show "d' < brk s'" "tab_wf (entries (handles dd'))" "tab_wf (entries (programs dd'))"
    using wf_tables [OF wf] assms by (fastforce split: if_splits)+
next
  fix j d'
  assume "assoc s' j = Some d'"
  then show "\<exists>es ps. dds s' d' = Some \<lparr>handles = Table es, programs = Table ps\<rparr>"
    using wf_assocE [OF wf, of j d'] s' by fastforce
next
  fix j j' d'
  assume "assoc s' j = Some d'" and "assoc s' j' = Some d'"
  then show "j = j'" using wf_assoc_inj [OF wf] s' by simp
qed

section \<open>new_hd\<close>

definition created :: "'w st \<Rightarrow> interp \<Rightarrow> 'w st \<Rightarrow> bool" where
  "created s i s' \<longleftrightarrow>
     (\<exists>d. assoc s i = Some d \<and>
        (\<forall>d' k p. owns s' d' k p \<longleftrightarrow> (d' = d \<and> k = next_free_id s \<and> p = brk s) \<or> owns s d' k p)) \<and>
     has_prog s' = has_prog s \<and>
     hds s' = (hds s)(brk s \<mapsto> zero_hd) \<and> next_free_id s' = next_free_id s + 1 \<and>
     next_free_pid s' = next_free_pid s \<and> brk s' = brk s + 1 \<and> assoc s' = assoc s \<and>
     world s' = world s \<and> refs s' = refs s \<and> result s' = result s \<and> error_code s' = error_code s"

lemma new_hd_spec:
  assumes wf: "wf_st s" and i: "assoc s i = Some d" and room: "next_free_id s < INT_MAX"
  shows "ensures (new_hd i s) (\<lambda>((po, k), s'). po = Some (brk s) \<and> k = next_free_id s \<and> created s i s' \<and> wf_st s')"
proof -
  from wf i obtain es ps where dd: "dds s d = Some \<lparr>handles = Table es, programs = Table ps\<rparr>"
    and es: "tab_wf es" and ps: "tab_wf ps"
    by (rule wf_assocE)
  let ?s1 = "s\<lparr>next_free_id := next_free_id s + 1, brk := brk s + 1, hds := (hds s)(brk s \<mapsto> zero_hd)\<rparr>"
  let ?dd = "\<lparr>handles = Table (tab_create (next_free_id s) (brk s) es), programs = Table ps\<rparr>"
  let ?t = "put_dd d ?dd ?s1"
  have fresh: "map_of es (next_free_id s) = None"
    using wf_fresh_id [OF wf, of d] dd by (auto simp: owns_def)
  have o: "owns ?t d' k p \<longleftrightarrow> (d' = d \<and> k = next_free_id s \<and> p = brk s) \<or> owns s d' k p" for d' k p
    using fresh dd by (auto simp: owns_def tab.find_create es)
  have q: "has_prog ?t = has_prog s"
    using dd by (auto simp: fun_eq_iff has_prog_def)
  have c: "created s i ?t"
    using i o q by (auto simp: created_def)
  have "ids_wf ?t"
    unfolding ids_wf_def o q using wf_ids [OF wf] wf_owns_range [OF wf] wf_prog_range [OF wf] room
    by fastforce
  moreover have "owners_wf ?t"
  proof (unfold owners_wf_def o, intro conjI allI impI)
    fix d' k p
    assume "d' = d \<and> k = next_free_id s \<and> p = brk s \<or> owns s d' k p"
    then show "hds ?t p \<noteq> None" using wf_owns_live [OF wf] by auto
  next
    fix p
    assume "hds ?t p \<noteq> None"
    then show "\<exists>d' k. d' = d \<and> k = next_free_id s \<and> p = brk s \<or> owns s d' k p"
      using wf_live_owned [OF wf] by (auto split: if_splits)
  next
    fix d1 k1 p1 d2 k2 p2
    assume "d1 = d \<and> k1 = next_free_id s \<and> p1 = brk s \<or> owns s d1 k1 p1"
      and "d2 = d \<and> k2 = next_free_id s \<and> p2 = brk s \<or> owns s d2 k2 p2"
      and "k1 = k2 \<or> p1 = p2"
    then show "d1 = d2" "k1 = k2" "p1 = p2"
      using wf_owns_unique [OF wf, of d1 k1 p1 d2 k2 p2] wf_fresh_id [OF wf] not_owns_brk [OF wf] by metis+
  qed
  moreover have "progs_wf ?t"
    unfolding progs_wf_def q o using wf_prog_owner [OF wf] wf_prog_unique [OF wf] by blast
  moreover have "tables_wf ?t"
    by (rule tables_wf_put_dd [OF wf dd]) (use tab.invar_create [OF es fresh] ps in simp_all)
  moreover have "heap_wf ?t"
    using wf_live_hd [OF wf] wf_live_brk [OF wf] wf_hd_zero by (auto simp: heap_wf_def less_Suc_eq)
  ultimately have "wf_st ?t" by (simp add: wf_st_def)
  with c show ?thesis
    using i dd room fresh by (simp add: new_hd_def with_assoc_def Let_def)
qed

lemma new_hd_allows:
  assumes wf: "wf_st s"
  shows "allows (new_hd i s) (\<lambda>((po, k), s'). po = Some (brk s) \<and> k = next_free_id s \<and> created s i s' \<and> wf_st s')"
proof (cases "assoc s i")
  case None
  then show ?thesis by (simp add: new_hd_def with_assoc_def)
next
  case (Some d)
  show ?thesis
  proof (cases "next_free_id s = INT_MAX")
    case True
    from wf Some obtain es ps where "dds s d = Some \<lparr>handles = Table es, programs = Table ps\<rparr>"
      by (rule wf_assocE)
    with Some True show ?thesis by (simp add: new_hd_def with_assoc_def)
  next
    case False
    with wf have "next_free_id s < INT_MAX" using wf_ids by fastforce
    from ensures_allows [OF new_hd_spec [OF wf Some this]] show ?thesis .
  qed
qed

section \<open>get_hd and get_pd\<close>

text \<open>A lookup changes no more than the result, and that only when the object is no integer.\<close>

definition handle_of :: "'w st \<Rightarrow> interp \<Rightarrow> int \<Rightarrow> addr option" where
  "handle_of s i k =
     (case assoc s i of None \<Rightarrow> None
      | Some d \<Rightarrow> (case dds s d of None \<Rightarrow> None | Some dd \<Rightarrow> map_of (entries (handles dd)) k))"

definition program_of :: "'w st \<Rightarrow> interp \<Rightarrow> int \<Rightarrow> program_data option" where
  "program_of s i k =
     (case assoc s i of None \<Rightarrow> None
      | Some d \<Rightarrow> (case dds s d of None \<Rightarrow> None | Some dd \<Rightarrow> map_of (entries (programs dd)) k))"

lemma handle_of_owns: "handle_of s i k = Some p \<longleftrightarrow> (\<exists>d. assoc s i = Some d \<and> owns s d k p)"
  by (auto simp: handle_of_def owns_def split: option.splits)

lemma program_of_has: "program_of s i k = Some pd \<longleftrightarrow> (\<exists>d. assoc s i = Some d \<and> has_prog s d k pd)"
  by (auto simp: program_of_def has_prog_def split: option.splits)

text \<open>Two states that agree on a number agree on what it leads to.\<close>

lemma handle_of_eqI:
  "assoc u = assoc s \<Longrightarrow> (\<And>d p. owns u d k p \<longleftrightarrow> owns s d k p) \<Longrightarrow> handle_of u i k = handle_of s i k"
  by (rule option_eqI) (simp add: handle_of_owns)

lemma program_of_eqI:
  "assoc u = assoc s \<Longrightarrow> (\<And>d pd. has_prog u d k pd \<longleftrightarrow> has_prog s d k pd) \<Longrightarrow> program_of u i k = program_of s i k"
  by (rule option_eqI) (simp add: program_of_has)

lemma handle_of_None: "(\<And>d p. \<not> owns s d k p) \<Longrightarrow> handle_of s i k = None"
  by (cases "handle_of s i k") (auto simp: handle_of_owns)

lemma get_hd_int:
  assumes "wf_st s" and "assoc s i \<noteq> None" and "Tcl_GetIntFromObj T ob = Inr k"
  shows "get_hd T i ob s = Done (handle_of s i k, s)"
proof -
  from assms(2) obtain d where d: "assoc s i = Some d" by auto
  with assms(1) obtain es ps where "dds s d = Some \<lparr>handles = Table es, programs = Table ps\<rparr>"
    by (rule wf_assocE)
  with d assms(3) show ?thesis by (simp add: get_hd_def with_assoc_def handle_of_def)
qed

lemma get_hd_no_int:
  "Tcl_GetIntFromObj T ob = Inl msg \<Longrightarrow>
    get_hd T i ob s = Done (None, append_result T i newline (set_result i (StrObj msg) s))"
  by (simp add: get_hd_def)

lemma get_pd_int:
  assumes "wf_st s" and "assoc s i \<noteq> None" and "Tcl_GetIntFromObj T ob = Inr k"
  shows "get_pd T i ob s = Done (program_of s i k, s)"
proof -
  from assms(2) obtain d where d: "assoc s i = Some d" by auto
  with assms(1) obtain es ps where "dds s d = Some \<lparr>handles = Table es, programs = Table ps\<rparr>"
    by (rule wf_assocE)
  with d assms(3) show ?thesis by (simp add: get_pd_def with_assoc_def program_of_def)
qed

lemma get_pd_no_int:
  "Tcl_GetIntFromObj T ob = Inl msg \<Longrightarrow>
    get_pd T i ob s = Done (None, append_result T i newline (set_result i (StrObj msg) s))"
  by (simp add: get_pd_def)

lemma get_hd_allows:
  "allows (get_hd T i ob s) (\<lambda>(po, s'). books s' = books s \<and> (\<forall>p. po = Some p \<longrightarrow>
     s' = s \<and> (\<exists>k. Tcl_GetIntFromObj T ob = Inr k \<and> handle_of s i k = Some p)))"
  by (auto simp: get_hd_def with_assoc_def no_data_def handle_of_def split: sum.splits option.splits
      intro!: allows_with_table)

lemma get_pd_allows:
  "allows (get_pd T i ob s) (\<lambda>(po, s'). books s' = books s \<and> (\<forall>pd. po = Some pd \<longrightarrow>
     s' = s \<and> (\<exists>k. Tcl_GetIntFromObj T ob = Inr k \<and> program_of s i k = Some pd)))"
  by (auto simp: get_pd_def with_assoc_def no_data_def program_of_def split: sum.splits option.splits
      intro!: allows_with_table)

lemma get_hd_total:
  assumes "wf_st s" and "assoc s i \<noteq> None"
  shows "ensures (get_hd T i ob s) (\<lambda>(po, s'). books s' = books s \<and> (\<forall>p. po = Some p \<longrightarrow>
     s' = s \<and> (\<exists>k. Tcl_GetIntFromObj T ob = Inr k \<and> handle_of s i k = Some p)))"
  using get_hd_allows [of T i ob s] get_hd_int [OF assms, of T ob] get_hd_no_int [of T ob _ i s]
  by (cases "Tcl_GetIntFromObj T ob") auto

lemma get_pd_total:
  assumes "wf_st s" and "assoc s i \<noteq> None"
  shows "ensures (get_pd T i ob s) (\<lambda>(po, s'). books s' = books s \<and> (\<forall>pd. po = Some pd \<longrightarrow>
     s' = s \<and> (\<exists>k. Tcl_GetIntFromObj T ob = Inr k \<and> program_of s i k = Some pd)))"
  using get_pd_allows [of T i ob s] get_pd_int [OF assms, of T ob] get_pd_no_int [of T ob _ i s]
  by (cases "Tcl_GetIntFromObj T ob") auto

section \<open>del_hd\<close>

definition removed :: "'w st \<Rightarrow> addr \<Rightarrow> int \<Rightarrow> addr \<Rightarrow> 'w st \<Rightarrow> bool" where
  "removed s d k p s' \<longleftrightarrow>
     (\<forall>d' k' p'. owns s' d' k' p' \<longleftrightarrow> owns s d' k' p' \<and> k' \<noteq> k) \<and>
     (\<forall>d' k' pd. has_prog s' d' k' pd \<longleftrightarrow> has_prog s d' k' pd \<and> d' \<noteq> d) \<and>
     hds s' = (hds s)(p := None) \<and> next_free_id s' = next_free_id s \<and>
     next_free_pid s' = next_free_pid s \<and> brk s' = brk s \<and> assoc s' = assoc s \<and>
     world s' = world s \<and> refs s' = refs s \<and> result s' = result s \<and> error_code s' = error_code s"

lemma del_hd_spec:
  assumes wf: "wf_st s" and i: "assoc s i = Some d" and k: "Tcl_GetIntFromObj T ob = Inr k"
    and own: "owns s d k p"
  shows "ensures (del_hd T i ob s) (\<lambda>s'. removed s d k p s' \<and> wf_st s')"
proof -
  from wf i obtain es ps where dd: "dds s d = Some \<lparr>handles = Table es, programs = Table ps\<rparr>"
    and es: "tab_wf es" and ps: "tab_wf ps"
    by (rule wf_assocE)
  from wf own obtain H where H: "hds s p = Some H" using wf_owns_live by blast
  from own dd have find: "map_of es k = Some p" by (simp add: owns_def)
  let ?dd = "\<lparr>handles = Table (AList.delete k es), programs = Table []\<rparr>"
  let ?t = "put_dd d ?dd (s\<lparr>hds := (hds s)(p := None)\<rparr>)"
  have only: "owns s d' k p' \<Longrightarrow> d' = d" for d' p'
    using wf_owns_unique [OF wf own] by blast
  have o: "owns ?t d' k' p' \<longleftrightarrow> owns s d' k' p' \<and> k' \<noteq> k" for d' k' p'
    using dd only by (auto simp: owns_def map_of_delete_eq)
  have q: "has_prog ?t d' k' pd \<longleftrightarrow> has_prog s d' k' pd \<and> d' \<noteq> d" for d' k' pd
    by (auto simp: has_prog_def)
  have other: "p' \<noteq> p" if "owns s d' k' p'" "k' \<noteq> k" for d' k' p'
    using wf_owns_unique [OF wf own that(1)] that(2) by blast
  have "ids_wf ?t"
    using wf_ids [OF wf]
    by (auto simp: ids_wf_def o q dest: wf_owns_range [OF wf] wf_prog_range [OF wf])
  moreover have "owners_wf ?t"
  proof (unfold owners_wf_def o, intro conjI allI impI)
    fix d' k' p'
    assume "owns s d' k' p' \<and> k' \<noteq> k"
    then show "hds ?t p' \<noteq> None" using wf_owns_live [OF wf] other by fastforce
  next
    fix p'
    assume "hds ?t p' \<noteq> None"
    then obtain d' k' where "owns s d' k' p'" "p' \<noteq> p"
      using wf_live_owned [OF wf] by (fastforce split: if_splits)
    then show "\<exists>d' k'. owns s d' k' p' \<and> k' \<noteq> k"
      using wf_owns_unique [OF wf own] by blast
  next
    fix d1 k1 p1 d2 k2 p2
    assume "owns s d1 k1 p1 \<and> k1 \<noteq> k" and "owns s d2 k2 p2 \<and> k2 \<noteq> k" and "k1 = k2 \<or> p1 = p2"
    then show "d1 = d2" "k1 = k2" "p1 = p2"
      using wf_owns_unique [OF wf, of d1 k1 p1 d2 k2 p2] by blast+
  qed
  moreover have "progs_wf ?t"
    unfolding progs_wf_def q o using wf_prog_owner [OF wf] wf_prog_unique [OF wf] only by blast
  moreover have "tables_wf ?t"
    by (rule tables_wf_put_dd [OF wf dd, where es = "AList.delete k es" and ps = "[]"])
      (use tab.invar_remove [OF es] tab.invar_empty in simp_all)
  moreover have "heap_wf ?t"
    using wf_live_hd [OF wf] wf_live_brk [OF wf] by (auto simp: heap_wf_def)
  ultimately have "wf_st ?t" by (simp add: wf_st_def)
  moreover have "removed s d k p ?t"
    using o q by (simp add: removed_def)
  ultimately show ?thesis
    using i dd find H k by (simp add: del_hd_def with_assoc_def)
qed

lemma del_hd_allows:
  assumes wf: "wf_st s"
  shows "allows (del_hd T i ob s) (\<lambda>s'. wf_st s' \<and>
    (\<exists>d k p. assoc s i = Some d \<and> Tcl_GetIntFromObj T ob = Inr k \<and> owns s d k p \<and> removed s d k p s'))"
proof (cases "Tcl_GetIntFromObj T ob")
  case (Inl msg)
  then show ?thesis by (simp add: del_hd_def)
next
  case k: (Inr k)
  show ?thesis
  proof (cases "assoc s i")
    case None
    with k show ?thesis by (simp add: del_hd_def with_assoc_def no_data_def)
  next
    case d: (Some d)
    with wf obtain es ps where dd: "dds s d = Some \<lparr>handles = Table es, programs = Table ps\<rparr>"
      by (rule wf_assocE)
    show ?thesis
    proof (cases "map_of es k")
      case None
      with d dd k show ?thesis by (simp add: del_hd_def with_assoc_def)
    next
      case (Some p)
      with dd have "owns s d k p" by (simp add: owns_def)
      from ensures_allows [OF del_hd_spec [OF wf d k this]] this d k show ?thesis by (auto elim!: allows_mono)
    qed
  qed
qed

section \<open>register_pd\<close>

definition registered :: "'w st \<Rightarrow> interp \<Rightarrow> addr \<Rightarrow> dtrace_prog \<Rightarrow> 'w st \<Rightarrow> bool" where
  "registered s i p prog s' \<longleftrightarrow>
     owns s' = owns s \<and>
     (\<exists>d. assoc s i = Some d \<and>
        (\<forall>d' k pd. has_prog s' d' k pd \<longleftrightarrow>
           (d' = d \<and> k = next_free_pid s \<and> pd = \<lparr>compiled = prog, pd_hd = p\<rparr>) \<or> has_prog s d' k pd)) \<and>
     hds s' = hds s \<and> next_free_id s' = next_free_id s \<and> next_free_pid s' = next_free_pid s + 1 \<and>
     brk s' = brk s \<and> assoc s' = assoc s \<and> world s' = world s \<and> refs s' = refs s"

lemma register_pd_spec:
  assumes wf: "wf_st s" and i: "assoc s i = Some d" and own: "owns s d k p"
    and room: "next_free_pid s < INT_MAX"
  shows "ensures (register_pd i p prog s)
    (\<lambda>(ob, s'). ob = IntObj (next_free_pid s) \<and> registered s i p prog s' \<and> wf_st s')"
proof -
  from wf i obtain es ps where dd: "dds s d = Some \<lparr>handles = Table es, programs = Table ps\<rparr>"
    and es: "tab_wf es" and ps: "tab_wf ps"
    by (rule wf_assocE)
  let ?pd = "\<lparr>compiled = prog, pd_hd = p\<rparr>" and ?id = "next_free_pid s"
  let ?dd = "\<lparr>handles = Table es, programs = Table (tab_create ?id ?pd ps)\<rparr>"
  let ?t = "put_dd d ?dd (s\<lparr>next_free_pid := ?id + 1\<rparr>)"
  have fresh: "map_of ps ?id = None"
    using wf_fresh_pid [OF wf, of d] dd by (auto simp: has_prog_def)
  have o: "owns ?t d' k' p' = owns s d' k' p'" for d' k' p'
    using dd by (auto simp: owns_def)
  have q: "has_prog ?t d' k' pd \<longleftrightarrow> (d' = d \<and> k' = ?id \<and> pd = ?pd) \<or> has_prog s d' k' pd" for d' k' pd
    using fresh dd by (auto simp: has_prog_def tab.find_create ps)
  have "ids_wf ?t"
    unfolding ids_wf_def o q using wf_ids [OF wf] wf_owns_range [OF wf] wf_prog_range [OF wf] room
    by fastforce
  moreover have "owners_wf ?t"
    using wf unfolding wf_st_def owners_wf_def o by simp
  moreover have "progs_wf ?t"
    unfolding progs_wf_def q o
    using wf_prog_owner [OF wf] wf_prog_unique [OF wf] wf_fresh_pid [OF wf] own by fastforce
  moreover have "tables_wf ?t"
    by (rule tables_wf_put_dd [OF wf dd]) (use tab.invar_create [OF ps fresh] es in simp_all)
  moreover have "heap_wf ?t"
    using wf_live_hd [OF wf] wf_live_brk [OF wf] by (auto simp: heap_wf_def)
  ultimately have "wf_st ?t" by (simp add: wf_st_def)
  moreover have "registered s i p prog ?t"
    using o q i by (auto simp: registered_def fun_eq_iff)
  ultimately show ?thesis
    using i dd room fresh by (simp add: register_pd_def with_assoc_def Let_def)
qed

lemma register_pd_allows:
  assumes wf: "wf_st s" and own: "\<And>d. assoc s i = Some d \<Longrightarrow> \<exists>k. owns s d k p"
  shows "allows (register_pd i p prog s)
    (\<lambda>(ob, s'). ob = IntObj (next_free_pid s) \<and> registered s i p prog s' \<and> wf_st s')"
proof (cases "assoc s i")
  case None
  then show ?thesis by (simp add: register_pd_def with_assoc_def no_data_def)
next
  case d: (Some d)
  with own obtain k where k: "owns s d k p" by blast
  show ?thesis
  proof (cases "next_free_pid s = INT_MAX")
    case True
    from wf d obtain es ps where "dds s d = Some \<lparr>handles = Table es, programs = Table ps\<rparr>"
      by (rule wf_assocE)
    with d True show ?thesis by (simp add: register_pd_def with_assoc_def)
  next
    case False
    then have "next_free_pid s < INT_MAX" using wf_ids [OF wf] by simp
    from ensures_allows [OF register_pd_spec [OF wf d k this]] show ?thesis .
  qed
qed

end
