(* ===== verification/Invariance.thy ===== *)
theory Invariance
  imports Registry_Inv
begin

text \<open>
  What stays true while commands run. \<open>steady\<close> is the invariant of the whole extension between
  two commands: the tables are well-formed, every structure on the heap is an open handle, and
  no number that was given out before comes back to life. The commands in between \<^verbatim>\<open>Open\<close>
  and \<^verbatim>\<open>Close\<close> are proved once for any property with the closure conditions of the locale
  \<open>counted\<close>, and the callbacks for those of \<open>conserved\<close>, which does not depend on reference
  counts, or \<open>settled\<close>, which does not depend on the world of libdtrace either.
\<close>

section \<open>Open handles\<close>

definition ready :: "addr \<Rightarrow> 'w st \<Rightarrow> bool" where
  "ready p s \<longleftrightarrow> (\<exists>H h i. hds s p = Some H \<and> hdl H = Some h \<and> hd_interp H = Some i)"

definition all_ready :: "'w st \<Rightarrow> bool" where
  "all_ready s \<longleftrightarrow> (\<forall>p H. hds s p = Some H \<longrightarrow> hdl H \<noteq> None \<and> hd_interp H \<noteq> None)"

lemma ready_core: "core s' = core s \<Longrightarrow> ready p s' = ready p s"
  by (simp add: ready_def core_def)

lemma all_ready_core: "core s' = core s \<Longrightarrow> all_ready s' = all_ready s"
  by (simp add: all_ready_def core_def)

lemma all_readyD: "all_ready s \<Longrightarrow> hds s p = Some H \<Longrightarrow> ready p s"
  by (auto simp: all_ready_def ready_def)

section \<open>Numbers are never used again\<close>

text \<open>
  \<open>later s t\<close>: of the numbers below the counters of \<open>s\<close>, \<open>t\<close> knows only those that \<open>s\<close> knows,
  with the same structure behind them.
\<close>

definition later :: "'w st \<Rightarrow> 'w st \<Rightarrow> bool" where
  "later s t \<longleftrightarrow>
     next_free_id s \<le> next_free_id t \<and> next_free_pid s \<le> next_free_pid t \<and>
     (\<forall>d k p. owns t d k p \<longrightarrow> k < next_free_id s \<longrightarrow> owns s d k p) \<and>
     (\<forall>d k pd. has_prog t d k pd \<longrightarrow> k < next_free_pid s \<longrightarrow> has_prog s d k pd)"

lemma later_refl [simp]: "later s s"
  by (simp add: later_def)

lemma later_trans: "later s t \<Longrightarrow> later t u \<Longrightarrow> later s u"
  unfolding later_def by (meson less_le_trans order_trans)

lemma later_core: "core t' = core t \<Longrightarrow> later s t' = later s t"
  by (simp add: later_def core_eqD [of t' t] owns_core [of t' t] has_prog_core [of t' t])

lemma later_registered: "registered s i p prog t \<Longrightarrow> later s t"
  by (auto simp: later_def registered_def)

lemma later_put_hd [simp]: "later s (put_hd p H t) = later s t"
proof -
  have "owns (put_hd p H t) = owns t" "has_prog (put_hd p H t) = has_prog t"
    by (simp_all add: fun_eq_iff owns_def has_prog_def)
  then show ?thesis by (simp add: later_def) (simp add: put_hd_def)
qed

definition steady :: "'w st \<Rightarrow> 'w st \<Rightarrow> bool" where
  "steady s0 s \<longleftrightarrow> wf_st s \<and> all_ready s \<and> later s0 s"

lemma steady_refl: "wf_st s \<Longrightarrow> all_ready s \<Longrightarrow> steady s s"
  by (simp add: steady_def)

lemma steady_wf: "steady s0 s \<Longrightarrow> wf_st s"
  by (simp add: steady_def)

lemma steady_trans: "steady s t \<Longrightarrow> steady t u \<Longrightarrow> steady s u"
  using later_trans by (auto simp: steady_def)

lemma steady_later: "steady s0 s \<Longrightarrow> later s t \<Longrightarrow> wf_st t \<Longrightarrow> all_ready t \<Longrightarrow> steady s0 t"
  using later_trans by (auto simp: steady_def)

lemma steady_core: "core t = core s \<Longrightarrow> steady s0 t = steady s0 s"
  by (simp add: steady_def wf_core [of t s] all_ready_core [of t s] later_core [of t s])

section \<open>What libdtrace does to the world\<close>

text \<open>The calls that run no callbacks, opening and closing apart.\<close>

inductive plain_call :: "'w libdtrace \<Rightarrow> 'w \<Rightarrow> 'w \<Rightarrow> bool" for L :: "'w libdtrace" where
  "dtrace_getopt L h opname v = (x, w) \<Longrightarrow> plain_call L v w"
| "dtrace_setopt L h opname val v = (rc, w) \<Longrightarrow> plain_call L v w"
| "dtrace_handle_err L h p v = (rc, w) \<Longrightarrow> plain_call L v w"
| "dtrace_handle_drop L h p v = (rc, w) \<Longrightarrow> plain_call L v w"
| "dtrace_handle_proc L h p v = (rc, w) \<Longrightarrow> plain_call L v w"
| "dtrace_handle_buffered L h p v = (rc, w) \<Longrightarrow> plain_call L v w"
| "dtrace_program_strcompile L h src argv v = (prog, w) \<Longrightarrow> plain_call L v w"
| "dtrace_program_exec L h pr v = (info, w) \<Longrightarrow> plain_call L v w"
| "dtrace_program_info L h pr v = (nfo, w) \<Longrightarrow> plain_call L v w"
| "dtrace_go L h v = (rc, w) \<Longrightarrow> plain_call L v w"
| "dtrace_stop L h v = (rc, w) \<Longrightarrow> plain_call L v w"
| "dtrace_proc_grab L h pid v = (proc, w) \<Longrightarrow> plain_call L v w"
| "dtrace_proc_create L h file argv v = (proc, w) \<Longrightarrow> plain_call L v w"
| plain_continue: "plain_call L v (dtrace_proc_continue L h pr v)"

text \<open>All of libdtrace but opening and closing stays within a relation on worlds.\<close>

definition calls_within :: "'w libdtrace \<Rightarrow> ('w \<Rightarrow> 'w \<Rightarrow> bool) \<Rightarrow> bool" where
  "calls_within L moves \<longleftrightarrow> (\<forall>v w. plain_call L v w \<longrightarrow> moves v w) \<and>
     (\<forall>h w. within moves (dtrace_sleep L h w) w \<and> within moves (dtrace_work L h w) w \<and>
        within moves (dtrace_aggregate_print L h w) w) \<and>
     (\<forall>h pr w. within moves (dtrace_stmt_iter L h pr w) w) \<and>
     (\<forall>h d w. within moves (dtrace_probe_iter L h d w) w)"

lemma calls_within_any [simp]: "calls_within L (\<lambda>_ _. True)"
  by (simp add: calls_within_def)

section \<open>Properties that the operations between commands keep\<close>

text \<open>
  \<open>counted\<close> asks for the least: a property of the tables, the heap, the references held and the
  world, that survives what libdtrace does to the world (\<open>moves\<close>), changes of a handle other than
  in its callbacks, the registration of a callback together with the references taken to it, and
  the registration of a program. \<open>here\<close> are the interpreters in which things happen, \<open>home\<close> the
  structures that may change: those behind the numbers of such an interpreter are among them.
\<close>

locale counted =
  fixes L :: "'w libdtrace" and moves :: "'w \<Rightarrow> 'w \<Rightarrow> bool"
    and P :: "'w st \<Rightarrow> bool" and here :: "interp \<Rightarrow> bool" and home :: "addr \<Rightarrow> bool"
  assumes counted_calls: "calls_within L moves"
    and counted_wf: "P s \<Longrightarrow> wf_st s"
    and counted_books: "books s' = books s \<Longrightarrow> P s' = P s"
    and counted_world: "P s \<Longrightarrow> moves (world s) w \<Longrightarrow> P (put_world w s)"
    and counted_home: "P s \<Longrightarrow> here i \<Longrightarrow> assoc s i = Some d \<Longrightarrow> owns s d k p \<Longrightarrow> home p"
    and counted_put: "P s \<Longrightarrow> home p \<Longrightarrow> hds s p = Some H \<Longrightarrow> wf_hd H' \<Longrightarrow> hdl H' = hdl H \<Longrightarrow>
      hd_interp H' = hd_interp H \<Longrightarrow> cb_procs H' = cb_procs H \<Longrightarrow> cb_args H' = cb_args H \<Longrightarrow> P (put_hd p H' s)"
    and counted_slot: "P s \<Longrightarrow> home p \<Longrightarrow> hds s p = Some H \<Longrightarrow> n < CALLBACKS_COUNT \<Longrightarrow>
      P (incr_refs [proc, arg] (put_hd p (H\<lparr>cb_procs := (cb_procs H)[n := Some proc], cb_args := (cb_args H)[n := Some arg]\<rparr>) s))"
    and counted_register: "P s \<Longrightarrow> here i \<Longrightarrow> registered s i p prog t \<Longrightarrow> wf_st t \<Longrightarrow> P t"
begin

lemma counted_booksI: "P s \<Longrightarrow> books s' = books s \<Longrightarrow> P s'"
  using counted_books by blast

lemma counted_call: "plain_call L (world s) w \<Longrightarrow> P s \<Longrightarrow> P (put_world w s)"
  using counted_calls by (auto simp: calls_within_def intro: counted_world)

lemmas counted_plain = plain_call.intros [THEN counted_call]

lemma counted_calls_chain: "rtranclp (plain_call L) (world s) w \<Longrightarrow> P s \<Longrightarrow> P (put_world w s)"
proof (induction rule: rtranclp_induct)
  case base
  then show ?case by simp
next
  case (step v w)
  from counted_call [of "put_world v s" w] step show ?case by simp
qed

lemma counted_ops [simp]:
  "P (set_result i ob s) = P s" "P (append_result T i msg s) = P s"
  "P (set_error_code i codes s) = P s" "P (background_error i info s) = P s"
  "P (snd (fail T i msg codes s)) = P s" "P (snd (objcFail T i objv msg s)) = P s"
  "P (snd (badHandle T i objv s)) = P s"
  by (rule counted_books, simp)+

lemma counted_fail [simp]:
  "(case fail T i msg codes s of (rc, t) \<Rightarrow> P t) = P s"
  "(case objcFail T i objv msg' s of (rc, t) \<Rightarrow> P t) = P s"
  "(case badHandle T i objv s of (rc, t) \<Rightarrow> P t) = P s"
  by (simp_all add: case_prod_beta)

lemma libError_P:
  assumes "P s"
  shows "allows (libError L T i objv p s) (\<lambda>(rc, t). P t)"
  by (rule allows_mono [OF libError_books]) (auto intro: counted_booksI [OF assms])

lemma register_pd_P:
  assumes "P s" and "\<And>d. assoc s i = Some d \<Longrightarrow> \<exists>k. owns s d k p" and "here i"
  shows "allows (register_pd i p prog s) (\<lambda>(ob, t). P t)"
  by (rule allows_mono [OF register_pd_allows [OF counted_wf [OF assms(1)] assms(2)]])
    (auto intro: counted_register [OF assms(1,3)])

end

text \<open>
  \<open>conserved\<close> is a property that does not look at references or callbacks at all; callbacks of the
  structures that may change run in the interpreters in which things happen.
\<close>

locale conserved =
  fixes L :: "'w libdtrace" and moves :: "'w \<Rightarrow> 'w \<Rightarrow> bool"
    and P :: "'w st \<Rightarrow> bool" and here :: "interp \<Rightarrow> bool" and home :: "addr \<Rightarrow> bool"
  assumes conserved_calls: "calls_within L moves"
    and conserved_wf: "P s \<Longrightarrow> wf_st s"
    and conserved_core: "core s' = core s \<Longrightarrow> world s' = world s \<Longrightarrow> P s' = P s"
    and conserved_world: "P s \<Longrightarrow> moves (world s) w \<Longrightarrow> P (put_world w s)"
    and conserved_home: "P s \<Longrightarrow> here i \<Longrightarrow> assoc s i = Some d \<Longrightarrow> owns s d k p \<Longrightarrow> home p"
    and conserved_here: "P s \<Longrightarrow> home p \<Longrightarrow> hds s p = Some H \<Longrightarrow> hd_interp H = Some i \<Longrightarrow> here i"
    and conserved_put: "P s \<Longrightarrow> home p \<Longrightarrow> hds s p = Some H \<Longrightarrow> wf_hd H' \<Longrightarrow> hdl H' = hdl H \<Longrightarrow>
      hd_interp H' = hd_interp H \<Longrightarrow> P (put_hd p H' s)"
    and conserved_register: "P s \<Longrightarrow> here i \<Longrightarrow> registered s i p prog t \<Longrightarrow> wf_st t \<Longrightarrow> P t"
begin

lemma conserved_refs [simp]: "P (incr_refs obs s) = P s" "P (decr_refs obs s) = P s"
  by (rule conserved_core; simp)+

end

text \<open>\<open>settled\<close> is such a property that does not look at the world either: any libdtrace will do.\<close>

abbreviation any_world :: "'w \<Rightarrow> 'w \<Rightarrow> bool" where
  "any_world \<equiv> (\<lambda>_ _. True)"

locale settled =
  fixes P :: "'w st \<Rightarrow> bool" and here :: "interp \<Rightarrow> bool" and home :: "addr \<Rightarrow> bool"
  assumes settled_wf: "P s \<Longrightarrow> wf_st s"
    and settled_core: "core s' = core s \<Longrightarrow> P s' = P s"
    and settled_home: "P s \<Longrightarrow> here i \<Longrightarrow> assoc s i = Some d \<Longrightarrow> owns s d k p \<Longrightarrow> home p"
    and settled_here: "P s \<Longrightarrow> home p \<Longrightarrow> hds s p = Some H \<Longrightarrow> hd_interp H = Some i \<Longrightarrow> here i"
    and settled_put: "P s \<Longrightarrow> home p \<Longrightarrow> hds s p = Some H \<Longrightarrow> wf_hd H' \<Longrightarrow> hdl H' = hdl H \<Longrightarrow>
      hd_interp H' = hd_interp H \<Longrightarrow> P (put_hd p H' s)"
    and settled_register: "P s \<Longrightarrow> here i \<Longrightarrow> registered s i p prog t \<Longrightarrow> wf_st t \<Longrightarrow> P t"
begin

lemma settled_coreI: "P s \<Longrightarrow> core s' = core s \<Longrightarrow> P s'"
  using settled_core by blast

lemma settled_ops [simp]: "P (put_world w s) = P s"
  by (rule settled_core) simp

end

lemma wf_hd_slot:
  assumes "wf_hd H"
  shows "wf_hd (H\<lparr>cb_procs := (cb_procs H)[n := Some proc], cb_args := (cb_args H)[n := Some arg]\<rparr>)" (is "wf_hd ?H")
proof -
  have "vec_wf ?H = vec_wf H"
    by (simp add: vec_wf_def cells_of_def)
  moreover have "slots_wf ?H"
    using assms nth_list_update [of n "cb_procs H"] nth_list_update [of n "cb_args H"]
    by (cases "n < CALLBACKS_COUNT") (simp_all add: wf_hd_def slots_wf_def)
  ultimately show ?thesis using assms by (simp add: wf_hd_def)
qed

sublocale conserved \<subseteq> counted L moves P here home
proof unfold_locales
  fix s p H n proc arg
  assume "P s" and "home p" and H: "hds s p = Some H"
  from conserved_put [OF this wf_hd_slot [OF wf_live_hd [OF conserved_wf [OF \<open>P s\<close>] H]]]
  show "P (incr_refs [proc, arg] (put_hd p (H\<lparr>cb_procs := (cb_procs H)[n := Some proc], cb_args := (cb_args H)[n := Some arg]\<rparr>) s))"
    by simp
next
  fix s s' :: "'w st"
  assume "books s' = books s"
  then show "P s' = P s" by (intro conserved_core) (simp_all add: books_iff ledger_iff)
qed (fact conserved_calls conserved_wf conserved_world conserved_home | rule conserved_put conserved_register; assumption)+

sublocale settled \<subseteq> conserved L any_world P here home for L
proof unfold_locales
  fix s s' :: "'w st"
  assume "core s' = core s"
  then show "P s' = P s" by (rule settled_core)
qed (rule calls_within_any, erule settled_wf, simp, (erule settled_home settled_here settled_put settled_register; assumption)+)

text \<open>Most properties are of all interpreters alike.\<close>

abbreviation everywhere :: "'a \<Rightarrow> bool" where
  "everywhere \<equiv> (\<lambda>_. True)"

interpretation wf: settled "wf_st :: 'w st \<Rightarrow> bool" everywhere everywhere
proof unfold_locales
  fix s s' :: "'w st"
  assume "core s' = core s"
  then show "wf_st s' = wf_st s" by (rule wf_core)
qed (auto intro: wf_put_hd)

interpretation steady: settled "steady s0 :: 'w st \<Rightarrow> bool" everywhere everywhere for s0
proof unfold_locales
  fix s s' :: "'w st" and p H H'
  show "steady s0 s \<Longrightarrow> wf_st s" by (rule steady_wf)
  show "core s' = core s \<Longrightarrow> steady s0 s' = steady s0 s" by (rule steady_core)
  assume "steady s0 s" "hds s p = Some H" "wf_hd H'" "hdl H' = hdl H" "hd_interp H' = hd_interp H"
  then show "steady s0 (put_hd p H' s)"
    using wf_put_hd [of s p H H'] by (auto simp: steady_def all_ready_def)
next
  fix s t :: "'w st" and i p prog
  assume s: "steady s0 s" and reg: "registered s i p prog t" and "wf_st t"
  from s reg have "all_ready t" by (simp add: steady_def all_ready_def registered_def)
  with s \<open>wf_st t\<close> show "steady s0 t" by (intro steady_later [OF s later_registered [OF reg]])
qed

end
