(* ===== verification/Options.thy ===== *)
theory Options
  imports Invariance
begin

text \<open>
  Reading and setting one option (\<^verbatim>\<open>get_option\<close>, \<^verbatim>\<open>set_option\<close> of \<^verbatim>\<open>generic/dtrace.c\<close>):
  \<^verbatim>\<open>-foldpdesc\<close> belongs to the extension, every other name goes to libdtrace without its
  first character.
\<close>

section \<open>The operations\<close>

text \<open>
  The value is printed into a static buffer of 12 bytes. \<^verbatim>\<open>option+1\<close> of the empty string
  points past its terminating NUL.
\<close>

definition get_option :: "'w libdtrace \<Rightarrow> addr \<Rightarrow> string \<Rightarrow> 'w st \<Rightarrow> (string option \<times> 'w st) exec" where
  "get_option L p opname s =
     with_hd p s (\<lambda>H.
       if internal_option opname then Done (Some (snprintf 12 (dec_int (foldpdesc H))), s)
       else if opname = [] then Fault ''read past the end of the option name''
       else
         with_handle p s (\<lambda>h.
           case dtrace_getopt L h (tl opname) (world s) of
             (None, w) \<Rightarrow> Done (None, put_world w s)
           | (Some optval, w) \<Rightarrow>
               Done (Some (snprintf 12 (dec_int (if optval = DTRACEOPT_UNSET L then 0 else optval))),
                     put_world w s)))"

definition set_option :: "'w libdtrace \<Rightarrow> addr \<Rightarrow> string \<Rightarrow> string \<Rightarrow> 'w st \<Rightarrow> (int \<times> 'w st) exec" where
  "set_option L p opname val s =
     with_hd p s (\<lambda>H.
       if internal_option opname then
         Done (1, put_hd p (H\<lparr>foldpdesc := (if val = ''0'' then 0 else 1)\<rparr>) s)
       else if opname = [] then Fault ''read past the end of the option name''
       else
         with_handle p s (\<lambda>h.
           case dtrace_setopt L h (tl opname) val (world s) of
             (rc, w) \<Rightarrow> Done (if rc \<noteq> 0 then 0 else 1, put_world w s)))"

text \<open>
  The loop over the option-value pairs that \<^verbatim>\<open>::dtrace::open\<close> and \<^verbatim>\<open>::dtrace::configure\<close>
  share: it stops at the first option that is refused and says which.
\<close>

fun set_options :: "'w libdtrace \<Rightarrow> addr \<Rightarrow> (string \<times> string) list \<Rightarrow> 'w st \<Rightarrow> (string option \<times> 'w st) exec" where
  "set_options L p [] s = Done (None, s)"
| "set_options L p ((opname, val) # rest) s =
     seq (set_option L p opname val s) (\<lambda>(ok, s1).
       if ok = 0 then Done (Some opname, s1) else set_options L p rest s1)"

text \<open>The loop over the basic options of \<^verbatim>\<open>::dtrace::configure\<close>.\<close>

fun get_options :: "'w libdtrace \<Rightarrow> addr \<Rightarrow> string list \<Rightarrow> 'w st \<Rightarrow> (tcl_obj list option \<times> 'w st) exec" where
  "get_options L p [] s = Done (Some [], s)"
| "get_options L p (opname # rest) s =
     seq (get_option L p opname s) (\<lambda>(val, s1).
       case val of
         None \<Rightarrow> Done (None, s1)
       | Some v \<Rightarrow>
           seq (get_options L p rest s1) (\<lambda>(vals, s2).
             Done (case vals of None \<Rightarrow> None | Some vs \<Rightarrow> Some (StrObj opname # StrObj v # vs), s2)))"

section \<open>What they keep\<close>

lemma wf_hd_foldpdesc [simp]: "wf_hd (H\<lparr>foldpdesc := n\<rparr>) = wf_hd H"
  by (simp add: wf_hd_def vec_wf_def slots_wf_def cells_of_def)

text \<open>
  \<open>folded p n s\<close> is the state with that flag written: all a \<open>set_option\<close> changes but the world.
\<close>

definition folded :: "addr \<Rightarrow> int \<Rightarrow> 'w st \<Rightarrow> 'w st" where
  "folded p n s = (case hds s p of None \<Rightarrow> s | Some H \<Rightarrow> put_hd p (H\<lparr>foldpdesc := n\<rparr>) s)"

lemma get_option_allows: "allows (get_option L p opname s) (\<lambda>(r, s'). only_world s s')"
  by (auto simp: get_option_def intro!: allows_with_hd allows_with_handle split: prod.splits option.splits)

text \<open>The part of the state that an option of the handle at \<open>p\<close> never touches.\<close>

definition same_but_option :: "addr \<Rightarrow> 'w st \<Rightarrow> 'w st \<Rightarrow> bool" where
  "same_but_option p s s' \<longleftrightarrow> dds s' = dds s \<and> assoc s' = assoc s \<and> next_free_id s' = next_free_id s \<and>
     next_free_pid s' = next_free_pid s \<and> brk s' = brk s \<and> result s' = result s \<and>
     error_code s' = error_code s \<and> refs s' = refs s \<and>
     (\<exists>n. hds s' = (hds s)(p := map_option (\<lambda>H. H\<lparr>foldpdesc := n\<rparr>) (hds s p)))"

lemma same_but_option_refl: "same_but_option p s s"
proof -
  have "\<exists>n. hds s = (hds s)(p := map_option (\<lambda>H. H\<lparr>foldpdesc := n\<rparr>) (hds s p))"
  proof (cases "hds s p")
    case None
    then show ?thesis by (simp add: fun_upd_idem)
  next
    case (Some H)
    then show ?thesis by (intro exI [of _ "foldpdesc H"]) (simp add: fun_upd_idem)
  qed
  then show ?thesis by (simp add: same_but_option_def)
qed

lemma same_but_option_trans: "same_but_option p s t \<Longrightarrow> same_but_option p t u \<Longrightarrow> same_but_option p s u"
  by (auto simp: same_but_option_def option.map_comp o_def)

lemma same_but_option_world: "same_but_option p s (put_world w s)"
  using same_but_option_refl [of p s] by (simp add: same_but_option_def put_world_def)

lemma same_but_option_folded: "same_but_option p s (folded p n s)"
  by (cases "hds s p") (auto simp: same_but_option_def folded_def put_hd_def fun_upd_idem)

lemma set_option_allows:
  assumes "wf_st s"
  shows "allows (set_option L p opname val s) (\<lambda>(ok, s'). wf_st s' \<and> same_but_option p s s')"
proof -
  have "wf_st (put_hd p (H\<lparr>foldpdesc := n\<rparr>) s)" "same_but_option p s (put_hd p (H\<lparr>foldpdesc := n\<rparr>) s)"
    if "hds s p = Some H" for H n
    using wf_put_hd [OF assms that] wf_live_hd [OF assms that] same_but_option_folded [of p s n] that
    by (simp_all add: folded_def)
  then show ?thesis
    using assms by (auto simp: set_option_def same_but_option_world intro!: allows_with_hd allows_with_handle
        split: prod.splits)
qed

lemma set_options_allows:
  assumes "wf_st s"
  shows "allows (set_options L p opts s) (\<lambda>(bad, s'). wf_st s' \<and> same_but_option p s s')"
  using assms
proof (induction opts arbitrary: s)
  case Nil
  then show ?case by (simp add: same_but_option_refl)
next
  case (Cons ov rest)
  obtain opname val where ov: "ov = (opname, val)" by force
  have "allows (set_options L p rest s1) (\<lambda>(bad, s'). wf_st s' \<and> same_but_option p s s')"
    if "wf_st s1" "same_but_option p s s1" for s1
    by (rule allows_mono [OF Cons.IH [OF that(1)]]) (use that(2) same_but_option_trans in blast)
  then show ?case
    unfolding ov by (auto intro!: allows_mono [OF set_option_allows [OF Cons.prems]])
qed

lemma get_options_allows: "allows (get_options L p opts s) (\<lambda>(vals, s'). only_world s s')"
proof (induction opts arbitrary: s)
  case Nil
  then show ?case by simp
next
  case (Cons opname rest)
  show ?case
    by (auto intro!: allows_mono [OF get_option_allows] allows_mono [OF Cons.IH] split: option.splits)
      (blast intro: only_world_trans)
qed

text \<open>What the locale \<open>counted\<close> describes survives them.\<close>

context counted begin

lemma set_option_P:
  assumes "P s" and "home p"
  shows "allows (set_option L p opname val s) (\<lambda>(ok, t). P t)"
proof -
  have "P (put_hd p (H\<lparr>foldpdesc := n\<rparr>) s)" if "hds s p = Some H" for H n
    using counted_put [OF assms that] wf_live_hd [OF counted_wf [OF assms(1)] that] by simp
  then show ?thesis
    using assms by (auto simp: set_option_def intro!: allows_with_hd allows_with_handle
        split: prod.splits) (auto intro: counted_plain)
qed

lemma set_options_P:
  assumes "P s" and "home p"
  shows "allows (set_options L p opts s) (\<lambda>(bad, t). P t)"
  using assms(1)
proof (induction opts arbitrary: s)
  case Nil
  then show ?case by simp
next
  case (Cons ov rest)
  obtain opname val where ov: "ov = (opname, val)" by force
  show ?case
    unfolding ov by (auto intro!: allows_mono [OF set_option_P [OF Cons.prems assms(2)]] Cons.IH Cons.prems)
qed

lemma get_option_P: "P s \<Longrightarrow> allows (get_option L p opname s) (\<lambda>(val, t). P t)"
  by (auto simp: get_option_def intro!: allows_with_hd allows_with_handle
      split: prod.splits option.splits) (auto intro: counted_plain)

lemma get_options_P: "P s \<Longrightarrow> allows (get_options L p opts s) (\<lambda>(vals, t). P t)"
proof (induction opts arbitrary: s)
  case Nil
  then show ?case by simp
next
  case (Cons opname rest)
  note rest = allows_mono [OF Cons.IH]
  show ?case
    by (auto intro!: allows_mono [OF get_option_P [OF Cons.prems]] rest split: option.splits)
qed

end

section \<open>What they do\<close>

lemma set_then_get_foldpdesc:
  assumes "hds s p = Some H"
  shows "seq (set_option L p ''-foldpdesc'' val s) (\<lambda>(ok, s1). get_option L p ''-foldpdesc'' s1)
    = Done (Some (if val = ''0'' then ''0'' else ''1''), folded p (if val = ''0'' then 0 else 1) s)"
  using assms
  by (auto simp: set_option_def get_option_def with_hd_def internal_option_def folded_def put_hd_def snprintf_def)

text \<open>A value of libdtrace is reported as the first 11 characters of its decimal text.\<close>

lemma get_option_value:
  assumes "hds s p = Some H" and "hdl H = Some h" and "\<not> internal_option opname" and "opname \<noteq> []"
    and "dtrace_getopt L h (tl opname) (world s) = (Some optval, w)" and "optval \<noteq> DTRACEOPT_UNSET L"
  shows "get_option L p opname s = Done (Some (snprintf 12 (dec_int optval)), put_world w s)"
  using assms by (simp add: get_option_def)

lemma length_dec_nat_ge: "10 ^ k \<le> n \<Longrightarrow> k < length (dec_nat n)"
proof (induction k arbitrary: n)
  case 0
  then show ?case using dec_nat_nonempty by simp
next
  case (Suc k)
  have "(1 :: nat) \<le> 10 ^ k" by simp
  moreover have "10 * 10 ^ k \<le> n" using Suc.prems by simp
  ultimately have "\<not> n < 10" by linarith
  moreover have "10 ^ k \<le> n div 10" using Suc.prems by (simp add: less_eq_div_iff_mult_less_eq)
  then have "k < length (dec_nat (n div 10))" by (rule Suc.IH)
  ultimately show ?case by (simp add: dec_nat_step)
qed

lemma length_dec_nat_iff: "0 < k \<Longrightarrow> length (dec_nat n) \<le> k \<longleftrightarrow> n < 10 ^ k"
  using length_dec_nat [of n k] length_dec_nat_ge [of k n] by (cases "n < 10 ^ k") auto

lemma option_text_exact: "snprintf 12 (dec_int n) = dec_int n \<longleftrightarrow> - (10 ^ 10) < n \<and> n < 10 ^ 11"
proof -
  have "snprintf 12 (dec_int n) = dec_int n \<longleftrightarrow> length (dec_int n) \<le> 11"
    by (simp add: snprintf_def)
  also have "\<dots> \<longleftrightarrow> - (10 ^ 10) < n \<and> n < 10 ^ 11"
    using length_dec_nat_iff [of 10 "nat (- n)"] length_dec_nat_iff [of 11 "nat n"]
    by (simp add: dec_int_def nat_less_iff) linarith
  finally show ?thesis .
qed

text \<open>What is cut off changes the number.\<close>

lemma option_text_cut:
  assumes "10 ^ 11 \<le> n"
  shows "dec_value (snprintf 12 (dec_int n)) \<noteq> nat n"
proof -
  let ?v = "snprintf 12 (dec_int n)"
  have "11 < length (dec_nat (nat n))" using assms by (intro length_dec_nat_ge) (simp add: le_nat_iff)
  then have v: "?v = take 11 (dec_nat (nat n))" "length ?v = 11" using assms by (simp_all add: snprintf_def dec_int_def)
  have "dec_value ?v < 10 ^ 11" using dec_value_less [of ?v] dec_nat_digits [of _ "nat n"] v
    by (metis in_set_takeD)
  with assms show ?thesis by (simp add: nat_eq_iff2)
qed

end
