(* ===== verification/Formatting.thy ===== *)
theory Formatting
  imports State_Ops
begin

text \<open>
  What the extension tells a script about its data: names of actions and drops, probe
  descriptions, and the text of an aggregation with its padding removed (\<^verbatim>\<open>bufType\<close>,
  \<^verbatim>\<open>dropKind\<close>, \<^verbatim>\<open>formatProbeDesc\<close>, \<^verbatim>\<open>cutWhiteSpace\<close> of \<^verbatim>\<open>generic/dtrace.c\<close>).
\<close>

section \<open>Names of actions and drops\<close>

fun bufType :: "actkind \<Rightarrow> tcl_obj" where
  "bufType DTRACEACT_DIFEXPR = StrObj ''DIFEXPR''"
| "bufType DTRACEACT_PRINTF = StrObj ''PRINTF''"
| "bufType DTRACEACT_PRINTA = StrObj ''PRINTA''"
| "bufType DTRACEACT_USTACK = StrObj ''USTACK''"
| "bufType DTRACEACT_JSTACK = StrObj ''JSTACK''"
| "bufType DTRACEACT_STACK = StrObj ''STACK''"
| "bufType _ = StrObj ''UNKNOWN''"

fun dropKind :: "dropkind \<Rightarrow> tcl_obj" where
  "dropKind DTRACEDROP_PRINCIPAL = StrObj ''PRINCIPAL''"
| "dropKind DTRACEDROP_AGGREGATION = StrObj ''AGGREGATION''"
| "dropKind DTRACEDROP_DYNAMIC = StrObj ''DYNAMIC''"
| "dropKind DTRACEDROP_DYNRINSE = StrObj ''DYNRINSE''"
| "dropKind DTRACEDROP_DYNDIRTY = StrObj ''DYNDIRTY''"
| "dropKind DTRACEDROP_SPEC = StrObj ''SPEC''"
| "dropKind DTRACEDROP_SPECBUSY = StrObj ''SPECBUSY''"
| "dropKind DTRACEDROP_SPECUNAVAIL = StrObj ''SPECUNAVAIL''"
| "dropKind DTRACEDROP_STKSTROVERFLOW = StrObj ''STKSTROVERFLOW''"
| "dropKind DTRACEDROP_DBLERROR = StrObj ''DBLERROR''"
| "dropKind _ = StrObj ''UNKNOWN''"

section \<open>Probe descriptions\<close>

definition formatProbeDesc :: "handle_data \<Rightarrow> probedesc \<Rightarrow> tcl_obj" where
  "formatProbeDesc H pdesc =
     (if foldpdesc H \<noteq> 0 then
        StrObj (snprintf 128 (dtpd_provider pdesc @ '':'' @ dtpd_mod pdesc @ '':'' @
                              dtpd_func pdesc @ '':'' @ dtpd_name pdesc))
      else ListObj [StrObj (dtpd_provider pdesc), StrObj (dtpd_mod pdesc),
                    StrObj (dtpd_func pdesc), StrObj (dtpd_name pdesc)])"

text \<open>How a script takes a folded description apart.\<close>

fun split_at :: "char \<Rightarrow> string \<Rightarrow> string list" where
  "split_at c [] = [[]]"
| "split_at c (x # xs) =
     (if x = c then [] # split_at c xs
      else (case split_at c xs of [] \<Rightarrow> [[x]] | w # ws \<Rightarrow> (x # w) # ws))"

lemma split_at_free: "c \<notin> set xs \<Longrightarrow> split_at c xs = [xs]"
  by (induction xs) auto

lemma split_at_append: "c \<notin> set xs \<Longrightarrow> split_at c (xs @ c # ys) = xs # split_at c ys"
  by (induction xs) auto

definition colon_free :: "probedesc \<Rightarrow> bool" where
  "colon_free pdesc \<longleftrightarrow> (CHR '':'') \<notin> set (dtpd_provider pdesc) \<and> (CHR '':'') \<notin> set (dtpd_mod pdesc) \<and>
     (CHR '':'') \<notin> set (dtpd_func pdesc) \<and> (CHR '':'') \<notin> set (dtpd_name pdesc)"

definition desc_length :: "probedesc \<Rightarrow> nat" where
  "desc_length pdesc = length (dtpd_provider pdesc) + length (dtpd_mod pdesc) +
     length (dtpd_func pdesc) + length (dtpd_name pdesc) + 3"

lemma formatProbeDesc_fold:
  assumes "foldpdesc H \<noteq> 0" and "desc_length pdesc < 128"
  shows "formatProbeDesc H pdesc = StrObj (dtpd_provider pdesc @ '':'' @ dtpd_mod pdesc @ '':'' @
    dtpd_func pdesc @ '':'' @ dtpd_name pdesc)"
  using assms unfolding formatProbeDesc_def desc_length_def by (simp add: snprintf_fits)

lemma split_folded:
  assumes "colon_free pdesc"
  shows "split_at (CHR '':'') (dtpd_provider pdesc @ '':'' @ dtpd_mod pdesc @ '':'' @ dtpd_func pdesc @ '':'' @ dtpd_name pdesc)
    = [dtpd_provider pdesc, dtpd_mod pdesc, dtpd_func pdesc, dtpd_name pdesc]"
  using assms by (simp add: colon_free_def split_at_append split_at_free)

section \<open>Removing white space\<close>

abbreviation is_space :: "char \<Rightarrow> bool" where
  "is_space c \<equiv> c = CHR 0x20"

definition rstrip :: "string \<Rightarrow> string" where
  "rstrip cs = rev (dropWhile is_space (rev cs))"

definition strip :: "string \<Rightarrow> string" where
  "strip cs = rstrip (dropWhile is_space cs)"

text \<open>
  The copying loop: \<open>i\<close> counts, \<open>buf\<close> is what has been written to the buffer, \<open>sz\<close> is the
  variable \<^verbatim>\<open>size\<close>, \<open>None\<close> before its first assignment.
\<close>

fun cut_loop :: "nat \<Rightarrow> string \<Rightarrow> string \<Rightarrow> nat option \<Rightarrow> string \<times> nat option" where
  "cut_loop i [] buf sz = (buf, sz)"
| "cut_loop i (c # cs) buf sz =
     (if i < TUPLE_STRLEN then
        cut_loop (Suc i) cs (buf @ [c]) (if c \<noteq> CHR 0x20 then Some i else sz)
      else (buf, sz))"

definition cutWhiteSpace :: "string \<Rightarrow> tcl_obj exec" where
  "cutWhiteSpace csource =
     (case cut_loop 0 (dropWhile is_space csource) [] None of
        (buf, None) \<Rightarrow> Fault ''size is used uninitialised''
      | (buf, Some sz) \<Rightarrow>
          if Suc sz < TUPLE_STRLEN then Done (StrObj (take (Suc sz) buf))
          else Fault ''store past buf'')"

definition cut_inv :: "string \<Rightarrow> nat option \<Rightarrow> bool" where
  "cut_inv buf sz \<longleftrightarrow>
     (case sz of None \<Rightarrow> rstrip buf = []
      | Some n \<Rightarrow> n < length buf \<and> rstrip buf = take (Suc n) buf)"

lemma rstrip_snoc: "rstrip (buf @ [c]) = (if is_space c then rstrip buf else buf @ [c])"
  by (simp add: rstrip_def)

lemma cut_inv_step:
  "cut_inv buf sz \<Longrightarrow> cut_inv (buf @ [c]) (if c \<noteq> CHR 0x20 then Some (length buf) else sz)"
  by (auto simp: cut_inv_def rstrip_snoc split: option.splits)

lemma cut_loop_spec:
  assumes "cut_inv buf sz" and "length buf \<le> TUPLE_STRLEN"
  shows "fst (cut_loop (length buf) cs buf sz) = buf @ take (TUPLE_STRLEN - length buf) cs \<and>
    cut_inv (buf @ take (TUPLE_STRLEN - length buf) cs) (snd (cut_loop (length buf) cs buf sz))"
  using assms
proof (induction cs arbitrary: buf sz)
  case Nil
  then show ?case by simp
next
  case (Cons c cs)
  show ?case
  proof (cases "length buf < TUPLE_STRLEN")
    case True
    have "cut_inv (buf @ [c]) (if c \<noteq> CHR 0x20 then Some (length buf) else sz)"
      using Cons.prems(1) by (rule cut_inv_step)
    from Cons.IH [OF this] True show ?thesis by (simp add: take_Cons')
  next
    case False
    with Cons.prems show ?thesis by simp
  qed
qed

text \<open>The function is this, on every input.\<close>

lemma cutWhiteSpace_eq:
  "cutWhiteSpace cs =
     (let t = rstrip (take TUPLE_STRLEN (dropWhile is_space cs)) in
      if t = [] then Fault ''size is used uninitialised''
      else if length t = TUPLE_STRLEN then Fault ''store past buf''
      else Done (StrObj t))"
proof -
  let ?src = "dropWhile is_space cs"
  obtain buf sz where loop: "cut_loop 0 ?src [] None = (buf, sz)" by force
  have "cut_inv [] None" by (simp add: cut_inv_def rstrip_def)
  from cut_loop_spec [OF this, of ?src] loop
  have buf: "buf = take TUPLE_STRLEN ?src" and inv: "cut_inv buf sz" by simp_all
  show ?thesis
  proof (cases sz)
    case None
    with inv have "rstrip buf = []" by (simp add: cut_inv_def)
    with loop None show ?thesis by (simp add: cutWhiteSpace_def buf)
  next
    case (Some n)
    with inv have n: "n < length buf" "rstrip buf = take (Suc n) buf" by (simp_all add: cut_inv_def)
    moreover have "length buf \<le> TUPLE_STRLEN" by (simp add: buf)
    ultimately have "length (rstrip buf) = Suc n" "rstrip buf \<noteq> []" "Suc n \<le> TUPLE_STRLEN"
      by (auto simp: min_def)
    moreover have "cutWhiteSpace cs = (if Suc n < TUPLE_STRLEN then Done (StrObj (rstrip buf)) else Fault ''store past buf'')"
      using loop Some n(2) by (simp add: cutWhiteSpace_def)
    ultimately show ?thesis by (simp add: buf Let_def)
  qed
qed

lemma dropWhile_length_le: "length (dropWhile P xs) \<le> length xs"
  by (induction xs) auto

lemma rstrip_prefix: "\<exists>zs. cs = rstrip cs @ zs \<and> (\<forall>z \<in> set zs. is_space z)"
proof -
  have "rev cs = takeWhile is_space (rev cs) @ dropWhile is_space (rev cs)" by simp
  then have "cs = rev (dropWhile is_space (rev cs)) @ rev (takeWhile is_space (rev cs))"
    by (metis rev_append rev_rev_ident)
  then show ?thesis
    unfolding rstrip_def by (intro exI [of _ "rev (takeWhile is_space (rev cs))"]) (auto dest: set_takeWhileD)
qed

lemma rstrip_append_spaces: "\<forall>z \<in> set zs. is_space z \<Longrightarrow> rstrip (cs @ zs) = rstrip cs"
proof (induction zs rule: rev_induct)
  case Nil
  then show ?case by simp
next
  case (snoc z zs)
  then show ?case using rstrip_snoc [of "cs @ zs" z] by simp
qed

lemma rstrip_idem: "rstrip (rstrip cs) = rstrip cs"
  using rstrip_prefix [of cs] rstrip_append_spaces [of _ "rstrip cs"] by metis

lemma rstrip_take:
  assumes "length (rstrip cs) \<le> n"
  shows "rstrip (take n cs) = rstrip cs"
proof -
  obtain zs where zs: "cs = rstrip cs @ zs" "\<forall>z \<in> set zs. is_space z" using rstrip_prefix by blast
  from zs(1) assms have "take n cs = rstrip cs @ take (n - length (rstrip cs)) zs"
    by (metis take_all take_append)
  moreover have "\<forall>z \<in> set (take (n - length (rstrip cs)) zs). is_space z"
    using zs(2) by (meson in_set_takeD)
  ultimately show ?thesis by (simp add: rstrip_append_spaces rstrip_idem)
qed

text \<open>Text whose stripped form is neither empty nor too long is stripped and nothing else.\<close>

lemma cutWhiteSpace_strip:
  assumes "strip cs \<noteq> []" and "length (strip cs) < TUPLE_STRLEN"
  shows "cutWhiteSpace cs = Done (StrObj (strip cs))"
  using assms by (simp add: cutWhiteSpace_eq strip_def rstrip_take Let_def)

end
