(* ===== verification/Intermediate.thy ===== *)
theory Intermediate
  imports Options Formatting
begin

text \<open>
  The intermediate callbacks of \<^verbatim>\<open>generic/dtrace.c\<close>: libdtrace calls them with its data, they
  call the procedures a script registered with \<^verbatim>\<open>::dtrace::go\<close> or passed to
  \<^verbatim>\<open>::dtrace::list\<close>. A script may do anything to the state, so the structure of the handle
  is looked up again wherever the C code follows the pointer after the script has run.
\<close>

section \<open>CallbackEval\<close>

text \<open>
  References to the objects of the command are held while it runs. \<^verbatim>\<open>hd->interp\<close> is the macro's
  first argument: it is read again for the error report. \<open>okcode\<close> is what the function returns
  after the macro.
\<close>

definition CallbackEval :: "'w tcl \<Rightarrow> addr \<Rightarrow> tcl_obj list \<Rightarrow> string \<Rightarrow> cbret \<Rightarrow> cbret \<Rightarrow> 'w st \<Rightarrow> (cbret \<times> 'w st) exec" where
  "CallbackEval T p objv cbname errcode okcode s =
     with_hd p s (\<lambda>H.
       case hd_interp H of
         None \<Rightarrow> Fault ''NULL interpreter''
       | Some i \<Rightarrow>
           seq (EvalObjv T i objv (incr_refs objv s)) (\<lambda>(r, s1).
             let s2 = decr_refs objv s1 in
             if r \<noteq> TCL_OK then
               with_hd p s2 (\<lambda>H2.
                 case hd_interp H2 of
                   None \<Rightarrow> Fault ''NULL interpreter''
                 | Some i2 \<Rightarrow>
                     Done (errcode, background_error i2 (newline @ ''    (running '' @ cbname @ '' callback)'') s2))
             else Done (okcode, s2)))"

section \<open>The callbacks\<close>

text \<open>\<^verbatim>\<open>hd->callbacks[cb]\<close> and \<^verbatim>\<open>hd->args[cb]\<close>; the second is used as an object.\<close>

definition cb_proc_of :: "handle_data \<Rightarrow> callbacks \<Rightarrow> tcl_obj option" where
  "cb_proc_of H cb = cb_procs H ! cb_index cb"

definition with_arg :: "handle_data \<Rightarrow> callbacks \<Rightarrow> (tcl_obj \<Rightarrow> 'a exec) \<Rightarrow> 'a exec" where
  "with_arg H cb f = (case cb_args H ! cb_index cb of None \<Rightarrow> Fault ''NULL argument object'' | Some ob \<Rightarrow> f ob)"

definition chew :: "'w tcl \<Rightarrow> addr \<Rightarrow> probedata \<Rightarrow> 'w st \<Rightarrow> (cbret \<times> 'w st) exec" where
  "chew T p data s =
     with_hd p s (\<lambda>H.
       case cb_proc_of H cb_probe_desc of
         None \<Rightarrow> Done (DTRACE_CONSUME_THIS, s)
       | Some proc \<Rightarrow>
           with_arg H cb_probe_desc (\<lambda>arg.
             CallbackEval T p
               [proc, formatProbeDesc H (dtpda_pdesc data), IntObj (dtpda_cpu data),
                IntObj (as_int (dtpd_id (dtpda_pdesc data))), arg]
               ''probe_desc'' DTRACE_CONSUME_ERROR DTRACE_CONSUME_THIS s))"

definition chewrec :: "'w st \<Rightarrow> (cbret \<times> 'w st) exec" where
  "chewrec s = Done (DTRACE_CONSUME_THIS, s)"

definition bufhandler :: "'w tcl \<Rightarrow> addr \<Rightarrow> bufdata \<Rightarrow> 'w st \<Rightarrow> (cbret \<times> 'w st) exec" where
  "bufhandler T p bufdata s =
     (let data = dtbda_probe bufdata; pdesc = dtpda_pdesc data in
     with_hd p s (\<lambda>H.
       case cb_proc_of H cb_probe_output of
         None \<Rightarrow> Done (DTRACE_HANDLE_OK, s)
       | Some proc \<Rightarrow>
           with_arg H cb_probe_output (\<lambda>arg.
             case dtbda_recdesc bufdata of
               None \<Rightarrow> Fault ''NULL record description''
             | Some action \<Rightarrow>
                 CallbackEval T p
                   [proc, formatProbeDesc H pdesc, IntObj (dtpda_cpu data), IntObj (as_int (dtpd_id pdesc)),
                    arg, bufType action, StrObj (dtbda_buffered bufdata)]
                   ''probe_output'' DTRACE_HANDLE_ABORT DTRACE_HANDLE_OK s)))"

text \<open>
  Aggregations: the members of a tuple come one by one, then the value. A record description
  that is missing marks extra white space.
\<close>

definition append_to_list :: "'w tcl \<Rightarrow> addr \<Rightarrow> tcl_obj \<Rightarrow> 'w st \<Rightarrow> 'w st exec" where
  "append_to_list T p ob s =
     with_hd p s (\<lambda>H.
       case agg_list H of
         OwnList l \<Rightarrow> Done (put_hd p (H\<lparr>agg_list := OwnList (l @ [ob])\<rparr>) s)
       | NullList \<Rightarrow> Fault ''append to a NULL list''
       | HandedOver \<Rightarrow> seq (append_handed T p ob s) (\<lambda>r. Done (put_results r s)))"

definition agghandler :: "'w tcl \<Rightarrow> addr \<Rightarrow> bufdata \<Rightarrow> 'w st \<Rightarrow> (cbret \<times> 'w st) exec" where
  "agghandler T p bufdata s =
     with_hd p s (\<lambda>H.
       case dtbda_recdesc bufdata of
         None \<Rightarrow> Done (DTRACE_HANDLE_OK, s)
       | Some action \<Rightarrow>
           if DTRACEACT_ISAGG action then
             (case agg_tuple H of
                None \<Rightarrow> Panic ''dtrace empty aggregation tuple''
              | Some tuple \<Rightarrow>
                  seq (append_to_list T p (ListObj tuple) s) (\<lambda>s1.
                    seq (cutWhiteSpace (dtbda_buffered bufdata)) (\<lambda>val.
                      seq (append_to_list T p val s1) (\<lambda>s2.
                        with_hd p s2 (\<lambda>H2. Done (DTRACE_HANDLE_OK, put_hd p (H2\<lparr>agg_tuple := None\<rparr>) s2))))))
           else
             (let tuple = (case agg_tuple H of None \<Rightarrow> [] | Some t \<Rightarrow> t) in
              seq (cutWhiteSpace (dtbda_buffered bufdata)) (\<lambda>val.
                Done (DTRACE_HANDLE_OK, put_hd p (H\<lparr>agg_tuple := Some (tuple @ [val])\<rparr>) s))))"

definition buf_or_agg :: "'w tcl \<Rightarrow> addr \<Rightarrow> bufdata \<Rightarrow> 'w st \<Rightarrow> (cbret \<times> 'w st) exec" where
  "buf_or_agg T p bufdata s =
     (if dtbda_aggdata bufdata then agghandler T p bufdata s else bufhandler T p bufdata s)"

definition drophandler :: "'w tcl \<Rightarrow> addr \<Rightarrow> dropdata \<Rightarrow> 'w st \<Rightarrow> (cbret \<times> 'w st) exec" where
  "drophandler T p dropdata s =
     with_hd p s (\<lambda>H.
       case cb_proc_of H cb_drop of
         None \<Rightarrow> Done (DTRACE_HANDLE_OK, s)
       | Some proc \<Rightarrow>
           with_arg H cb_drop (\<lambda>arg.
             CallbackEval T p
               [proc, IntObj (dtdda_cpu dropdata), dropKind (dtdda_kind dropdata),
                IntObj (as_int (dtdda_drops dropdata)), StrObj (dtdda_msg dropdata), arg]
               ''drop'' DTRACE_HANDLE_ABORT DTRACE_HANDLE_OK s))"

definition errhandler :: "'w tcl \<Rightarrow> addr \<Rightarrow> errdata \<Rightarrow> 'w st \<Rightarrow> (cbret \<times> 'w st) exec" where
  "errhandler T p errdata s =
     with_hd p s (\<lambda>H.
       case cb_proc_of H cb_error of
         None \<Rightarrow> Done (DTRACE_HANDLE_OK, s)
       | Some proc \<Rightarrow>
           with_arg H cb_error (\<lambda>arg.
             CallbackEval T p
               [proc, formatProbeDesc H (dteda_pdesc errdata), IntObj (dteda_cpu errdata),
                StrObj (dteda_msg errdata), arg]
               ''error'' DTRACE_HANDLE_ABORT DTRACE_HANDLE_OK s))"

definition prochandler :: "'w libdtrace \<Rightarrow> 'w tcl \<Rightarrow> addr \<Rightarrow> prochandle \<Rightarrow> string \<Rightarrow> 'w st \<Rightarrow> (cbret \<times> 'w st) exec" where
  "prochandler L T p proc msg s =
     with_hd p s (\<lambda>H.
       case cb_proc_of H cb_proc of
         None \<Rightarrow> Done (RetVoid, s)
       | Some cproc \<Rightarrow>
           with_arg H cb_proc (\<lambda>arg.
             CallbackEval T p [cproc, IntObj (Pstatus_pid L proc (world s)), StrObj msg, arg]
               ''proc'' RetVoid RetVoid s))"

definition listProbe :: "'w tcl \<Rightarrow> addr \<Rightarrow> tcl_obj \<Rightarrow> tcl_obj \<Rightarrow> probedesc \<Rightarrow> 'w st \<Rightarrow> (cbret \<times> 'w st) exec" where
  "listProbe T p proc args pdesc s =
     with_hd p s (\<lambda>H.
       CallbackEval T p [proc, formatProbeDesc H pdesc, args] ''list'' DTRACE_HANDLE_ABORT RetZero s)"

text \<open>\<open>prev\<close> is \<^verbatim>\<open>arg->last\<close>, the description whose probes were listed before.\<close>

definition listStatement :: "'w libdtrace \<Rightarrow> 'w tcl \<Rightarrow> addr \<Rightarrow> dtrace_hdl \<Rightarrow> tcl_obj \<Rightarrow> tcl_obj
    \<Rightarrow> ecbdesc \<Rightarrow> addr option \<times> 'w st \<Rightarrow> (cbret \<times> (addr option \<times> 'w st)) exec" where
  "listStatement L T p h proc args enabled x =
     (case x of (prev, s) \<Rightarrow>
       if prev = Some (ecb_addr enabled) then Done (RetZero, x)
       else
         seq (drive world put_world (listProbe T p proc args) (dtrace_probe_iter L h (dted_probe enabled) (world s)) s)
           (\<lambda>(rc, s1).
             if rc \<noteq> 0 then
               Panic (''dtrace unmatched statement '' @ dtpd_provider (dted_probe enabled) @ '':'' @
                 dtpd_mod (dted_probe enabled) @ '':'' @ dtpd_func (dted_probe enabled) @ '':'' @
                 dtpd_name (dted_probe enabled) @ '': '' @
                 dtrace_errmsg L (Some h) (dtrace_errno L h (world s1)) (world s1))
             else Done (RetZero, (Some (ecb_addr enabled), s1))))"

text \<open>Which callback serves which event of a handle.\<close>

fun handle_event :: "'w libdtrace \<Rightarrow> 'w tcl \<Rightarrow> addr \<Rightarrow> event \<Rightarrow> 'w st \<Rightarrow> (cbret \<times> 'w st) exec" where
  "handle_event L T p (Ev_chew data) s = chew T p data s"
| "handle_event L T p Ev_chewrec s = chewrec s"
| "handle_event L T p (Ev_buffered bufdata) s = buf_or_agg T p bufdata s"
| "handle_event L T p (Ev_err errdata) s = errhandler T p errdata s"
| "handle_event L T p (Ev_drop dropdata) s = drophandler T p dropdata s"
| "handle_event L T p (Ev_proc proc msg) s = prochandler L T p proc msg s"

definition run_lib :: "'w libdtrace \<Rightarrow> 'w tcl \<Rightarrow> addr \<Rightarrow> (event, 'w) lib_run \<Rightarrow> 'w st \<Rightarrow> (int \<times> 'w st) exec" where
  "run_lib L T p = drive world put_world (handle_event L T p)"

lemmas handler_defs = chew_def chewrec_def bufhandler_def agghandler_def buf_or_agg_def drophandler_def
  errhandler_def prochandler_def listProbe_def with_arg_def append_to_list_def

section \<open>Scripts\<close>

text \<open>
  Conditions on the scripts that callbacks run: whenever they return they have kept a property,
  or they return and have kept it.
\<close>

definition scripts_allow :: "'w tcl \<Rightarrow> (interp \<Rightarrow> bool) \<Rightarrow> ('w st \<Rightarrow> bool) \<Rightarrow> bool" where
  "scripts_allow T here P \<longleftrightarrow> (\<forall>i objv s. here i \<longrightarrow> P s \<longrightarrow> allows (EvalObjv T i objv s) (\<lambda>(r, s'). P s'))"

definition scripts_keep :: "'w tcl \<Rightarrow> ('w st \<Rightarrow> bool) \<Rightarrow> bool" where
  "scripts_keep T P \<longleftrightarrow> (\<forall>i objv s. P s \<longrightarrow> ensures (EvalObjv T i objv s) (\<lambda>(r, s'). P s'))"

lemma wf_hd_agg [simp]:
  "wf_hd (H\<lparr>agg_list := l\<rparr>) = wf_hd H" "wf_hd (H\<lparr>agg_tuple := t\<rparr>) = wf_hd H"
  by (simp_all add: wf_hd_def vec_wf_def slots_wf_def cells_of_def)

definition callbacks_allow :: "'w tcl \<Rightarrow> (addr \<Rightarrow> bool) \<Rightarrow> ('w st \<Rightarrow> bool) \<Rightarrow> bool" where
  "callbacks_allow T home P \<longleftrightarrow> (\<forall>p objv cbname errcode okcode s. home p \<longrightarrow> P s \<longrightarrow>
     allows (CallbackEval T p objv cbname errcode okcode s) (\<lambda>(r, t). P t))"

lemma callbacks_allowD:
  "callbacks_allow T home P \<Longrightarrow> home p \<Longrightarrow> P s \<Longrightarrow> allows (CallbackEval T p objv cbname e ok s) (\<lambda>(r, t). P t)"
  by (simp add: callbacks_allow_def)

text \<open>
  Whatever libdtrace delivers, the callbacks keep a property if the evaluation of
  their commands keeps it. For a conserved property it is enough that the scripts do.
\<close>

context counted begin

lemma agghandler_P:
  assumes "P s" and "home p"
  shows "allows (agghandler T p bufdata s) (\<lambda>(r, t). P t)"
proof -
  have put: "P (put_hd p (H\<lparr>agg_list := l\<rparr>) t)" "P (put_hd p (H\<lparr>agg_tuple := tu\<rparr>) t)"
    if "P t" "hds t p = Some H" for H l tu t
    by (rule counted_put [OF that(1) assms(2) that(2)]; use wf_live_hd [OF counted_wf [OF that(1)] that(2)] in simp)+
  have results: "P (put_results r t)" if "P t" for r t
    using that counted_booksI by fastforce
  have append: "allows (append_to_list T p ob t) P" if "P t" for ob t
    using that results by (auto simp: append_to_list_def allows_iff seq_eq_Done_iff with_hd_def intro: put
        split: agg_list_ptr.splits option.splits)
  show ?thesis
    using assms(1) by (auto simp: agghandler_def Let_def cutWhiteSpace_eq intro!: allows_with_hd put allows_mono [OF append]
        split: option.splits nat.splits)
qed

lemma handle_event_P:
  assumes T: "callbacks_allow T home P" and "P s" and p: "home p"
  shows "allows (handle_event L T p ev s) (\<lambda>(r, t). P t)"
  using callbacks_allowD [OF T p \<open>P s\<close>] agghandler_P [OF \<open>P s\<close> p] \<open>P s\<close>
  by (cases ev) (auto simp: chew_def chewrec_def bufhandler_def buf_or_agg_def drophandler_def
      errhandler_def prochandler_def with_arg_def Let_def intro!: allows_with_hd split: option.splits)

lemma run_lib_P:
  assumes "callbacks_allow T home P" and "P s" and "home p" and "within moves run (world s)"
  shows "allows (run_lib L T p run s) (\<lambda>(rc, t). P t)"
  unfolding run_lib_def
  by (rule drive_allows [where moves = moves]) (use assms handle_event_P counted_world in \<open>auto\<close>)

lemma runs_within [simp]:
  "within moves (dtrace_sleep L h w) w" "within moves (dtrace_work L h w) w" "within moves (dtrace_aggregate_print L h w) w"
  "within moves (dtrace_stmt_iter L h pr w) w" "within moves (dtrace_probe_iter L h d w) w"
  using counted_calls by (simp_all add: calls_within_def)

lemma listProbe_P:
  assumes "callbacks_allow T home P" and "P s" and "home p"
  shows "allows (listProbe T p proc args pdesc s) (\<lambda>(r, t). P t)"
  using callbacks_allowD [OF assms(1,3,2)] by (auto simp: listProbe_def intro!: allows_with_hd)

lemma listStatement_P:
  assumes T: "callbacks_allow T home P" and "P (snd x)" and p: "home p"
  shows "allows (listStatement L T p h proc args enabled x) (\<lambda>(r, y). P (snd y))"
proof -
  have d: "allows (drive world put_world (listProbe T p proc args) (dtrace_probe_iter L h d (world s)) s) (\<lambda>(rc, t). P t)"
    if "P s" for d s
    by (rule drive_allows [where P = P and moves = moves]) (use that listProbe_P [OF T _ p] counted_world in auto)
  show ?thesis
    using assms(2) by (cases x) (auto simp: listStatement_def intro!: allows_mono [OF d])
qed

end

context conserved begin

lemma CallbackEval_P:
  assumes T: "scripts_allow T here P" and "P s" and p: "home p"
  shows "allows (CallbackEval T p objv cbname e ok s) (\<lambda>(r, t). P t)"
proof -
  have ev: "allows (EvalObjv T i objv (incr_refs objv s)) (\<lambda>(r, s1). P s1)" if "here i" for i
    using T \<open>P s\<close> that by (simp add: scripts_allow_def)
  show ?thesis
    unfolding CallbackEval_def
    by (auto simp: Let_def conserved_here [OF \<open>P s\<close> p] intro!: allows_with_hd allows_mono [OF ev] split: option.splits)
qed

lemma scripts_callbacks: "scripts_allow T here P \<Longrightarrow> callbacks_allow T home P"
  using CallbackEval_P by (simp add: callbacks_allow_def)

end

section \<open>What a callback does\<close>

text \<open>The three ways out of \<open>CallbackEval\<close> once the script has returned.\<close>

lemma CallbackEval_ok:
  assumes "hds s p = Some H" and "hd_interp H = Some i" and "EvalObjv T i objv (incr_refs objv s) = Done (TCL_OK, t)"
  shows "CallbackEval T p objv cbname e ok s = Done (ok, decr_refs objv t)"
  using assms by (simp add: CallbackEval_def Let_def)

lemma CallbackEval_error:
  assumes "hds s p = Some H" and "hd_interp H = Some i" and "EvalObjv T i objv (incr_refs objv s) = Done (rc, t)"
    and "rc \<noteq> TCL_OK" and "hds t p = Some H'" and "hd_interp H' = Some j"
  shows "CallbackEval T p objv cbname e ok s =
    Done (e, background_error j (newline @ ''    (running '' @ cbname @ '' callback)'') (decr_refs objv t))"
  using assms by (simp add: CallbackEval_def Let_def)

lemma CallbackEval_closed:
  assumes "hds s p = Some H" and "hd_interp H = Some i" and "EvalObjv T i objv (incr_refs objv s) = Done (rc, t)"
    and "rc \<noteq> TCL_OK" and "hds t p = None"
  shows "CallbackEval T p objv cbname e ok s = Fault ''use of a freed handle_data''"
  using assms by (simp add: CallbackEval_def Let_def with_hd_def)

text \<open>The slot an event of a handle looks into; an aggregation record has none.\<close>

fun slot_of :: "event \<Rightarrow> callbacks option" where
  "slot_of (Ev_chew data) = Some cb_probe_desc"
| "slot_of Ev_chewrec = None"
| "slot_of (Ev_buffered bufdata) = (if dtbda_aggdata bufdata then None else Some cb_probe_output)"
| "slot_of (Ev_err errdata) = Some cb_error"
| "slot_of (Ev_drop dropdata) = Some cb_drop"
| "slot_of (Ev_proc proc msg) = Some cb_proc"

fun ok_code :: "event \<Rightarrow> cbret" where
  "ok_code (Ev_chew data) = DTRACE_CONSUME_THIS"
| "ok_code Ev_chewrec = DTRACE_CONSUME_THIS"
| "ok_code (Ev_proc proc msg) = RetVoid"
| "ok_code _ = DTRACE_HANDLE_OK"

fun error_ret :: "event \<Rightarrow> cbret" where
  "error_ret (Ev_chew data) = DTRACE_CONSUME_ERROR"
| "error_ret Ev_chewrec = DTRACE_CONSUME_THIS"
| "error_ret (Ev_proc proc msg) = RetVoid"
| "error_ret _ = DTRACE_HANDLE_ABORT"

text \<open>The words an event makes of its data, the registered argument at its place among them.\<close>

fun event_words :: "'w libdtrace \<Rightarrow> handle_data \<Rightarrow> 'w \<Rightarrow> tcl_obj \<Rightarrow> event \<Rightarrow> tcl_obj list" where
  "event_words L H w arg (Ev_chew data) =
     [formatProbeDesc H (dtpda_pdesc data), IntObj (dtpda_cpu data), IntObj (as_int (dtpd_id (dtpda_pdesc data))), arg]"
| "event_words L H w arg Ev_chewrec = []"
| "event_words L H w arg (Ev_buffered b) =
     [formatProbeDesc H (dtpda_pdesc (dtbda_probe b)), IntObj (dtpda_cpu (dtbda_probe b)),
      IntObj (as_int (dtpd_id (dtpda_pdesc (dtbda_probe b)))), arg,
      (case dtbda_recdesc b of None \<Rightarrow> StrObj [] | Some a \<Rightarrow> bufType a), StrObj (dtbda_buffered b)]"
| "event_words L H w arg (Ev_err e) =
     [formatProbeDesc H (dteda_pdesc e), IntObj (dteda_cpu e), StrObj (dteda_msg e), arg]"
| "event_words L H w arg (Ev_drop d) =
     [IntObj (dtdda_cpu d), dropKind (dtdda_kind d), IntObj (as_int (dtdda_drops d)), StrObj (dtdda_msg d), arg]"
| "event_words L H w arg (Ev_proc proc msg) = [IntObj (Pstatus_pid L proc w), StrObj msg, arg]"

text \<open>A buffered record without its description is not handled.\<close>

fun described :: "event \<Rightarrow> bool" where
  "described (Ev_buffered b) \<longleftrightarrow> dtbda_recdesc b \<noteq> None"
| "described _ \<longleftrightarrow> True"

lemma handle_event_quiet:
  assumes "hds s p = Some H" and "slot_of ev = Some cb" and "cb_procs H ! cb_index cb = None"
  shows "handle_event L T p ev s = Done (ok_code ev, s)"
  using assms by (cases ev) (auto simp: handler_defs cb_proc_of_def Let_def split: if_splits)

lemma handle_event_calls:
  assumes "hds s p = Some H" and "slot_of ev = Some cb" and "cb_procs H ! cb_index cb = Some proc"
    and "cb_args H ! cb_index cb = Some arg" and "described ev"
  shows "handle_event L T p ev s =
    CallbackEval T p (proc # event_words L H (world s) arg ev) (callbackNames ! cb_index cb) (error_ret ev) (ok_code ev) s"
  using assms by (cases ev) (auto simp: handler_defs cb_proc_of_def Let_def callbackNames_def split: if_splits)

section \<open>A library that delivers a list of events\<close>

text \<open>The calls of a library whose data are given and that goes on whatever the callbacks return.\<close>

primrec deliver :: "'e list \<Rightarrow> int \<Rightarrow> 'w \<Rightarrow> ('e, 'w) lib_run" where
  "deliver [] rc w = LibRet rc w"
| "deliver (e # es) rc w = LibCall e w (\<lambda>r w'. deliver es rc w')"

lemma put_world_same: "world s = w \<Longrightarrow> put_world w s = s"
  by (simp add: put_world_def)

lemma run_deliver_Nil: "run_lib L T p (deliver [] rc w) s = Done (rc, put_world w s)"
  by (simp add: run_lib_def)

lemma run_deliver_Cons:
  "run_lib L T p (deliver (e # es) rc w) s =
     seq (handle_event L T p e (put_world w s)) (\<lambda>(r, t). run_lib L T p (deliver es rc (world t)) t)"
  by (simp add: run_lib_def)

declare deliver.simps [simp del]

section \<open>Scripts that leave the extension alone\<close>

text \<open>
  \<open>acts T i procs f\<close>: in the interpreter \<open>i\<close> the procedures of \<open>procs\<close> succeed, whatever further
  words they get, and leave the data of the extension alone; \<open>f\<close> is their effect on the world. The
  result and the other fields of the interpreters may be anything afterwards. With such procedures
  the calls of a command can be read off the world it leaves.
\<close>

definition acts :: "'w tcl \<Rightarrow> interp \<Rightarrow> tcl_obj set \<Rightarrow> (tcl_obj list \<Rightarrow> 'w \<Rightarrow> 'w) \<Rightarrow> bool" where
  "acts T i procs f \<longleftrightarrow> (\<forall>proc \<in> procs. \<forall>ws s. ensures (EvalObjv T i (proc # ws) s)
     (\<lambda>(rc, t). rc = TCL_OK \<and> ledger t = ledger s \<and> world t = f (proc # ws) (world s)))"

text \<open>What such a stretch of the run does to the state.\<close>

definition goes :: "'w \<Rightarrow> 'w st \<Rightarrow> 'w st \<Rightarrow> bool" where
  "goes w s t \<longleftrightarrow> ledger t = ledger s \<and> world t = w"

lemma goes_hds: "goes w s t \<Longrightarrow> hds t = hds s"
  by (metis core_eqD(4) goes_def ledger_core)

lemma goes_put: "goes w (put_world v s) t \<longleftrightarrow> goes w s t"
  by (simp add: goes_def)

lemma goes_refl [simp]: "goes w s (put_world w s)" "goes (world s) s s"
  by (simp_all add: goes_def)

lemma goes_trans: "goes v s t \<Longrightarrow> goes w t u \<Longrightarrow> goes w s u"
  by (simp add: goes_def)

lemma goes_counted: "goes w (incr_refs obs s) t \<Longrightarrow> goes w s (decr_refs obs t)"
  by (simp add: goes_def ledger_iff decr_refs_def incr_refs_def core_def)

lemma CallbackEval_acts:
  assumes T: "acts T i procs f" and proc: "proc \<in> procs" and H: "hds s p = Some H" "hd_interp H = Some i"
  shows "ensures (CallbackEval T p (proc # ws) cbname e ok s) (\<lambda>(r, t). r = ok \<and> goes (f (proc # ws) (world s)) s t)"
proof -
  from T proc have "ensures (EvalObjv T i (proc # ws) (incr_refs (proc # ws) s))
      (\<lambda>(rc, t). rc = TCL_OK \<and> goes (f (proc # ws) (world s)) (incr_refs (proc # ws) s) t)"
    by (fastforce simp: acts_def goes_def elim: ensures_mono)
  then obtain t where "EvalObjv T i (proc # ws) (incr_refs (proc # ws) s) = Done (TCL_OK, t)"
    "goes (f (proc # ws) (world s)) (incr_refs (proc # ws) s) t" by (auto simp: ensures_iff)
  with CallbackEval_ok [OF H this(1)] goes_counted show ?thesis by simp
qed

definition event_effect :: "'w libdtrace \<Rightarrow> handle_data \<Rightarrow> (tcl_obj list \<Rightarrow> 'w \<Rightarrow> 'w) \<Rightarrow> event \<Rightarrow> 'w \<Rightarrow> 'w" where
  "event_effect L H f ev w =
     (case slot_of ev of
        None \<Rightarrow> w
      | Some cb \<Rightarrow>
          (case (cb_procs H ! cb_index cb, cb_args H ! cb_index cb) of
             (Some proc, Some arg) \<Rightarrow> f (proc # event_words L H w arg ev) w
           | _ \<Rightarrow> w))"

definition callback_event :: "event \<Rightarrow> bool" where
  "callback_event ev \<longleftrightarrow> described ev \<and> (ev = Ev_chewrec \<or> slot_of ev \<noteq> None)"

lemma slot_filled: "wf_hd H \<Longrightarrow> cb_procs H ! cb_index cb = None \<longleftrightarrow> cb_args H ! cb_index cb = None"
  by (simp add: wf_hd_def slots_wf_def)

text \<open>The procedures a handle has registered.\<close>

definition procs_of :: "handle_data \<Rightarrow> tcl_obj set" where
  "procs_of H = {proc. Some proc \<in> set (cb_procs H)}"

lemma procs_of_slot: "wf_hd H \<Longrightarrow> cb_procs H ! cb_index cb = Some proc \<Longrightarrow> proc \<in> procs_of H"
  unfolding procs_of_def wf_hd_def slots_wf_def by (metis (mono_tags) cb_index_less mem_Collect_eq nth_mem)

lemma handle_event_acts:
  assumes T: "acts T i (procs_of H) f" and H: "hds s p = Some H" "hd_interp H = Some i" "wf_hd H" and ev: "callback_event ev"
  shows "ensures (handle_event L T p ev s) (\<lambda>(r, t). r = ok_code ev \<and> goes (event_effect L H f ev (world s)) s t)"
proof (cases "slot_of ev")
  case None
  with ev have "ev = Ev_chewrec" by (simp add: callback_event_def)
  then show ?thesis by (simp add: chewrec_def event_effect_def)
next
  case (Some cb)
  show ?thesis
  proof (cases "cb_procs H ! cb_index cb")
    case None
    from handle_event_quiet [OF H(1) Some None, of L T] None Some show ?thesis
      by (simp add: event_effect_def)
  next
    case proc: (Some proc)
    with H(3) obtain arg where arg: "cb_args H ! cb_index cb = Some arg"
      using slot_filled [OF H(3), of cb] by auto
    have "event_effect L H f ev (world s) = f (proc # event_words L H (world s) arg ev) (world s)"
      using Some proc arg by (simp add: event_effect_def)
    with handle_event_calls [OF H(1) Some proc arg, of L T] ev show ?thesis
      by (simp add: callback_event_def CallbackEval_acts [OF T procs_of_slot [OF H(3) proc] H(1,2)])
  qed
qed

text \<open>The events of one call of the library, each of them once and in their order.\<close>

lemma run_lib_acts:
  assumes "acts T i (procs_of H) f" and H: "hds s p = Some H" "hd_interp H = Some i" "wf_hd H" and "list_all callback_event evs"
  shows "ensures (run_lib L T p (deliver evs rc w) s) (\<lambda>(c, t). c = rc \<and> goes (fold (event_effect L H f) evs w) s t)"
  using H(1) assms(5)
proof (induction evs arbitrary: s w)
  case Nil
  then show ?case by (simp add: run_deliver_Nil)
next
  case (Cons ev evs)
  let ?w = "event_effect L H f ev w"
  from Cons.prems have "hds (put_world w s) p = Some H" by simp
  from handle_event_acts [OF assms(1) this H(2,3), of ev L] Cons.prems(2)
  obtain t where t: "handle_event L T p ev (put_world w s) = Done (ok_code ev, t)" "goes ?w s t"
    by (auto simp: ensures_iff goes_put)
  then have "hds t p = Some H" "world t = ?w" using Cons.prems(1) by (simp_all add: goes_hds) (simp add: goes_def)
  with Cons.IH [OF this(1), of ?w] Cons.prems(2) show ?case
    by (auto simp: run_deliver_Cons t(1) elim!: ensures_mono intro: goes_trans [OF t(2)])
qed

text \<open>The same for the probes of one statement.\<close>

lemma listProbe_acts:
  assumes T: "acts T i procs f" and proc: "proc \<in> procs" and H: "hds s p = Some H" "hd_interp H = Some i"
  shows "ensures (drive world put_world (listProbe T p proc args) (deliver pds rc w) s)
    (\<lambda>(c, t). c = rc \<and> goes (fold (\<lambda>pd. f [proc, formatProbeDesc H pd, args]) pds w) s t)"
  using H(1)
proof (induction pds arbitrary: s w)
  case Nil
  then show ?case by (simp add: deliver.simps)
next
  case (Cons pd pds)
  let ?w = "f [proc, formatProbeDesc H pd, args] w"
  from Cons.prems have s: "hds (put_world w s) p = Some H" by simp
  from CallbackEval_acts [OF T proc s H(2), of "[formatProbeDesc H pd, args]"]
  obtain t where t: "listProbe T p proc args pd (put_world w s) = Done (RetZero, t)" "goes ?w s t"
    using s by (fastforce simp: ensures_iff goes_put listProbe_def)
  then have "hds t p = Some H" "world t = ?w" using Cons.prems by (simp_all add: goes_hds) (simp add: goes_def)
  with Cons.IH [OF this(1), of ?w] show ?case
    by (auto simp: deliver.simps t(1) elim!: ensures_mono intro: goes_trans [OF t(2)])
qed

end
