(* ===== verification/Command_Frame.thy ===== *)
theory Command_Frame
  imports Intermediate
begin

text \<open>
  The beginning that the commands on a handle share: \<^verbatim>\<open>hd = get_hd(interp, objv[1]);
  handleCheck();\<close>, and for the commands on a compiled program \<^verbatim>\<open>get_pd\<close> with the check of
  its result and of the handle the program belongs to.
\<close>

definition checked :: "'w tcl \<Rightarrow> interp \<Rightarrow> tcl_obj list \<Rightarrow> tcl_obj \<Rightarrow> 'w st
    \<Rightarrow> (addr \<Rightarrow> handle_data \<Rightarrow> dtrace_hdl \<Rightarrow> 'w st \<Rightarrow> (int \<times> 'w st) exec) \<Rightarrow> (int \<times> 'w st) exec" where
  "checked T i objv ob s f =
     seq (get_hd T i ob s) (\<lambda>(po, s1).
       case po of
         None \<Rightarrow> Done (badHandle T i objv s1)
       | Some p \<Rightarrow>
           with_hd p s1 (\<lambda>H.
             case hdl H of
               None \<Rightarrow> Done (badHandle T i objv s1)
             | Some h \<Rightarrow> f p H h s1))"

definition checked_program :: "'w tcl \<Rightarrow> interp \<Rightarrow> tcl_obj list \<Rightarrow> tcl_obj \<Rightarrow> 'w st
    \<Rightarrow> (program_data \<Rightarrow> handle_data \<Rightarrow> dtrace_hdl \<Rightarrow> 'w st \<Rightarrow> (int \<times> 'w st) exec) \<Rightarrow> (int \<times> 'w st) exec" where
  "checked_program T i objv ob s f =
     seq (get_pd T i ob s) (\<lambda>(pdo, s1).
       case pdo of
         None \<Rightarrow> Done (fail T i (COMMAND T objv @ '' bad program handle'') [''HANDLE''] s1)
       | Some pd \<Rightarrow>
           with_hd (pd_hd pd) s1 (\<lambda>H.
             case hdl H of
               None \<Rightarrow> Done (badHandle T i objv s1)
             | Some h \<Rightarrow> f pd H h s1))"

text \<open>The states a command may leave when it only reports an error.\<close>

lemma fst_fail [simp]: "fst (fail T i msg codes s) = TCL_ERROR"
  by (simp add: fail_def)

lemma fst_objcFail [simp]: "fst (objcFail T i objv msg s) = TCL_ERROR"
  by (simp add: objcFail_def)

lemma fst_badHandle [simp]: "fst (badHandle T i objv s) = TCL_ERROR"
  by (simp add: badHandle_def)

lemma case_prod_fail [simp]: "(case fail T i msg codes s of (rc, s') \<Rightarrow> f rc s') = f TCL_ERROR (snd (fail T i msg codes s))"
  by (simp add: fail_def)

lemma case_prod_objcFail [simp]:
  "(case objcFail T i objv msg s of (rc, s') \<Rightarrow> f rc s') = f TCL_ERROR (snd (objcFail T i objv msg s))"
  by (simp add: objcFail_def)

lemma case_prod_badHandle [simp]:
  "(case badHandle T i objv s of (rc, s') \<Rightarrow> f rc s') = f TCL_ERROR (snd (badHandle T i objv s))"
  by (simp add: badHandle_def)

lemma checked_allows:
  assumes bad: "\<And>s1. books s1 = books s \<Longrightarrow> Q (TCL_ERROR, s1)"
    and good: "\<And>k p H h. Tcl_GetIntFromObj T ob = Inr k \<Longrightarrow> handle_of s i k = Some p \<Longrightarrow>
      hds s p = Some H \<Longrightarrow> hdl H = Some h \<Longrightarrow> allows (f p H h s) Q"
  shows "allows (checked T i objv ob s f) Q"
proof -
  have "Q (badHandle T i objv s1)" if "books s1 = books s" for s1
    using bad [of "snd (badHandle T i objv s1)"] that by (simp add: badHandle_def fail_def)
  with good show ?thesis
    unfolding checked_def
    by (auto intro!: allows_mono [OF get_hd_allows] allows_with_hd split: option.splits)
qed

lemma checked_program_allows:
  assumes bad: "\<And>s1. books s1 = books s \<Longrightarrow> Q (TCL_ERROR, s1)"
    and good: "\<And>k pd H h. Tcl_GetIntFromObj T ob = Inr k \<Longrightarrow> program_of s i k = Some pd \<Longrightarrow>
      hds s (pd_hd pd) = Some H \<Longrightarrow> hdl H = Some h \<Longrightarrow> allows (f pd H h s) Q"
  shows "allows (checked_program T i objv ob s f) Q"
proof -
  have "Q (badHandle T i objv s1)" "Q (fail T i msg codes s1)" if "books s1 = books s" for s1 msg codes
    using bad [of "snd (badHandle T i objv s1)"] bad [of "snd (fail T i msg codes s1)"] that
    by (simp_all add: badHandle_def fail_def)
  with good show ?thesis
    unfolding checked_program_def
    by (auto intro!: allows_mono [OF get_pd_allows] allows_with_hd split: option.splits)
qed

text \<open>A command keeps a property if its body does.\<close>

context counted begin

lemma checked_P:
  assumes "P s" and "here i"
    and "\<And>k p H h. Tcl_GetIntFromObj T ob = Inr k \<Longrightarrow> handle_of s i k = Some p \<Longrightarrow> home p \<Longrightarrow>
      hds s p = Some H \<Longrightarrow> hdl H = Some h \<Longrightarrow> allows (f p H h s) (\<lambda>(rc, t). P t)"
  shows "allows (checked T i objv ob s f) (\<lambda>(rc, t). P t)"
proof -
  have "home p" if "handle_of s i k = Some p" for k p
    using that counted_home [OF assms(1,2)] by (auto simp: handle_of_owns)
  then show ?thesis
    by (intro checked_allows) (use assms(3) counted_booksI [OF assms(1)] in simp_all)
qed

lemma checked_program_P:
  assumes "P s" and "here i"
    and "\<And>k pd H h. Tcl_GetIntFromObj T ob = Inr k \<Longrightarrow> program_of s i k = Some pd \<Longrightarrow> home (pd_hd pd) \<Longrightarrow>
      hds s (pd_hd pd) = Some H \<Longrightarrow> hdl H = Some h \<Longrightarrow> allows (f pd H h s) (\<lambda>(rc, t). P t)"
  shows "allows (checked_program T i objv ob s f) (\<lambda>(rc, t). P t)"
proof -
  have "home (pd_hd pd)" if "program_of s i k = Some pd" for k pd
    using that wf_prog_owner [OF counted_wf [OF assms(1)]] counted_home [OF assms(1,2)]
    by (fastforce simp: program_of_has)
  then show ?thesis
    by (intro checked_program_allows) (use assms(3) counted_booksI [OF assms(1)] in simp_all)
qed

end

text \<open>
  The lookup that succeeds: an integer that names an open handle of the interpreter.
\<close>

definition open_handle :: "'w tcl \<Rightarrow> interp \<Rightarrow> tcl_obj \<Rightarrow> 'w st \<Rightarrow> addr \<Rightarrow> bool" where
  "open_handle T i ob s p \<longleftrightarrow>
     (\<exists>k. Tcl_GetIntFromObj T ob = Inr k \<and> handle_of s i k = Some p) \<and> ready p s"

lemma checked_open:
  assumes "wf_st s" and "open_handle T i ob s p"
  obtains H h where "hds s p = Some H" "hdl H = Some h" "\<And>objv f. checked T i objv ob s f = f p H h s"
proof -
  from assms(2) obtain k H h where k: "Tcl_GetIntFromObj T ob = Inr k" "handle_of s i k = Some p"
    and H: "hds s p = Some H" "hdl H = Some h"
    by (auto simp: open_handle_def ready_def)
  from k(2) have "assoc s i \<noteq> None" by (auto simp: handle_of_owns)
  with k H assms(1) have "checked T i objv ob s f = f p H h s" for objv f
    by (simp add: checked_def get_hd_int)
  with H show ?thesis by (rule that)
qed

text \<open>The lookup that fails because no handle of that number is open.\<close>

lemma checked_unknown:
  assumes "wf_st s" and "assoc s i \<noteq> None" and "Tcl_GetIntFromObj T ob = Inr k" and "handle_of s i k = None"
  shows "checked T i objv ob s f = Done (badHandle T i objv s)"
  using assms by (simp add: checked_def get_hd_int)

text \<open>Outside of the lookup a command on a handle never panics before its body runs.\<close>

lemma checked_ensures:
  assumes "wf_st s" and "assoc s i \<noteq> None"
    and bad: "\<And>s1. core s1 = core s \<Longrightarrow> Q (TCL_ERROR, s1)"
    and good: "\<And>k p H h. Tcl_GetIntFromObj T ob = Inr k \<Longrightarrow> handle_of s i k = Some p \<Longrightarrow>
      hds s p = Some H \<Longrightarrow> hdl H = Some h \<Longrightarrow> ensures (f p H h s) Q"
  shows "ensures (checked T i objv ob s f) Q"
proof -
  have b: "Q (badHandle T i objv s1)" if "core s1 = core s" for s1
    using bad [of "snd (badHandle T i objv s1)"] that by (simp add: badHandle_def fail_def)
  show ?thesis
  proof (cases "Tcl_GetIntFromObj T ob")
    case (Inl msg)
    then show ?thesis using b by (simp add: checked_def get_hd_no_int)
  next
    case (Inr k)
    show ?thesis
    proof (cases "handle_of s i k")
      case None
      with Inr assms(1,2) show ?thesis using b by (simp add: checked_unknown)
    next
      case (Some p)
      then have "\<exists>H. hds s p = Some H"
        unfolding handle_of_owns by (blast dest: wf_owns_live [OF assms(1)])
      then obtain H where H: "hds s p = Some H" by blast
      show ?thesis
      proof (cases "hdl H")
        case None
        with Inr Some H assms(1,2) show ?thesis using b by (simp add: checked_def get_hd_int)
      next
        case (Some h)
        with Inr \<open>handle_of s i k = Some p\<close> H assms(1,2) good show ?thesis
          by (simp add: checked_def get_hd_int)
      qed
    qed
  qed
qed

end
