(* ===== verification/Cmd_Handle.thy ===== *)
theory Cmd_Handle
  imports Command_Frame
begin

text \<open>
  The commands that make, close and configure a handle: \<^verbatim>\<open>Open\<close>, \<^verbatim>\<open>Close\<close> and
  \<^verbatim>\<open>Configure\<close> of \<^verbatim>\<open>generic/dtrace.c\<close>.
\<close>

section \<open>Open\<close>

text \<open>The macro \<^verbatim>\<open>OpenThrow\<close>: the handle is closed and forgotten, then the error is reported.\<close>

definition OpenThrow :: "'w libdtrace \<Rightarrow> 'w tcl \<Rightarrow> interp \<Rightarrow> tcl_obj list \<Rightarrow> addr \<Rightarrow> int \<Rightarrow> string \<Rightarrow> string
    \<Rightarrow> 'w st \<Rightarrow> (int \<times> 'w st) exec" where
  "OpenThrow L T i objv p idn code msg s =
     with_handle p s (\<lambda>h.
       seq (del_hd T i (IntObj idn) (put_world (dtrace_close L h (world s)) s)) (\<lambda>s1.
         Done (fail T i (COMMAND T objv @ msg) [code] s1)))"

definition default_options :: "(string \<times> string) list" where
  "default_options = [(''bufsize'', ''4m''), (''aggsize'', ''4m'')]"

text \<open>The conditions of the first \<^verbatim>\<open>if\<close>: tried from the left until one is refused.\<close>

fun set_defaults :: "'w libdtrace \<Rightarrow> dtrace_hdl \<Rightarrow> (string \<times> string) list \<Rightarrow> 'w \<Rightarrow> bool \<times> 'w" where
  "set_defaults L h [] w = (True, w)"
| "set_defaults L h ((opname, val) # rest) w =
     (case dtrace_setopt L h opname val w of
        (rc, w1) \<Rightarrow> if rc \<noteq> 0 then (False, w1) else set_defaults L h rest w1)"

definition handlers_to_establish :: "'w libdtrace \<Rightarrow> ((dtrace_hdl \<Rightarrow> addr \<Rightarrow> 'w \<Rightarrow> int \<times> 'w) \<times> string) list" where
  "handlers_to_establish L =
     [(dtrace_handle_err L, '' failed to establish error handler''),
      (dtrace_handle_drop L, '' failed to establish drop handler''),
      (dtrace_handle_proc L, '' failed to establish proc handler''),
      (dtrace_handle_buffered L, '' failed to establish buffered handler'')]"

fun establish :: "((dtrace_hdl \<Rightarrow> addr \<Rightarrow> 'w \<Rightarrow> int \<times> 'w) \<times> string) list \<Rightarrow> dtrace_hdl \<Rightarrow> addr \<Rightarrow> 'w \<Rightarrow> string option \<times> 'w" where
  "establish [] h p w = (None, w)"
| "establish ((reg, msg) # rest) h p w =
     (case reg h p w of (rc, w1) \<Rightarrow> if rc = - 1 then (Some msg, w1) else establish rest h p w1)"

text \<open>The body of \<^verbatim>\<open>Open\<close> once libdtrace has given a handle.\<close>

definition open_setup :: "'w libdtrace \<Rightarrow> 'w tcl \<Rightarrow> interp \<Rightarrow> tcl_obj list \<Rightarrow> addr \<Rightarrow> int \<Rightarrow> 'w st \<Rightarrow> (int \<times> 'w st) exec" where
  "open_setup L T i objv p idn s =
     with_handle p s (\<lambda>h.
       case set_defaults L h default_options (world s) of
         (False, w) \<Rightarrow> OpenThrow L T i objv p idn ''OPTION'' '' can't set default options '' (put_world w s)
       | (True, w) \<Rightarrow>
           seq (set_options L p
                  (map (\<lambda>(x, y). (Tcl_GetString T x, Tcl_GetString T y)) (pairs_of (drop 1 objv)))
                  (put_world w s)) (\<lambda>(bad, s1).
             case bad of
               Some opname \<Rightarrow>
                 OpenThrow L T i objv p idn ''OPTION'' ('' bad option initialization '' @ opname) s1
             | None \<Rightarrow>
                 with_handle p s1 (\<lambda>h1.
                   case establish (handlers_to_establish L) h1 p (world s1) of
                     (Some msg, w1) \<Rightarrow> OpenThrow L T i objv p idn ''LIB'' msg (put_world w1 s1)
                   | (None, w1) \<Rightarrow>
                       with_hd p (put_world w1 s1) (\<lambda>H.
                         Done (TCL_OK, set_result i (IntObj idn) (put_hd p (H\<lparr>hd_interp := Some i\<rparr>) (put_world w1 s1)))))))"

text \<open>The last argument of an even number of words says whether to instrument.\<close>

definition open_nodev :: "'w tcl \<Rightarrow> tcl_obj list \<Rightarrow> string + bool" where
  "open_nodev T objv =
     (if 1 < length objv \<and> even (length objv) then
        (case boolean_rep T (objv ! (length objv - 1)) of
           Inl msg \<Rightarrow> Inl msg
         | Inr instrument \<Rightarrow> Inr (\<not> instrument))
      else Inr False)"

definition Open :: "'w libdtrace \<Rightarrow> 'w tcl \<Rightarrow> interp \<Rightarrow> tcl_obj list \<Rightarrow> 'w st \<Rightarrow> (int \<times> 'w st) exec" where
  "Open L T i objv s =
     (case open_nodev T objv of
        Inl msg \<Rightarrow> Done (fail T i (newline @ COMMAND T objv @ '' bad usage'') [''USAGE''] (set_result i (StrObj msg) s))
      | Inr nodev \<Rightarrow>
          seq (new_hd i s) (\<lambda>((po, idn), s1).
            case po of
              None \<Rightarrow> Done (TCL_ERROR, append_result T i (COMMAND T objv @ '' problems creating a handle - bug or OOM'') s1)
            | Some p \<Rightarrow>
                (case dtrace_open L nodev (world s1) of
                   (Inl errnum, w) \<Rightarrow>
                     seq (del_hd T i (IntObj idn) (put_world w s1)) (\<lambda>s2.
                       Done (fail T i (COMMAND T objv @ '' libdtrace error: '' @ dtrace_errmsg L None errnum (world s2))
                               [''LIB'', snprintf 16 (dec_int errnum)] s2))
                 | (Inr h, w) \<Rightarrow>
                     with_hd p (put_world w s1) (\<lambda>H.
                       open_setup L T i objv p idn (put_hd p (H\<lparr>hdl := Some h\<rparr>) (put_world w s1))))))"

section \<open>Close\<close>

text \<open>The loop that drops the references to callbacks and their arguments.\<close>

fun release_slots :: "(tcl_obj option \<times> tcl_obj option) list \<Rightarrow> 'w st \<Rightarrow> 'w st exec" where
  "release_slots [] s = Done s"
| "release_slots ((None, _) # rest) s = release_slots rest s"
| "release_slots ((Some c, Some a) # rest) s = release_slots rest (decr_refs [c, a] s)"
| "release_slots ((Some c, None) # rest) s = Fault ''NULL argument object''"

definition Close :: "'w libdtrace \<Rightarrow> 'w tcl \<Rightarrow> interp \<Rightarrow> tcl_obj list \<Rightarrow> 'w st \<Rightarrow> (int \<times> 'w st) exec" where
  "Close L T i objv s =
     (if length objv \<noteq> 2 then Done (objcFail T i objv ''handle'' s)
      else checked T i objv (objv ! 1) s (\<lambda>p H h s1.
        let s2 = put_hd p (H\<lparr>hdl := None\<rparr>) (put_world (dtrace_close L h (world s1)) s1) in
        seq (release_slots (zip (cb_procs H) (cb_args H)) s2) (\<lambda>s3.
          seq (del_hd T i (objv ! 1) s3) (\<lambda>s4. Done (TCL_OK, s4)))))"

section \<open>Configure\<close>

definition Configure :: "'w libdtrace \<Rightarrow> 'w tcl \<Rightarrow> interp \<Rightarrow> tcl_obj list \<Rightarrow> 'w st \<Rightarrow> (int \<times> 'w st) exec" where
  "Configure L T i objv s =
     (if \<not> (even (length objv) \<or> length objv = 3) then
        Done (objcFail T i objv ''handle ?option value ...?'' s)
      else checked T i objv (objv ! 1) s (\<lambda>p H h s1.
        if length objv = 2 then
          seq (get_options L p basic_options s1) (\<lambda>(vals, s2).
            case vals of
              None \<Rightarrow> Done (fail T i (COMMAND T objv @ '' a basic option failed, this sould never happen!'') [''BUG''] s2)
            | Some vs \<Rightarrow> Done (TCL_OK, set_result i (ListObj vs) s2))
        else if length objv = 3 then
          seq (get_option L p (Tcl_GetString T (objv ! 2)) s1) (\<lambda>(val, s2).
            case val of
              None \<Rightarrow> Done (fail T i (COMMAND T objv @ '' bad option '' @ Tcl_GetString T (objv ! 2)) [''OPTION''] s2)
            | Some v \<Rightarrow> Done (TCL_OK, set_result i (StrObj v) s2))
        else
          seq (set_options L p
                 (map (\<lambda>(x, y). (Tcl_GetString T x, Tcl_GetString T y)) (pairs_of (drop 2 objv))) s1) (\<lambda>(bad, s2).
            case bad of
              Some opname \<Rightarrow> Done (fail T i (COMMAND T objv @ '' bad option change '' @ opname) [''OPTION''] s2)
            | None \<Rightarrow> Done (TCL_OK, s2))))"

section \<open>What Open does\<close>

text \<open>
  The states between \<open>new_hd\<close> and the end of \<^verbatim>\<open>Open\<close>: \<open>s\<close> plus one handle, under a new
  number, at a new address, whose structure is zero but for the libdtrace handle and the flag
  an option may have set.
\<close>

definition fresh_hd :: "dtrace_hdl option \<Rightarrow> int \<Rightarrow> handle_data" where
  "fresh_hd h n = zero_hd\<lparr>hdl := h, foldpdesc := n\<rparr>"

lemma fresh_hd_simps [simp]:
  "(fresh_hd h n)\<lparr>hdl := h'\<rparr> = fresh_hd h' n" "(fresh_hd h n)\<lparr>foldpdesc := m\<rparr> = fresh_hd h m"
  "hdl (fresh_hd h n) = h" "foldpdesc (fresh_hd h n) = n" "fresh_hd None 0 = zero_hd"
  by (simp_all add: fresh_hd_def zero_hd_def)

definition half_open :: "'w st \<Rightarrow> interp \<Rightarrow> 'w st \<Rightarrow> bool" where
  "half_open s i t \<longleftrightarrow> wf_st t \<and>
     (\<exists>d. assoc s i = Some d \<and>
        (\<forall>d' k p. owns t d' k p \<longleftrightarrow> (d' = d \<and> k = next_free_id s \<and> p = brk s) \<or> owns s d' k p)) \<and>
     has_prog t = has_prog s \<and> assoc t = assoc s \<and> next_free_id t = next_free_id s + 1 \<and>
     next_free_pid t = next_free_pid s \<and> brk t = brk s + 1 \<and> refs t = refs s \<and>
     (\<exists>h n. hds t = (hds s)(brk s \<mapsto> fresh_hd h n))"

definition opened :: "'w st \<Rightarrow> interp \<Rightarrow> 'w st \<Rightarrow> bool" where
  "opened s i t \<longleftrightarrow>
     (\<exists>d. assoc s i = Some d \<and>
        (\<forall>d' k p. owns t d' k p \<longleftrightarrow> (d' = d \<and> k = next_free_id s \<and> p = brk s) \<or> owns s d' k p)) \<and>
     has_prog t = has_prog s \<and> assoc t = assoc s \<and> next_free_id t = next_free_id s + 1 \<and>
     next_free_pid t = next_free_pid s \<and> refs t = refs s \<and>
     (\<exists>h n. hds t = (hds s)(brk s \<mapsto> (fresh_hd (Some h) n)\<lparr>hd_interp := Some i\<rparr>))"

text \<open>
  What becomes of the handle libdtrace gave: the new structure has it, or it was closed again, or
  there was none. In between there are plain calls of libdtrace.
\<close>

definition begun :: "'w libdtrace \<Rightarrow> 'w st \<Rightarrow> 'w st \<Rightarrow> bool" where
  "begun L s t \<longleftrightarrow> (\<exists>nodev h w H. dtrace_open L nodev (world s) = (Inr h, w) \<and>
     rtranclp (plain_call L) w (world t) \<and> hds t (brk s) = Some H \<and> hdl H = Some h)"

definition given_up :: "'w libdtrace \<Rightarrow> 'w \<Rightarrow> 'w \<Rightarrow> bool" where
  "given_up L v w \<longleftrightarrow> (\<exists>nodev e. dtrace_open L nodev v = (Inl e, w)) \<or>
     (\<exists>nodev h v1 v2. dtrace_open L nodev v = (Inr h, v1) \<and> rtranclp (plain_call L) v1 v2 \<and> w = dtrace_close L h v2)"

text \<open>A failed \<^verbatim>\<open>Open\<close> leaves every handle as it was but no program of the interpreter.\<close>

definition open_undone :: "'w st \<Rightarrow> interp \<Rightarrow> 'w st \<Rightarrow> bool" where
  "open_undone s i t \<longleftrightarrow> owns t = owns s \<and> hds t = hds s \<and> assoc t = assoc s \<and> refs t = refs s \<and>
     next_free_id t = next_free_id s + 1 \<and> next_free_pid t = next_free_pid s \<and>
     (\<exists>d. assoc s i = Some d \<and> (\<forall>d' k pd. has_prog t d' k pd \<longleftrightarrow> has_prog s d' k pd \<and> d' \<noteq> d))"

lemma begun_calls: "begun L s t \<Longrightarrow> rtranclp (plain_call L) (world t) w \<Longrightarrow> begun L s (put_world w t)"
  unfolding begun_def using rtranclp_trans by fastforce

lemma begun_put: "begun L s t \<Longrightarrow> (\<And>K. hds t (brk s) = Some K \<Longrightarrow> hdl H = hdl K) \<Longrightarrow> begun L s (put_hd (brk s) H t)"
  unfolding begun_def by (auto; blast)

lemma begun_given_up:
  "begun L s t \<Longrightarrow> hds t (brk s) = Some H \<Longrightarrow> hdl H = Some h \<Longrightarrow> given_up L (world s) (dtrace_close L h (world t))"
  unfolding begun_def given_up_def by (auto; blast)

lemma begun_options:
  assumes "begun L s t"
  shows "allows (set_options L (brk s) opts t) (\<lambda>(bad, u). begun L s u)"
  using assms
proof (induction opts arbitrary: t)
  case Nil
  then show ?case by simp
next
  case (Cons ov rest)
  obtain opname val where ov: "ov = (opname, val)" by force
  have "allows (set_option L (brk s) opname val t) (\<lambda>(ok, u). begun L s u)"
    using Cons.prems by (auto simp: set_option_def intro!: allows_with_hd allows_with_handle begun_put split: prod.splits)
      (auto intro: begun_calls plain_call.intros)
  then show ?case
    unfolding ov by (auto intro!: Cons.IH elim!: allows_mono)
qed

lemma set_defaults_calls: "set_defaults L h opts v = (ok, w) \<Longrightarrow> rtranclp (plain_call L) v w"
  by (induction L h opts v rule: set_defaults.induct)
    (auto split: prod.splits if_splits intro: plain_call.intros converse_rtranclp_into_rtranclp)

lemma establish_calls: "establish (handlers_to_establish L) h p v = (msg, w) \<Longrightarrow> rtranclp (plain_call L) v w"
proof -
  have "rtranclp (plain_call L) v w"
    if "establish hs h p v = (msg, w)" "\<forall>reg \<in> fst ` set hs. \<forall>h p v. plain_call L v (snd (reg h p v))" for hs h v
    using that
    by (induction hs h p v rule: establish.induct)
      (auto split: prod.splits if_splits, (metis snd_conv r_into_rtranclp converse_rtranclp_into_rtranclp)+)
  moreover have "\<forall>reg \<in> fst ` set (handlers_to_establish L). \<forall>h p v. plain_call L v (snd (reg h p v))"
    by (auto simp: handlers_to_establish_def intro: plain_call.intros(3-6) [OF surjective_pairing])
  ultimately show "establish (handlers_to_establish L) h p v = (msg, w) \<Longrightarrow> rtranclp (plain_call L) v w" by blast
qed

lemma half_open_created:
  assumes "created s i t" and "wf_st t"
  shows "half_open s i t"
  using assms fresh_hd_simps(5) unfolding half_open_def created_def by metis

lemma half_open_world [simp]: "half_open s i (put_world w t) = half_open s i t"
proof -
  have "owns (put_world w t) = owns t" "has_prog (put_world w t) = has_prog t"
    by (simp_all add: fun_eq_iff owns_def has_prog_def)
  then show ?thesis by (simp add: half_open_def) (simp add: put_world_def)
qed

lemma half_open_options:
  assumes t: "half_open s i t" and u: "same_but_option (brk s) t u" "wf_st u"
  shows "half_open s i u"
proof -
  from u(1) have "owns u = owns t" "has_prog u = has_prog t"
    by (simp_all add: fun_eq_iff owns_def has_prog_def same_but_option_def)
  moreover from t obtain h n where "hds t = (hds s)(brk s \<mapsto> fresh_hd h n)"
    by (auto simp: half_open_def)
  with u(1) obtain m where "hds u = (hds s)(brk s \<mapsto> fresh_hd h m)"
    by (auto simp: same_but_option_def)
  ultimately show ?thesis
    using t u by (auto simp: half_open_def same_but_option_def)
qed

lemma half_open_put_handle:
  assumes t: "half_open s i t" and H: "hds t (brk s) = Some H"
  shows "half_open s i (put_hd (brk s) (H\<lparr>hdl := Some h\<rparr>) t)"
proof -
  have wfH: "wf_hd (H\<lparr>hdl := Some h\<rparr>)"
    using wf_live_hd [of t "brk s" H] t H
    by (simp add: half_open_def wf_hd_def vec_wf_def slots_wf_def cells_of_def)
  have eqs: "owns (put_hd (brk s) H' t) = owns t" "has_prog (put_hd (brk s) H' t) = has_prog t" for H'
    by (simp_all add: fun_eq_iff owns_def has_prog_def)
  from t H have "wf_st (put_hd (brk s) (H\<lparr>hdl := Some h\<rparr>) t)"
    using wf_put_hd [OF _ H wfH] by (simp add: half_open_def)
  with t H show ?thesis
    unfolding half_open_def eqs by (auto simp: put_hd_def) blast
qed

lemma half_open_del:
  assumes s: "wf_st s" and t: "half_open s i t"
  shows "allows (del_hd T i (IntObj (next_free_id s)) t) (\<lambda>u. wf_st u \<and> open_undone s i u \<and> world u = world t)"
proof -
  have "open_undone s i u \<and> world u = world t"
    if rem: "removed t d (next_free_id s) p u" and d: "assoc t i = Some d" and p: "owns t d (next_free_id s) p" for d p u
  proof -
    from t p have p: "p = brk s" using wf_fresh_id [OF s] by (auto simp: half_open_def)
    have "owns u = owns s"
      using rem t wf_fresh_id [OF s] by (auto simp: fun_eq_iff removed_def half_open_def)
    moreover have "hds u = hds s"
      using rem t p wf_fresh_addr [OF s] by (auto simp: removed_def half_open_def)
    ultimately show ?thesis
      using rem t d by (auto simp: open_undone_def removed_def half_open_def)
  qed
  moreover have "wf_st t" using t by (simp add: half_open_def)
  ultimately show ?thesis
    by (intro allows_mono [OF del_hd_allows]) auto
qed

lemma open_undone_core:
  assumes "core u' = core u" and "refs u' = refs u"
  shows "open_undone s i u' = open_undone s i u"
  by (simp add: open_undone_def owns_core [OF assms(1)] has_prog_core [OF assms(1)] core_eqD [OF assms(1)] assms(2))

text \<open>Every way out of \<^verbatim>\<open>Open\<close>, on a well-formed state.\<close>

definition open_post :: "'w libdtrace \<Rightarrow> 'w st \<Rightarrow> interp \<Rightarrow> int \<times> 'w st \<Rightarrow> bool" where
  "open_post L s i x \<longleftrightarrow> wf_st (snd x) \<and>
     (fst x = TCL_OK \<and> opened s i (snd x) \<and> begun L s (snd x) \<and> result (snd x) i = IntObj (next_free_id s) \<or>
      fst x = TCL_ERROR \<and>
        (books (snd x) = books s \<or> open_undone s i (snd x) \<and> given_up L (world s) (world (snd x))))"

lemma open_post_undone:
  assumes "wf_st u" and "open_undone s i u" and "given_up L (world s) (world u)"
  shows "open_post L s i (fail T i msg codes u)"
proof -
  have "refs (snd (fail T i msg codes u)) = refs u" "world (snd (fail T i msg codes u)) = world u"
    by (simp_all add: fail_def result_ops_defs)
  with assms open_undone_core [of "snd (fail T i msg codes u)" u s i] show ?thesis
    by (simp add: open_post_def)
qed

lemma half_open_wf: "half_open s i t \<Longrightarrow> wf_st t"
  by (simp add: half_open_def)

lemma half_open_live: "half_open s i t \<Longrightarrow> \<exists>h n. hds t (brk s) = Some (fresh_hd h n)"
  unfolding half_open_def by (metis fun_upd_same)

lemma OpenThrow_post:
  assumes s: "wf_st s" and t: "half_open s i t" and b: "begun L s t"
  shows "allows (OpenThrow L T i objv (brk s) (next_free_id s) code msg t) (open_post L s i)"
proof -
  have "allows (del_hd T i (IntObj (next_free_id s)) (put_world w t)) (\<lambda>u. open_post L s i (fail T i m codes u))"
    if "given_up L (world s) w" for w m codes
    by (rule allows_mono [OF half_open_del [OF s]]) (use t that open_post_undone in auto)
  with begun_given_up [OF b] show ?thesis
    unfolding OpenThrow_def by (auto intro!: allows_with_handle)
qed

lemma half_open_finish:
  assumes s: "wf_st s" and t: "half_open s i t" and H: "hds t (brk s) = Some H" "hdl H = Some h" and b: "begun L s t"
  shows "open_post L s i (TCL_OK, set_result i (IntObj k) (put_hd (brk s) (H\<lparr>hd_interp := Some i\<rparr>) t)) \<longleftrightarrow> k = next_free_id s"
proof -
  let ?H = "H\<lparr>hd_interp := Some i\<rparr>"
  let ?u = "set_result i (IntObj k) (put_hd (brk s) ?H t)"
  from t H obtain n where Hn: "H = fresh_hd (Some h) n" and hds: "hds t = (hds s)(brk s \<mapsto> H)"
    using half_open_live [OF t] by (auto simp: half_open_def)
  have "wf_hd ?H"
    using wf_live_hd [OF half_open_wf [OF t] H(1)] by (simp add: wf_hd_def vec_wf_def slots_wf_def cells_of_def)
  from wf_put_hd [OF half_open_wf [OF t] H(1) this] have "wf_st ?u" by simp
  moreover have "owns ?u = owns t" "has_prog ?u = has_prog t"
    by (simp_all add: fun_eq_iff owns_def has_prog_def)
  moreover have "hds ?u = (hds s)(brk s \<mapsto> (fresh_hd (Some h) n)\<lparr>hd_interp := Some i\<rparr>)"
    using hds Hn by simp
  moreover have "next_free_id ?u = next_free_id t" "next_free_pid ?u = next_free_pid t" "refs ?u = refs t"
    by (simp_all add: set_result_def put_hd_def)
  ultimately have "opened s i ?u"
    using t unfolding opened_def half_open_def by auto
  moreover have "begun L s ?u"
    using b H by (auto simp: begun_def)
  ultimately show ?thesis
    using \<open>wf_st ?u\<close> by (auto simp: open_post_def set_result_def)
qed

lemma open_setup_post:
  assumes s: "wf_st s" and t: "half_open s i t" and b: "begun L s t"
  shows "allows (open_setup L T i objv (brk s) (next_free_id s) t) (open_post L s i)"
proof -
  note calls = begun_calls [OF b set_defaults_calls] begun_calls [OF _ establish_calls]
  have opts: "allows (set_options L (brk s) opts (put_world w t)) (\<lambda>(bad, u). half_open s i u \<and> begun L s u)"
    if "begun L s (put_world w t)" for opts w
  proof -
    have h: "half_open s i (put_world w t)" using t by simp
    have "allows (set_options L (brk s) opts (put_world w t)) (\<lambda>(bad, u). half_open s i u)"
      by (rule allows_mono [OF set_options_allows [OF half_open_wf [OF h]]]) (auto intro: half_open_options [OF h])
    with begun_options [OF that] show ?thesis by (auto simp: allows_iff)
  qed
  have fin: "open_post L s i (TCL_OK, set_result i (IntObj (next_free_id s)) (put_hd (brk s) (H\<lparr>hd_interp := Some i\<rparr>) (put_world w u)))"
    if "half_open s i u" "hds u (brk s) = Some H" "hdl H \<noteq> None" "begun L s (put_world w u)" for u w H
    using half_open_finish [OF s, of i "put_world w u" H "the (hdl H)"] that by auto
  show ?thesis
    unfolding open_setup_def
    by (auto intro!: allows_with_handle allows_with_hd OpenThrow_post [OF s] allows_mono [OF opts] t fin calls
        split: prod.splits option.splits bool.splits)
qed

lemma Open_post:
  assumes s: "wf_st s"
  shows "allows (Open L T i objv s) (open_post L s i)"
proof -
  have new: "allows (new_hd i s) (\<lambda>((po, k), t). po = Some (brk s) \<and> k = next_free_id s \<and> half_open s i t \<and> world t = world s)"
    by (rule allows_mono [OF new_hd_allows [OF s]]) (auto intro: half_open_created simp: created_def)
  have usage: "open_post L s i (fail T i msg codes (set_result i ob s))" for msg codes ob
    using s by (simp add: open_post_def)
  have rest: "allows (open_setup L T i objv (brk s) (next_free_id s) (put_hd (brk s) (H\<lparr>hdl := Some h\<rparr>) (put_world w t))) (open_post L s i)"
    if "half_open s i t" "hds t (brk s) = Some H" "dtrace_open L nodev (world s) = (Inr h, w)" for t w H h nodev
  proof -
    have "begun L s (put_hd (brk s) (H\<lparr>hdl := Some h\<rparr>) (put_world w t))"
      using that by (auto simp: begun_def)
    then show ?thesis
      by (intro open_setup_post [OF s] half_open_put_handle) (use that in simp_all)
  qed
  have undone: "open_post L s i (fail T i msg codes u)"
    if "wf_st u" "open_undone s i u" "world u = w" "dtrace_open L nodev (world s) = (Inl e, w)" for u w nodev e msg codes
    using that by (intro open_post_undone) (auto simp: given_up_def)
  show ?thesis
    unfolding Open_def
    by (auto intro!: allows_mono [OF new] allows_with_hd usage allows_mono [OF half_open_del [OF s]]
        split: sum.splits prod.splits) (auto intro: rest undone)
qed

text \<open>What a script sees of the two outcomes.\<close>

lemma opened_lookups:
  assumes "opened s i u"
  shows "handle_of u i (next_free_id s) = Some (brk s)"
    and "k \<noteq> next_free_id s \<Longrightarrow> handle_of u j k = handle_of s j k"
    and "program_of u j m = program_of s j m"
proof -
  from assms obtain d where d: "assoc s i = Some d" "assoc u = assoc s" "has_prog u = has_prog s"
    and o: "\<And>d' k p. owns u d' k p \<longleftrightarrow> (d' = d \<and> k = next_free_id s \<and> p = brk s) \<or> owns s d' k p"
    by (auto simp: opened_def)
  show "handle_of u i (next_free_id s) = Some (brk s)" by (simp add: handle_of_owns d o)
  show "k \<noteq> next_free_id s \<Longrightarrow> handle_of u j k = handle_of s j k" by (rule handle_of_eqI) (simp_all add: d o)
  show "program_of u j m = program_of s j m" by (rule program_of_eqI) (simp_all add: d)
qed

lemma opened_structure:
  assumes "opened s i u"
  shows "\<exists>H h. hds u = (hds s)(brk s \<mapsto> H) \<and> hdl H = Some h \<and> hd_interp H = Some i \<and> grabbed H = [] \<and>
    cb_procs H = replicate CALLBACKS_COUNT None"
proof -
  from assms obtain h n where "hds u = (hds s)(brk s \<mapsto> (fresh_hd (Some h) n)\<lparr>hd_interp := Some i\<rparr>)"
    by (auto simp: opened_def)
  then show ?thesis
    by (intro exI [of _ "(fresh_hd (Some h) n)\<lparr>hd_interp := Some i\<rparr>"] exI [of _ h])
      (simp add: fresh_hd_def zero_hd_def grabbed_def cells_of_def)
qed

lemma refused_lookups:
  assumes "books u = books s \<or> open_undone s i u"
  shows "hds u = hds s" and "handle_of u j k = handle_of s j k"
proof -
  have "hds u = hds s \<and> owns u = owns s \<and> assoc u = assoc s"
  proof (cases "books u = books s")
    case True
    note True = books_core [OF True]
    then show ?thesis using core_eqD [OF True] owns_core [OF True] by simp
  next
    case False
    with assms show ?thesis by (simp add: open_undone_def)
  qed
  then show "hds u = hds s" "handle_of u j k = handle_of s j k"
    using handle_of_eqI [of u s k j] by simp_all
qed

text \<open>
  \<^verbatim>\<open>Open\<close> returns: only an option with an empty name, or a counter at its limit, is in
  the way.
\<close>

lemma set_options_total:
  assumes "hds s p = Some H" and "hdl H \<noteq> None" and "\<forall>ov \<in> set opts. fst ov \<noteq> []"
  shows "ensures (set_options L p opts s) (\<lambda>(bad, t). \<exists>H'. hds t p = Some H' \<and> hdl H' \<noteq> None)"
  using assms
proof (induction opts arbitrary: s H)
  case Nil
  then show ?case by auto
next
  case (Cons ov rest)
  obtain opname val where ov: "ov = (opname, val)" by force
  have "ensures (set_option L p opname val s) (\<lambda>(ok, t). \<exists>H'. hds t p = Some H' \<and> hdl H' \<noteq> None)"
    using Cons.prems by (auto simp: ov set_option_def split: prod.splits)
  then show ?case
    unfolding ov using Cons.IH Cons.prems(3) by (auto elim!: ensures_mono)
qed

lemma half_open_del_total:
  assumes "half_open s i t"
  shows "ensures (del_hd T i (IntObj (next_free_id s)) t) (\<lambda>_. True)"
proof -
  from assms obtain d where "assoc t i = Some d" "owns t d (next_free_id s) (brk s)"
    by (auto simp: half_open_def)
  from del_hd_spec [OF half_open_wf [OF assms] this(1) _ this(2), of T "IntObj (next_free_id s)"]
  show ?thesis by (auto elim: ensures_mono)
qed

lemma OpenThrow_total:
  assumes "half_open s i t" and "hds t (brk s) = Some H" and "hdl H \<noteq> None"
  shows "ensures (OpenThrow L T i objv (brk s) (next_free_id s) code msg t) (\<lambda>_. True)"
  using assms half_open_del_total [of s i "put_world w t" for w]
  by (auto simp: OpenThrow_def)

lemma open_setup_total:
  assumes t: "half_open s i t" and H: "hds t (brk s) = Some H" "hdl H \<noteq> None"
    and names: "\<forall>ov \<in> set (pairs_of (drop 1 objv)). Tcl_GetString T (fst ov) \<noteq> []"
  shows "ensures (open_setup L T i objv (brk s) (next_free_id s) t) (\<lambda>_. True)"
proof -
  let ?opts = "map (\<lambda>(x, y). (Tcl_GetString T x, Tcl_GetString T y)) (pairs_of (drop 1 objv))"
  have "\<forall>ov \<in> set ?opts. fst ov \<noteq> []" using names by auto
  have opts: "ensures (set_options L (brk s) ?opts (put_world w t))
      (\<lambda>(bad, u). half_open s i u \<and> (\<exists>H. hds u (brk s) = Some H \<and> hdl H \<noteq> None))" for w
  proof -
    have h: "half_open s i (put_world w t)" using t by simp
    have "allows (set_options L (brk s) ?opts (put_world w t)) (\<lambda>(bad, u). half_open s i u)"
      by (rule allows_mono [OF set_options_allows [OF half_open_wf [OF h]]]) (auto intro: half_open_options [OF h])
    moreover have "ensures (set_options L (brk s) ?opts (put_world w t))
        (\<lambda>(bad, u). \<exists>H. hds u (brk s) = Some H \<and> hdl H \<noteq> None)"
      using H \<open>\<forall>ov \<in> set ?opts. fst ov \<noteq> []\<close> by (intro set_options_total) auto
    ultimately show ?thesis by (auto simp: ensures_iff allows_iff)
  qed
  have thr: "ensures (OpenThrow L T i objv (brk s) (next_free_id s) code msg (put_world w u)) (\<lambda>_. True)"
    if "half_open s i u" "hds u (brk s) = Some H" "hdl H = Some h" for u w H h code msg
    using that by (intro OpenThrow_total) auto
  from thr have thr': "ensures (OpenThrow L T i objv (brk s) (next_free_id s) code msg u) (\<lambda>_. True)"
    if "half_open s i u" "hds u (brk s) = Some H" "hdl H = Some h" for u H h code msg
    using that by (metis put_world_id)
  from H obtain h where h: "hdl H = Some h" by auto
  show ?thesis
    unfolding open_setup_def
    using t H h thr thr'
    by (auto intro!: ensures_mono [OF opts] simp del: One_nat_def split: prod.splits bool.splits option.splits)
qed

lemma Open_total:
  assumes s: "wf_st s" and d: "assoc s i \<noteq> None" and room: "next_free_id s < INT_MAX"
    and names: "\<forall>ov \<in> set (pairs_of (drop 1 objv)). Tcl_GetString T (fst ov) \<noteq> []"
  shows "ensures (Open L T i objv s) (open_post L s i)"
proof -
  from d obtain d where "assoc s i = Some d" by auto
  from new_hd_spec [OF s this room]
  have new: "ensures (new_hd i s) (\<lambda>((po, k), t). po = Some (brk s) \<and> k = next_free_id s \<and> half_open s i t \<and>
      (\<exists>H. hds t (brk s) = Some H))"
    by (rule ensures_mono) (auto dest: half_open_created half_open_live)
  have del: "ensures (del_hd T i (IntObj (next_free_id s)) (put_world w t)) (\<lambda>_. True)" if "half_open s i t" for w t
    using that by (intro half_open_del_total) simp
  have rest: "ensures (open_setup L T i objv (brk s) (next_free_id s) (put_hd (brk s) (H\<lparr>hdl := Some h\<rparr>) (put_world w t))) (\<lambda>_. True)"
    if "half_open s i t" "hds t (brk s) = Some H" for t w H h
    using open_setup_total [OF half_open_put_handle [of s i "put_world w t" H h] _ _ names, of "H\<lparr>hdl := Some h\<rparr>" L] that
    by simp
  have "ensures (Open L T i objv s) (\<lambda>_. True)"
    unfolding Open_def
    by (auto intro!: ensures_mono [OF new] ensures_mono [OF del] rest split: sum.splits prod.splits)
  with Open_post [OF s] ensures_split [of _ "open_post L s i"] show ?thesis by blast
qed

section \<open>What Close does\<close>

text \<open>The objects a handle holds references to: a registered procedure and its argument.\<close>

fun held :: "(tcl_obj option \<times> tcl_obj option) list \<Rightarrow> tcl_obj list" where
  "held [] = []"
| "held ((Some c, Some a) # rest) = c # a # held rest"
| "held (_ # rest) = held rest"

definition slot_refs :: "handle_data \<Rightarrow> tcl_obj list" where
  "slot_refs H = held (zip (cb_procs H) (cb_args H))"

lemma decr_refs_append: "decr_refs ys (decr_refs xs s) = decr_refs (xs @ ys) s"
  by (simp add: decr_refs_def fun_eq_iff)

lemma decr_refs_Nil [simp]: "decr_refs [] s = s"
  by (simp add: decr_refs_def)

lemma release_slots_held:
  assumes "\<forall>(c, a) \<in> set slots. c = None \<longleftrightarrow> a = None"
  shows "release_slots slots s = Done (decr_refs (held slots) s)"
  using assms by (induction slots arbitrary: s rule: held.induct) (auto simp: decr_refs_append)

lemma wf_hd_slots:
  assumes "wf_hd H"
  shows "\<forall>(c, a) \<in> set (zip (cb_procs H) (cb_args H)). c = None \<longleftrightarrow> a = None"
  using assms by (auto simp: wf_hd_def slots_wf_def in_set_zip)

definition closed :: "'w libdtrace \<Rightarrow> 'w st \<Rightarrow> addr \<Rightarrow> int \<Rightarrow> addr \<Rightarrow> 'w st \<Rightarrow> bool" where
  "closed L s d k p u \<longleftrightarrow>
     (\<forall>d' k' p'. owns u d' k' p' \<longleftrightarrow> owns s d' k' p' \<and> k' \<noteq> k) \<and>
     (\<forall>d' k' pd. has_prog u d' k' pd \<longleftrightarrow> has_prog s d' k' pd \<and> d' \<noteq> d) \<and>
     hds u = (hds s)(p := None) \<and> next_free_id u = next_free_id s \<and> next_free_pid u = next_free_pid s \<and>
     assoc u = assoc s \<and> result u = result s \<and>
     world u = dtrace_close L (the (hdl (the (hds s p)))) (world s) \<and>
     refs u = refs (decr_refs (slot_refs (the (hds s p))) s)"

lemma closed_lookups:
  assumes "closed L s d k p u"
  shows "handle_of u j k = None" and "m \<noteq> k \<Longrightarrow> handle_of u j m = handle_of s j m"
    and "assoc s i = Some d \<Longrightarrow> program_of u i n = None"
proof -
  show "handle_of u j k = None" using assms by (intro handle_of_None) (simp add: closed_def)
  show "m \<noteq> k \<Longrightarrow> handle_of u j m = handle_of s j m"
    using assms by (intro handle_of_eqI) (simp_all add: closed_def)
  show "assoc s i = Some d \<Longrightarrow> program_of u i n = None"
    using assms program_of_has [of u i n] by (cases "program_of u i n") (auto simp: closed_def)
qed

lemma closed_hds: "closed L s d k p u \<Longrightarrow> hds u = (hds s)(p := None)"
  by (simp add: closed_def)

lemma Close_body:
  fixes L :: "'w libdtrace" and s :: "'w st"
  assumes wf: "wf_st s" and i: "assoc s i = Some d" and k: "Tcl_GetIntFromObj T ob = Inr k"
    and own: "owns s d k p" and H: "hds s p = Some H" "hdl H = Some h"
  defines "s2 \<equiv> put_hd p (H\<lparr>hdl := None\<rparr>) (put_world (dtrace_close L h (world s)) s)"
  shows "ensures (seq (release_slots (zip (cb_procs H) (cb_args H)) s2) (\<lambda>s3.
      seq (del_hd T i ob s3) (\<lambda>s4. Done (TCL_OK, s4)))) (\<lambda>(rc, u). rc = TCL_OK \<and> wf_st u \<and> closed L s d k p u)"
proof -
  let ?s3 = "decr_refs (slot_refs H) s2"
  have wfH: "wf_hd H" using wf_live_hd [OF wf H(1)] .
  then have "wf_hd (H\<lparr>hdl := None\<rparr>)" by (simp add: wf_hd_def vec_wf_def slots_wf_def cells_of_def)
  with wf H have "wf_st (put_hd p (H\<lparr>hdl := None\<rparr>) (put_world (dtrace_close L h (world s)) s))"
    using wf_put_hd [of "put_world (dtrace_close L h (world s)) s" p H] by simp
  then have wf3: "wf_st ?s3" by (simp add: s2_def)
  have eqs: "owns ?s3 = owns s" "has_prog ?s3 = has_prog s"
    by (simp_all add: fun_eq_iff owns_def has_prog_def s2_def)
  have i3: "assoc ?s3 i = Some d" using i by (simp add: s2_def)
  have own3: "owns ?s3 d k p" using own eqs by simp
  have sels: "hds ?s3 = (hds s)(p \<mapsto> H\<lparr>hdl := None\<rparr>)" "next_free_id ?s3 = next_free_id s"
    "next_free_pid ?s3 = next_free_pid s" "assoc ?s3 = assoc s" "result ?s3 = result s"
    "world ?s3 = dtrace_close L h (world s)" "refs ?s3 = refs (decr_refs (slot_refs H) s)"
    by (simp_all add: s2_def decr_refs_def put_hd_def put_world_def)
  have "closed L s d k p u" if "removed ?s3 d k p u" for u
    using that H unfolding removed_def closed_def eqs sels by simp
  then have "ensures (del_hd T i ob ?s3) (\<lambda>u. wf_st u \<and> closed L s d k p u)"
    by (auto intro: ensures_mono [OF del_hd_spec [OF wf3 i3 k own3]])
  then show ?thesis
    by (simp add: release_slots_held [OF wf_hd_slots [OF wfH]] slot_refs_def [symmetric])
qed

lemma Close_open:
  assumes "wf_st s" and "assoc s i = Some d" and "Tcl_GetIntFromObj T (objv ! 1) = Inr k"
    and "owns s d k p" and "ready p s" and "length objv = 2"
  shows "ensures (Close L T i objv s) (\<lambda>(rc, u). rc = TCL_OK \<and> wf_st u \<and> closed L s d k p u)"
proof -
  have "open_handle T i (objv ! 1) s p"
    using assms(2-5) by (auto simp: open_handle_def handle_of_owns)
  from checked_open [OF assms(1) this] obtain H h where H: "hds s p = Some H" "hdl H = Some h"
    and eq: "\<And>f. checked T i objv (objv ! 1) s f = f p H h s"
    by metis
  from Close_body [OF assms(1-4) H, of L] assms(6) show ?thesis
    unfolding Close_def Let_def eq by simp
qed

lemma Close_allows:
  assumes "wf_st s"
  shows "allows (Close L T i objv s) (\<lambda>(rc, u). wf_st u \<and>
    (books u = books s \<or> (\<exists>d k p. assoc s i = Some d \<and> owns s d k p \<and> closed L s d k p u)))"
proof -
  have "allows (seq (release_slots (zip (cb_procs H) (cb_args H))
      (put_hd p (H\<lparr>hdl := None\<rparr>) (put_world (dtrace_close L h (world s)) s))) (\<lambda>s3.
      seq (del_hd T i (objv ! 1) s3) (\<lambda>s4. Done (TCL_OK, s4)))) (\<lambda>(rc, u). wf_st u \<and>
    (books u = books s \<or> (\<exists>d k p. assoc s i = Some d \<and> owns s d k p \<and> closed L s d k p u)))"
    if k: "Tcl_GetIntFromObj T (objv ! 1) = Inr k" and "handle_of s i k = Some p" and H: "hds s p = Some H" "hdl H = Some h"
    for k p H h
  proof -
    from that(2) obtain d where d: "assoc s i = Some d" "owns s d k p" by (auto simp: handle_of_owns)
    show ?thesis
      by (rule allows_mono [OF ensures_allows [OF Close_body [OF assms d(1) k d(2) H, of L]]])
        (use d in blast)
  qed
  moreover have "wf_st s1" if "books s1 = books s" for s1
    using wf_core [OF books_core [OF that]] assms by simp
  ultimately show ?thesis
    using assms unfolding Close_def by (auto simp: Let_def intro!: checked_allows)
qed

section \<open>What Configure keeps\<close>

context counted begin

lemma Configure_P:
  assumes "P s" and "here i"
  shows "allows (Configure L T i objv s) (\<lambda>(rc, t). P t)"
  using assms unfolding Configure_def
  by (auto intro!: checked_P allows_mono [OF set_options_P] allows_mono [OF get_option_P]
      allows_mono [OF get_options_P] split: option.splits)

end

section \<open>What Configure does\<close>

text \<open>Setting options changes at most the flag of that one handle, and the world.\<close>

definition only_flag :: "'w st \<Rightarrow> addr option \<Rightarrow> 'w st \<Rightarrow> bool" where
  "only_flag s po u \<longleftrightarrow> dds u = dds s \<and> assoc u = assoc s \<and> next_free_id u = next_free_id s \<and>
     next_free_pid u = next_free_pid s \<and>
     (\<forall>q. hds u q = hds s q \<or> po = Some q \<and> (\<exists>H n. hds s q = Some H \<and> hds u q = Some (H\<lparr>foldpdesc := n\<rparr>)))"

lemma only_flag_core: "core u = core s \<Longrightarrow> only_flag s po u"
  by (simp add: only_flag_def core_def)

lemma only_flag_option: "same_but_option p s u \<Longrightarrow> only_flag s (Some p) u"
  by (cases "hds s p") (auto simp: only_flag_def same_but_option_def split: if_splits)

lemma Configure_frame:
  assumes wf: "wf_st s" and k: "Tcl_GetIntFromObj T (objv ! 1) = Inr k"
  shows "allows (Configure L T i objv s) (\<lambda>(rc, u). only_flag s (handle_of s i k) u)"
proof -
  have set: "allows (set_options L p opts s) (\<lambda>(bad, u). only_flag s (handle_of s i k) u)" if "handle_of s i k = Some p" for p opts
    by (rule allows_mono [OF set_options_allows [OF wf]]) (use that only_flag_option in auto)
  have get: "allows (get_option L p opname s) (\<lambda>(v, u). only_flag s (handle_of s i k) u)"
    "allows (get_options L p opts s) (\<lambda>(vs, u). only_flag s (handle_of s i k) u)" for p opname opts
    by (rule allows_mono [OF get_option_allows], use only_world_core only_flag_core in blast)
      (rule allows_mono [OF get_options_allows], use only_world_core only_flag_core in blast)
  have res: "only_flag s po (snd (fail T i msg codes u)) = only_flag s po u"
    "only_flag s po (set_result i ob u) = only_flag s po u" for po msg codes u ob
    by (simp_all add: only_flag_def core_eqD [OF core_fail]) (simp add: set_result_def)
  show ?thesis
    unfolding Configure_def using k
    by (auto simp: res only_flag_core dest: books_core intro!: checked_allows allows_mono [OF set] allows_mono [OF get(1)] allows_mono [OF get(2)]
        split: option.splits)
qed

text \<open>The flag of the extension, set and read back through the command.\<close>

lemma Configure_flag_roundtrip:
  assumes wf: "wf_st s" and p: "open_handle T i ob s p"
  shows "ensures (seq (Configure L T i [cmd, ob, StrObj ''-foldpdesc'', StrObj v] s)
      (\<lambda>(rc, t). Configure L T i [cmd, ob, StrObj ''-foldpdesc''] t))
    (\<lambda>(rc, u). rc = TCL_OK \<and> result u i = StrObj (if v = ''0'' then ''0'' else ''1''))"
proof -
  from checked_open [OF wf p] obtain H h where H: "hds s p = Some H" "hdl H = Some h"
    and eq: "\<And>objv f. checked T i objv ob s f = f p H h s"
    by blast
  let ?n = "if v = ''0'' then 0 else 1 :: int"
  let ?t = "put_hd p (H\<lparr>foldpdesc := ?n\<rparr>) s"
  have "wf_st ?t" using wf_put_hd [OF wf H(1)] wf_live_hd [OF wf H(1)] by simp
  moreover have "open_handle T i ob ?t p"
    using p H by (auto simp: open_handle_def ready_def handle_of_owns owns_def)
  ultimately obtain H' h' where H': "hds ?t p = Some H'" "hdl H' = Some h'"
    and eq': "\<And>objv f. checked T i objv ob ?t f = f p H' h' ?t"
    by (rule checked_open) blast
  have set: "Configure L T i [cmd, ob, StrObj ''-foldpdesc'', StrObj v] s = Done (TCL_OK, ?t)"
    unfolding Configure_def using H(1) by (simp add: eq set_option_def internal_option_def)
  have get: "Configure L T i [cmd, ob, StrObj ''-foldpdesc''] ?t =
      Done (TCL_OK, set_result i (StrObj (if v = ''0'' then ''0'' else ''1'')) ?t)"
    unfolding Configure_def using H(1) by (simp add: eq' get_option_def internal_option_def snprintf_def)
  show ?thesis unfolding set seq.simps by (simp add: get)
qed

end
