(* ===== verification/Cmd_Program.thy ===== *)
theory Cmd_Program
  imports Command_Frame
begin

text \<open>
  The commands on D programs: \<^verbatim>\<open>Compile\<close>, \<^verbatim>\<open>Exec\<close>, \<^verbatim>\<open>Info\<close> and \<^verbatim>\<open>List\<close> of
  \<^verbatim>\<open>generic/dtrace.c\<close>.
\<close>

section \<open>The operations\<close>

definition Compile :: "'w libdtrace \<Rightarrow> 'w tcl \<Rightarrow> interp \<Rightarrow> tcl_obj list \<Rightarrow> 'w st \<Rightarrow> (int \<times> 'w st) exec" where
  "Compile L T i objv s =
     (if length objv < 3 then Done (objcFail T i objv ''handle program ?argument0 argument1 ...?'' s)
      else checked T i objv (objv ! 1) s (\<lambda>p H h s1.
        case dtrace_program_strcompile L h (Tcl_GetString T (objv ! 2)) (map (Tcl_GetString T) (drop 3 objv)) (world s1) of
          (None, w) \<Rightarrow> libError L T i objv p (put_world w s1)
        | (Some prog, w) \<Rightarrow>
            seq (register_pd i p prog (put_world w s1)) (\<lambda>(ob, s2). Done (TCL_OK, set_result i ob s2))))"

text \<open>The dictionary of a program's properties; the fields are read as C integers.\<close>

definition info_list :: "proginfo \<Rightarrow> tcl_obj list" where
  "info_list info =
     [StrObj ''aggregates'', IntObj (as_int (dpi_aggregates info)),
      StrObj ''recgens'', IntObj (as_int (dpi_recgens info)),
      StrObj ''matches'', IntObj (as_int (dpi_matches info)),
      StrObj ''speculations'', IntObj (as_int (dpi_speculations info))]"

definition Exec_or_Info :: "'w libdtrace \<Rightarrow> 'w tcl \<Rightarrow> interp \<Rightarrow> tcl_obj list \<Rightarrow> bool \<Rightarrow> 'w st \<Rightarrow> (int \<times> 'w st) exec" where
  "Exec_or_Info L T i objv exec s =
     (if length objv \<noteq> 2 then Done (objcFail T i objv ''compiled_program'' s)
      else checked_program T i objv (objv ! 1) s (\<lambda>pd H h s1.
        case (if exec then dtrace_program_exec L h (compiled pd) (world s1)
              else (case dtrace_program_info L h (compiled pd) (world s1) of (info, w) \<Rightarrow> ((0, info), w))) of
          ((exec_result, info), w) \<Rightarrow>
            if exec_result = - 1 then
              Done (fail T i (COMMAND T objv @ '' failed enable the probe'') [''EXEC''] (put_world w s1))
            else Done (TCL_OK, set_result i (ListObj (info_list info)) (put_world w s1))))"

definition Exec :: "'w libdtrace \<Rightarrow> 'w tcl \<Rightarrow> interp \<Rightarrow> tcl_obj list \<Rightarrow> 'w st \<Rightarrow> (int \<times> 'w st) exec" where
  "Exec L T i objv s = Exec_or_Info L T i objv True s"

definition Info :: "'w libdtrace \<Rightarrow> 'w tcl \<Rightarrow> interp \<Rightarrow> tcl_obj list \<Rightarrow> 'w st \<Rightarrow> (int \<times> 'w st) exec" where
  "Info L T i objv s = Exec_or_Info L T i objv False s"

text \<open>
  \<^verbatim>\<open>::dtrace::list\<close>. What the iteration returns is ignored: the command succeeds.
\<close>

definition List_cmd :: "'w libdtrace \<Rightarrow> 'w tcl \<Rightarrow> interp \<Rightarrow> tcl_obj list \<Rightarrow> 'w st \<Rightarrow> (int \<times> 'w st) exec" where
  "List_cmd L T i objv s =
     (if length objv \<noteq> 4 then Done (objcFail T i objv ''compiled_program list_callback arg'' s)
      else checked_program T i objv (objv ! 1) s (\<lambda>pd H h s1.
        seq (drive (\<lambda>(prev, t). world t) (\<lambda>w (prev, t). (prev, put_world w t))
               (listStatement L T (pd_hd pd) h (objv ! 2) (objv ! 3))
               (dtrace_stmt_iter L h (compiled pd) (world s1)) (None, s1))
          (\<lambda>(rc, prev, s2). Done (TCL_OK, s2))))"

section \<open>What they keep\<close>

context counted begin

lemma Compile_P:
  assumes "P s" and "here i"
  shows "allows (Compile L T i objv s) (\<lambda>(rc, t). P t)"
proof -
  have reg: "allows (register_pd i p prog (put_world w s)) (\<lambda>(ob, t). P t)"
    if "handle_of s i k = Some p" "P (put_world w s)" for p k prog w
  proof -
    have "owns (put_world w s) = owns s" by (simp add: fun_eq_iff owns_def)
    with that assms show ?thesis by (intro register_pd_P) (auto simp: handle_of_owns)
  qed
  show ?thesis
    using assms unfolding Compile_def
    by (auto intro!: checked_P allows_mono [OF reg] libError_P split: prod.splits option.splits)
      (auto intro: counted_plain)
qed

lemma Exec_or_Info_P:
  assumes "P s" and "here i"
  shows "allows (Exec_or_Info L T i objv exec s) (\<lambda>(rc, t). P t)"
  using assms unfolding Exec_or_Info_def
  by (auto intro!: checked_program_P split: prod.splits) (auto intro: counted_plain)

lemma List_cmd_P:
  assumes T: "callbacks_allow T home P" and "P s" and "here i"
  shows "allows (List_cmd L T i objv s) (\<lambda>(rc, t). P t)"
proof -
  have d: "allows (drive (\<lambda>(prev, t). world t) (\<lambda>w (prev, t). (prev, put_world w t))
      (listStatement L T p h proc args) (dtrace_stmt_iter L h pr (world s)) (None, s)) (\<lambda>(rc, x). P (snd x))"
    if "home p" for p h proc args pr
    by (rule drive_allows [where P = "\<lambda>x. P (snd x)" and moves = moves])
      (use \<open>P s\<close> listStatement_P [OF T _ that] counted_world in \<open>auto split: prod.splits\<close>)
  show ?thesis
    using assms unfolding List_cmd_def
    by (auto intro!: checked_program_P allows_mono [OF d])
qed

end

section \<open>Compile\<close>

text \<open>A program that compiles is found under a number that was not in use in any interpreter.\<close>

lemma Compile_ok:
  assumes wf: "wf_st s" and n: "3 \<le> length objv" and p: "open_handle T i (objv ! 1) s p"
    and H: "hds s p = Some H" "hdl H = Some h"
    and prog: "dtrace_program_strcompile L h (Tcl_GetString T (objv ! 2))
      (map (Tcl_GetString T) (drop 3 objv)) (world s) = (Some prog, w)"
    and room: "next_free_pid s < INT_MAX"
  shows "ensures (Compile L T i objv s) (\<lambda>(rc, u). rc = TCL_OK \<and> wf_st u \<and>
    result u i = IntObj (next_free_pid s) \<and>
    program_of u i (next_free_pid s) = Some \<lparr>compiled = prog, pd_hd = p\<rparr> \<and>
    (\<forall>d pd. \<not> has_prog s d (next_free_pid s) pd) \<and> owns u = owns s \<and> hds u = hds s \<and> world u = w)"
proof -
  from checked_open [OF wf p] H have eq: "\<And>f. checked T i objv (objv ! 1) s f = f p H h s"
    by (metis option.inject)
  from p obtain d k where d: "assoc s i = Some d" "owns s d k p"
    by (auto simp: open_handle_def handle_of_owns)
  let ?s = "put_world w s"
  have s': "wf_st ?s" "assoc ?s i = Some d" "owns ?s d k p" "next_free_pid ?s = next_free_pid s" "owns ?s = owns s"
    using wf d by (simp_all add: owns_def put_world_def fun_eq_iff)
  have "program_of (set_result i (IntObj (next_free_pid s)) u) i (next_free_pid s) = Some \<lparr>compiled = prog, pd_hd = p\<rparr> \<and>
      owns (set_result i (IntObj (next_free_pid s)) u) = owns s \<and> hds u = hds s \<and> world u = w"
    if "registered ?s i p prog u" for u
    using that s' by (auto simp: registered_def program_of_has has_prog_def owns_def fun_eq_iff)
  then have "ensures (register_pd i p prog ?s) (\<lambda>(ob, u). ob = IntObj (next_free_pid s) \<and> wf_st u \<and>
      program_of (set_result i ob u) i (next_free_pid s) = Some \<lparr>compiled = prog, pd_hd = p\<rparr> \<and>
      owns (set_result i ob u) = owns s \<and> hds u = hds s \<and> world u = w)"
    using ensures_mono [OF register_pd_spec [OF s'(1-3), of prog]] s' room by fastforce
  then have "ensures (register_pd i p prog ?s) (\<lambda>(ob, u). wf_st (set_result i ob u) \<and>
      result (set_result i ob u) i = IntObj (next_free_pid s) \<and>
      program_of (set_result i ob u) i (next_free_pid s) = Some \<lparr>compiled = prog, pd_hd = p\<rparr> \<and>
      owns (set_result i ob u) = owns s \<and> hds (set_result i ob u) = hds s \<and> world (set_result i ob u) = w)"
    by (rule ensures_mono) auto
  with n prog wf_fresh_pid [OF wf] show ?thesis
    unfolding Compile_def eq by (auto elim: ensures_mono)
qed

section \<open>Exec and Info\<close>

text \<open>A program number that is accepted leads to the program and to an open handle.\<close>

lemma checked_program_open:
  assumes "wf_st s" and "Tcl_GetIntFromObj T ob = Inr k" and "program_of s i k = Some pd" and "ready (pd_hd pd) s"
  obtains H h where "hds s (pd_hd pd) = Some H" "hdl H = Some h"
    "\<And>objv f. checked_program T i objv ob s f = f pd H h s"
proof -
  from assms(4) obtain H h where H: "hds s (pd_hd pd) = Some H" "hdl H = Some h" by (auto simp: ready_def)
  from assms(3) have "assoc s i \<noteq> None" by (auto simp: program_of_has)
  with assms(1-3) H have "checked_program T i objv ob s f = f pd H h s" for objv f
    by (simp add: checked_program_def get_pd_int)
  with H show ?thesis by (rule that)
qed

lemma Exec_or_Info_world:
  assumes "wf_st s"
  shows "allows (Exec_or_Info L T i objv exec s) (\<lambda>(rc, u). core u = core s)"
  unfolding Exec_or_Info_def
  by (auto intro!: checked_program_allows dest: books_core split: prod.splits)

section \<open>List\<close>

text \<open>The statements of which the probes are listed: those that start a run with one description.\<close>

fun run_heads :: "addr option \<Rightarrow> ecbdesc list \<Rightarrow> ecbdesc list" where
  "run_heads prev [] = []"
| "run_heads prev (e # es) =
     (if prev = Some (ecb_addr e) then run_heads prev es else e # run_heads (Some (ecb_addr e)) es)"

lemma run_heads_remdups: "map ecb_addr (run_heads None es) = remdups_adj (map ecb_addr es)"
proof -
  have "map ecb_addr (run_heads (Some a) es) = tl (remdups_adj (a # map ecb_addr es))" for a es
    by (induction es arbitrary: a) auto
  then show ?thesis by (cases es) simp_all
qed

definition list_effect :: "(probedesc \<Rightarrow> probedesc list) \<Rightarrow> handle_data \<Rightarrow> tcl_obj \<Rightarrow> tcl_obj \<Rightarrow> (tcl_obj list \<Rightarrow> 'w \<Rightarrow> 'w)
    \<Rightarrow> ecbdesc list \<Rightarrow> 'w \<Rightarrow> 'w" where
  "list_effect probes H proc args f es w =
     fold (\<lambda>pd. f [proc, formatProbeDesc H pd, args]) (concat (map (probes \<circ> dted_probe) es)) w"

lemma listStatement_same: "listStatement L T p h proc args e (Some (ecb_addr e), s) = Done (RetZero, Some (ecb_addr e), s)"
  by (simp add: listStatement_def)

lemma listStatement_next:
  assumes "prev \<noteq> Some (ecb_addr e)" and T: "acts T i procs f" "proc \<in> procs" and H: "hds s p = Some H" "hd_interp H = Some i"
    and "dtrace_probe_iter L h (dted_probe e) (world s) = deliver pds 0 w"
  shows "ensures (listStatement L T p h proc args e (prev, s)) (\<lambda>(r, prev', t). prev' = Some (ecb_addr e) \<and>
    goes (fold (\<lambda>pd. f [proc, formatProbeDesc H pd, args]) pds w) s t)"
  using assms(1) by (auto simp: listStatement_def assms(6) elim!: ensures_mono intro!: ensures_mono [OF listProbe_acts [OF T H]])

lemma list_drive:
  assumes T: "acts T i procs f" "proc \<in> procs" and H: "hds s p = Some H" "hd_interp H = Some i"
    and probes: "\<And>pd w. dtrace_probe_iter L h pd w = deliver (probes pd) 0 w"
  shows "ensures (drive (\<lambda>(prev, t). world t) (\<lambda>w (prev, t). (prev, put_world w t)) (listStatement L T p h proc args)
      (deliver es rc w) (prev, s)) (\<lambda>(c, prev', t). goes (list_effect probes H proc args f (run_heads prev es) w) s t)"
  using H(1)
proof (induction es arbitrary: s w prev)
  case Nil
  then show ?case by (simp add: deliver.simps list_effect_def)
next
  case (Cons e es)
  show ?case
  proof (cases "prev = Some (ecb_addr e)")
    case True
    with Cons.IH [of "put_world w s" w prev] Cons.prems show ?thesis
      by (simp add: deliver.simps listStatement_same goes_put)
  next
    case False
    let ?w = "fold (\<lambda>pd. f [proc, formatProbeDesc H pd, args]) (probes (dted_probe e)) w"
    have "hds (put_world w s) p = Some H" using Cons.prems by simp
    from listStatement_next [OF False T this H(2) probes, of args]
    obtain r t where t: "listStatement L T p h proc args e (prev, put_world w s) = Done (r, Some (ecb_addr e), t)" "goes ?w s t"
      by (auto simp: ensures_iff goes_put)
    then have "hds t p = Some H" "world t = ?w" using Cons.prems by (simp_all add: goes_hds) (simp add: goes_def)
    with Cons.IH [OF this(1), of ?w "Some (ecb_addr e)"] False show ?thesis
      by (auto simp: deliver.simps t(1) list_effect_def elim!: ensures_mono intro: goes_trans [OF t(2)])
  qed
qed

lemma List_calls:
  assumes wf: "wf_st s" and n: "length objv = 4" and k: "Tcl_GetIntFromObj T (objv ! 1) = Inr k" "program_of s i k = Some pd"
    and H: "hds s (pd_hd pd) = Some H" "hdl H = Some h" "hd_interp H = Some j" and T: "acts T j {objv ! 2} f"
    and stmts: "dtrace_stmt_iter L h (compiled pd) (world s) = deliver es rc w"
    and probes: "\<And>d v. dtrace_probe_iter L h d v = deliver (probes d) 0 v"
  shows "ensures (List_cmd L T i objv s) (\<lambda>(code, t). code = TCL_OK \<and>
    goes (list_effect probes H (objv ! 2) (objv ! 3) f (run_heads None es) w) s t)"
proof -
  from H have "ready (pd_hd pd) s" by (simp add: ready_def)
  from checked_program_open [OF wf k this] H
  have eq: "\<And>f. checked_program T i objv (objv ! 1) s f = f pd H h s" by (metis option.inject)
  from list_drive [OF T _ H(1,3) probes, of "objv ! 2" "objv ! 3" es rc w None]
  show ?thesis
    unfolding List_cmd_def eq using n stmts by (auto elim!: ensures_mono)
qed

text \<open>
  A list callback that fails: libdtrace stops at the first callback that does not return 0 and
  returns that failure, and the extension aborts the process.
\<close>

definition iter_until_failure :: "probedesc \<Rightarrow> 'w \<Rightarrow> (probedesc, 'w) lib_run" where
  "iter_until_failure pd w = LibCall pd w (\<lambda>r w'. LibRet (if r = RetZero then 0 else - 1) w')"

lemma listStatement_aborts:
  assumes "prev \<noteq> Some (ecb_addr e)" and "dtrace_probe_iter L h (dted_probe e) (world s) = iter_until_failure pd w"
    and H: "hds s p = Some H" "hd_interp H = Some i"
    and script: "EvalObjv T i [proc, formatProbeDesc H pd, args] (incr_refs [proc, formatProbeDesc H pd, args] (put_world w s)) = Done (rc, t)"
      "rc \<noteq> TCL_OK" "hds t p = Some H'" "hd_interp H' = Some j"
  shows "\<exists>msg. listStatement L T p h proc args e (prev, s) = Panic msg"
proof -
  have "hds (put_world w s) p = Some H" using H(1) by simp
  from CallbackEval_error [OF this H(2) script] assms(1,2) H(1) show ?thesis
    by (simp add: listStatement_def iter_until_failure_def listProbe_def)
qed

end
