(* ===== verification/Cmd_Trace.thy ===== *)
theory Cmd_Trace
  imports Command_Frame
begin

text \<open>
  The commands that run a trace: \<^verbatim>\<open>Go\<close>, \<^verbatim>\<open>Stop\<close>, \<^verbatim>\<open>Process\<close> and \<^verbatim>\<open>Aggregations\<close> of
  \<^verbatim>\<open>generic/dtrace.c\<close>.
\<close>

section \<open>The operations\<close>

text \<open>
  The loop of \<^verbatim>\<open>Go\<close> over callback names and specifications; \<open>False\<close> stands for its
  \<^verbatim>\<open>return TCL_ERROR\<close>. What was registered before the error stays registered, and the
  objects that a slot held before are overwritten.
\<close>

definition register_callback :: "nat \<Rightarrow> tcl_obj \<Rightarrow> tcl_obj \<Rightarrow> handle_data \<Rightarrow> handle_data" where
  "register_callback n proc arg H =
     H\<lparr>cb_procs := (cb_procs H)[n := Some proc], cb_args := (cb_args H)[n := Some arg]\<rparr>"

fun register_callbacks :: "'w tcl \<Rightarrow> interp \<Rightarrow> addr \<Rightarrow> (tcl_obj \<times> tcl_obj) list \<Rightarrow> 'w st \<Rightarrow> (bool \<times> 'w st) exec" where
  "register_callbacks T i p [] s = Done (True, s)"
| "register_callbacks T i p ((cbob, spec) # rest) s =
     (case index_rep T cbob callbackNames ''callback name'' of
        Inl msg \<Rightarrow> Done (False, set_error_code i [ERROR_CLASS, ''USAGE''] (set_result i (StrObj msg) s))
      | Inr callback \<Rightarrow>
          let usage = (\<lambda>t. Done (False, snd (fail T i ''callback spec should be {proc {?arg0 arg1 ...?}}'' [''USAGE''] t)))
          in case Tcl_ListObjGetElements T spec of
            Inl msg \<Rightarrow> usage (set_result i (StrObj msg) s)
          | Inr [proc, arg] \<Rightarrow>
              with_hd p s (\<lambda>H.
                if callback < CALLBACKS_COUNT then
                  register_callbacks T i p rest
                    (incr_refs [proc, arg] (put_hd p (register_callback callback proc arg H) s))
                else Panic ''dtrace bad callback id'')
          | Inr _ \<Rightarrow> usage s)"

text \<open>The loop that lets the grabbed processes run.\<close>

function continue_from :: "'w libdtrace \<Rightarrow> dtrace_hdl \<Rightarrow> handle_data \<Rightarrow> int \<Rightarrow> 'w \<Rightarrow> 'w exec" where
  "continue_from L h H j w =
     (if j < proc_count H then
        seq (read_process j H) (\<lambda>proc. continue_from L h H (j + 1) (dtrace_proc_continue L h proc w))
      else Done w)"
  by pat_completeness auto
termination
  by (relation "measure (\<lambda>(L, h, H, j, w). nat (proc_count H - j))") auto

definition Go :: "'w libdtrace \<Rightarrow> 'w tcl \<Rightarrow> interp \<Rightarrow> tcl_obj list \<Rightarrow> 'w st \<Rightarrow> (int \<times> 'w st) exec" where
  "Go L T i objv s =
     (if \<not> (2 \<le> length objv \<and> even (length objv)) then
        Done (objcFail T i objv ''handle ?callback {proc ?arg?} ...?'' s)
      else checked T i objv (objv ! 1) s (\<lambda>p _ _ s1.
        seq (register_callbacks T i p (pairs_of (drop 2 objv)) s1) (\<lambda>(ok, s2).
          if \<not> ok then Done (TCL_ERROR, s2)
          else with_hd p s2 (\<lambda>H. with_handle p s2 (\<lambda>h.
            case dtrace_go L h (world s2) of
              (rc, w) \<Rightarrow>
                if rc = - 1 then libError L T i objv p (put_world w s2)
                else seq (continue_from L h H 0 w) (\<lambda>w1. Done (TCL_OK, put_world w1 s2)))))))"

definition Stop :: "'w libdtrace \<Rightarrow> 'w tcl \<Rightarrow> interp \<Rightarrow> tcl_obj list \<Rightarrow> 'w st \<Rightarrow> (int \<times> 'w st) exec" where
  "Stop L T i objv s =
     (if length objv \<noteq> 2 then Done (objcFail T i objv ''handle'' s)
      else checked T i objv (objv ! 1) s (\<lambda>p H h s1.
        case dtrace_stop L h (world s1) of
          (rc, w) \<Rightarrow>
            if rc = - 1 then libError L T i objv p (put_world w s1)
            else Done (TCL_OK, put_world w s1)))"

text \<open>
  \<^verbatim>\<open>::dtrace::process\<close> reads its flag before it looks at the handle. The value
  \<^verbatim>\<open>dtrace_sleep\<close> returns is ignored.
\<close>

definition Process :: "'w libdtrace \<Rightarrow> 'w tcl \<Rightarrow> interp \<Rightarrow> tcl_obj list \<Rightarrow> 'w st \<Rightarrow> (int \<times> 'w st) exec" where
  "Process L T i objv s =
     (if \<not> (2 \<le> length objv \<and> length objv \<le> 3) then Done (objcFail T i objv ''handle ?sleep?'' s)
      else
        (case (if length objv = 3 then boolean_rep T (objv ! 2) else Inr False) of
           Inl msg \<Rightarrow> Done (fail T i (newline @ COMMAND T objv @ '' bad usage'') [''USAGE''] (set_result i (StrObj msg) s))
         | Inr sleep \<Rightarrow>
             checked T i objv (objv ! 1) s (\<lambda>p H h s1.
               seq (if sleep then run_lib L T p (dtrace_sleep L h (world s1)) s1 else Done (0, s1)) (\<lambda>(_, s2).
                 with_handle p s2 (\<lambda>h2.
                   seq (run_lib L T p (dtrace_work L h2 (world s2)) s2) (\<lambda>(rc, s3).
                     if rc = - 1 then libError L T i objv p s3 else Done (TCL_OK, s3)))))))"

text \<open>
  The list is new, it is filled by \<open>agghandler\<close>, and it becomes the result: the pointer in the
  structure stays. Should a callback have called the command on the same handle meanwhile, the
  pointer leads to the list that call has given away.
\<close>

definition Aggregations :: "'w libdtrace \<Rightarrow> 'w tcl \<Rightarrow> interp \<Rightarrow> tcl_obj list \<Rightarrow> 'w st \<Rightarrow> (int \<times> 'w st) exec" where
  "Aggregations L T i objv s =
     (if length objv \<noteq> 2 then Done (objcFail T i objv ''handle'' s)
      else checked T i objv (objv ! 1) s (\<lambda>p H h s1.
        seq (run_lib L T p (dtrace_aggregate_print L h (world s1)) (put_hd p (H\<lparr>agg_list := OwnList []\<rparr>) s1)) (\<lambda>(rc, s2).
          if rc = - 1 then libError L T i objv p s2
          else with_hd p s2 (\<lambda>H2.
            case agg_list H2 of
              OwnList l \<Rightarrow> Done (TCL_OK, set_result i (ListObj l) (put_hd p (H2\<lparr>agg_list := HandedOver\<rparr>) s2))
            | HandedOver \<Rightarrow> seq (handed_value T p s2) (\<lambda>ob. Done (TCL_OK, set_result i ob s2))
            | NullList \<Rightarrow> Fault ''NULL result''))))"

section \<open>What they keep\<close>

lemma wf_hd_register: "wf_hd H \<Longrightarrow> wf_hd (register_callback n proc arg H)"
  by (simp add: register_callback_def wf_hd_slot)

lemma register_callback_sel [simp]:
  "hdl (register_callback n proc arg H) = hdl H" "hd_interp (register_callback n proc arg H) = hd_interp H"
  "processes (register_callback n proc arg H) = processes H" "proc_count (register_callback n proc arg H) = proc_count H"
  "grabbed (register_callback n proc arg H) = grabbed H"
  by (simp_all add: register_callback_def grabbed_def cells_of_def)

declare continue_from.simps [simp del]

lemma continue_from_spec:
  assumes "vec_wf H" and "j \<le> length (grabbed H)"
  shows "continue_from L h H (int j) w = Done (fold (dtrace_proc_continue L h) (drop j (grabbed H)) w)"
  using assms(2)
proof (induction "length (grabbed H) - j" arbitrary: j w)
  case 0
  then have "\<not> int j < proc_count H" "drop j (grabbed H) = []"
    using length_grabbed [OF assms(1)] by auto
  then show ?case by (simp add: continue_from.simps)
next
  case (Suc m)
  then have j: "j < length (grabbed H)" by simp
  then have "int j < proc_count H" using length_grabbed [OF assms(1)] by auto
  moreover have "m = length (grabbed H) - Suc j" using Suc.hyps(2) j by simp
  from Suc.hyps(1) [OF this] j
  have "continue_from L h H (int j + 1) v = Done (fold (dtrace_proc_continue L h) (drop (Suc j) (grabbed H)) v)" for v
    by (simp add: add.commute)
  ultimately show ?case
    using read_process_spec [OF assms(1) j]
    by (simp add: continue_from.simps [of L h H "int j"] Cons_nth_drop_Suc [OF j, symmetric])
qed

lemma continue_all:
  assumes "vec_wf H"
  shows "continue_from L h H 0 w = Done (fold (dtrace_proc_continue L h) (grabbed H) w)"
  using continue_from_spec [OF assms, of 0] by simp

context counted begin

lemma register_callbacks_P:
  assumes "P s" and "home p"
  shows "allows (register_callbacks T i p pairs s) (\<lambda>(ok, t). P t)"
  using assms(1)
proof (induction pairs arbitrary: s)
  case Nil
  then show ?case by simp
next
  case (Cons cs rest)
  obtain cbob spec where cs: "cs = (cbob, spec)" by force
  have "P (incr_refs [proc, arg] (put_hd p (register_callback n proc arg H) s))"
    if "hds s p = Some H" "n < CALLBACKS_COUNT" for H n proc arg
    using counted_slot [OF Cons.prems assms(2) that] by (simp add: register_callback_def)
  then show ?case
    using Cons unfolding cs
    by (auto simp: Let_def split: sum.splits list.splits intro!: allows_with_hd Cons.IH)
qed

lemma continue_from_P:
  assumes "P (put_world w s)"
  shows "allows (continue_from L h H j w) (\<lambda>v. P (put_world v s))"
  using assms
proof (induction "nat (proc_count H - j)" arbitrary: j w)
  case 0
  then show ?case by (simp add: continue_from.simps [of L h H j])
next
  case (Suc n)
  have "P (put_world (dtrace_proc_continue L h proc w) s)" for proc
    using counted_call [OF plain_continue, of "put_world w s"] Suc.prems by simp
  with Suc.hyps(2) have "allows (continue_from L h H (j + 1) (dtrace_proc_continue L h proc w)) (\<lambda>v. P (put_world v s))" for proc
    by (intro Suc.hyps(1)) simp_all
  with Suc.prems show ?case
    by (auto simp: continue_from.simps [of L h H j] intro: allows_mono [OF allows_True])
qed

lemma Go_P:
  assumes "P s" and "here i"
  shows "allows (Go L T i objv s) (\<lambda>(rc, t). P t)"
proof -
  note cont = allows_mono [OF continue_from_P]
  show ?thesis
    using assms unfolding Go_def
    by (auto intro!: checked_P allows_mono [OF register_callbacks_P] allows_with_hd allows_with_handle libError_P cont
      split: prod.splits) (auto intro: counted_plain)
qed

lemma Stop_P:
  assumes "P s" and "here i"
  shows "allows (Stop L T i objv s) (\<lambda>(rc, t). P t)"
  using assms unfolding Stop_def
  by (auto intro!: checked_P libError_P split: prod.splits) (auto intro: counted_plain)

lemma Process_P:
  assumes T: "callbacks_allow T home P" and "P s" and "here i"
  shows "allows (Process L T i objv s) (\<lambda>(rc, t). P t)"
  using assms unfolding Process_def
  by (auto intro!: checked_P allows_mono [OF run_lib_P [OF T]] allows_with_handle libError_P split: sum.splits)

lemma Aggregations_P:
  assumes T: "callbacks_allow T home P" and "P s" and "here i"
  shows "allows (Aggregations L T i objv s) (\<lambda>(rc, t). P t)"
proof -
  have put: "P (put_hd p (H\<lparr>agg_list := l\<rparr>) t)" if "P t" "home p" "hds t p = Some H" for p H l t
    using counted_put [OF that] wf_live_hd [OF counted_wf [OF that(1)] that(3)] by simp
  show ?thesis
    using assms(2,3) unfolding Aggregations_def
    by (auto intro!: checked_P allows_mono [OF run_lib_P [OF T]] allows_with_hd libError_P put
        split: agg_list_ptr.splits)
qed

end

section \<open>What Go does\<close>

text \<open>A pair of words that registers a callback: a slot, a procedure and its argument.\<close>

definition callback_spec :: "'w tcl \<Rightarrow> tcl_obj \<times> tcl_obj \<Rightarrow> (nat \<times> tcl_obj \<times> tcl_obj) option" where
  "callback_spec T pair =
     (case (index_rep T (fst pair) callbackNames ''callback name'', Tcl_ListObjGetElements T (snd pair)) of
        (Inr n, Inr [proc, arg]) \<Rightarrow> if n < CALLBACKS_COUNT then Some (n, proc, arg) else None
      | _ \<Rightarrow> None)"

text \<open>What the index function of the Tcl library promises: an index of the table it was given.\<close>

definition index_in_range :: "'w tcl \<Rightarrow> bool" where
  "index_in_range T \<longleftrightarrow> (\<forall>ob names msg n. index_rep T ob names msg = Inr n \<longrightarrow> n < length names)"

definition register_all :: "(nat \<times> tcl_obj \<times> tcl_obj) list \<Rightarrow> handle_data \<Rightarrow> handle_data" where
  "register_all specs H = fold (\<lambda>(n, proc, arg). register_callback n proc arg) specs H"

definition spec_objs :: "(nat \<times> tcl_obj \<times> tcl_obj) list \<Rightarrow> tcl_obj list" where
  "spec_objs specs = concat (map (\<lambda>(n, proc, arg). [proc, arg]) specs)"

lemma register_all_simps [simp]:
  "register_all [] H = H"
  "register_all ((n, proc, arg) # specs) H = register_all specs (register_callback n proc arg H)"
  "spec_objs [] = []" "spec_objs ((n, proc, arg) # specs) = proc # arg # spec_objs specs"
  by (simp_all add: register_all_def spec_objs_def)

lemma register_all_sel [simp]:
  "hdl (register_all specs H) = hdl H" "hd_interp (register_all specs H) = hd_interp H"
  "grabbed (register_all specs H) = grabbed H"
  by (induction specs arbitrary: H) auto

lemma wf_hd_register_all: "wf_hd H \<Longrightarrow> wf_hd (register_all specs H)"
  by (induction specs arbitrary: H) (auto simp: wf_hd_register)

lemma put_hd_same [simp]: "hds s p = Some H \<Longrightarrow> put_hd p H s = s"
  by (simp add: put_hd_def fun_upd_idem)

lemma put_hd_incr: "put_hd p H (incr_refs obs s) = incr_refs obs (put_hd p H s)"
  by (simp add: put_hd_def incr_refs_def)

lemma put_put_hd [simp]: "put_hd p H' (put_hd p H s) = put_hd p H' s"
  by (simp add: put_hd_def)

lemma incr_incr_refs: "incr_refs ys (incr_refs xs s) = incr_refs (xs @ ys) s"
  by (simp add: incr_refs_def fun_eq_iff)

lemma incr_refs_Nil [simp]: "incr_refs [] s = s"
  by (simp add: incr_refs_def)

lemma callback_specD:
  assumes "callback_spec T (cbob, spec) = Some (n, proc, arg)"
  shows "index_rep T cbob callbackNames ''callback name'' = Inr n" "Tcl_ListObjGetElements T spec = Inr [proc, arg]"
    "n < CALLBACKS_COUNT"
  using assms by (auto simp: callback_spec_def split: sum.splits list.splits if_splits)

text \<open>
  What the slots hold after a list of registrations: the procedure, or the argument, of the last
  pair that names the slot, or what was there before.
\<close>

definition filled :: "(nat \<times> tcl_obj \<times> tcl_obj) list \<Rightarrow> (tcl_obj \<times> tcl_obj \<Rightarrow> tcl_obj) \<Rightarrow> tcl_obj option list \<Rightarrow> tcl_obj option list" where
  "filled specs part old =
     map (\<lambda>n. case map_of (rev specs) n of Some pair \<Rightarrow> Some (part pair) | None \<Rightarrow> old ! n) [0..<length old]"

lemma filled_simps [simp]:
  "filled [] part old = old"
  "filled ((n, pair) # specs) part old = filled specs part (old[n := Some (part pair)])"
  by (auto simp: filled_def map_nth map_add_def nth_list_update split: option.splits)

lemma register_all_filled:
  "register_all specs H = H\<lparr>cb_procs := filled specs fst (cb_procs H), cb_args := filled specs snd (cb_args H)\<rparr>"
  by (induction specs arbitrary: H) (auto simp: register_callback_def)

text \<open>As long as the pairs are well-formed, every one is registered in turn.\<close>

lemma register_callbacks_append:
  assumes "hds s p = Some H" and "map (callback_spec T) pairs = map Some specs"
  shows "register_callbacks T i p (pairs @ rest) s =
    register_callbacks T i p rest (incr_refs (spec_objs specs) (put_hd p (register_all specs H) s))"
  using assms
proof (induction pairs arbitrary: specs H s)
  case Nil
  then show ?case by simp
next
  case (Cons pair pairs)
  obtain cbob spec where pair: "pair = (cbob, spec)" by force
  from Cons.prems(2) obtain n proc arg specs' where specs: "specs = (n, proc, arg) # specs'"
    and sp: "callback_spec T (cbob, spec) = Some (n, proc, arg)" and rest: "map (callback_spec T) pairs = map Some specs'"
    unfolding pair by (cases specs) auto
  let ?s = "incr_refs [proc, arg] (put_hd p (register_callback n proc arg H) s)"
  have "hds ?s p = Some (register_callback n proc arg H)" by simp
  from Cons.IH [OF this rest] show ?case
    using callback_specD [OF sp] Cons.prems(1)
    by (simp add: pair specs put_hd_incr incr_incr_refs)
qed

lemma register_callbacks_ok:
  assumes "hds s p = Some H" and "map (callback_spec T) pairs = map Some specs"
  shows "register_callbacks T i p pairs s = Done (True, incr_refs (spec_objs specs) (put_hd p (register_all specs H) s))"
  using register_callbacks_append [OF assms, of i "[]"] by simp

text \<open>At the first pair that is not, the loop stops with an error.\<close>

lemma register_callbacks_bad:
  assumes "index_in_range T" and "callback_spec T pair = None" and H: "hds s p = Some H"
  shows "ensures (register_callbacks T i p (pair # rest) s) (\<lambda>(ok, t). \<not> ok \<and> core t = core s \<and> world t = world s \<and>
    refs t = refs s \<and> error_code t i = [ERROR_CLASS, ''USAGE''])"
proof -
  obtain cbob spec where pair: "pair = (cbob, spec)" by force
  have n: "index_rep T cbob callbackNames ''callback name'' = Inr n \<Longrightarrow> n < CALLBACKS_COUNT" for n
    using assms(1) by (force simp: index_in_range_def callbackNames_def CALLBACKS_COUNT_def)
  show ?thesis
    using assms(2) n H
    by (auto simp: pair callback_spec_def Let_def fail_def split: sum.splits list.splits)
qed

text \<open>All pairs well-formed and the trace started: every process that was grabbed runs, in order.\<close>

lemma Go_ok:
  assumes wf: "wf_st s" and n: "2 \<le> length objv" "even (length objv)" and p: "open_handle T i (objv ! 1) s p"
    and H: "hds s p = Some H" "hdl H = Some h"
    and specs: "map (callback_spec T) (pairs_of (drop 2 objv)) = map Some specs"
    and go: "dtrace_go L h (world s) = (rc, w)" "rc \<noteq> - 1"
  shows "Go L T i objv s = Done (TCL_OK,
    put_world (fold (dtrace_proc_continue L h) (grabbed H) w)
      (incr_refs (spec_objs specs) (put_hd p (register_all specs H) s)))"
proof -
  from checked_open [OF wf p] H have eq: "\<And>f. checked T i objv (objv ! 1) s f = f p H h s"
    by (metis option.inject)
  have "vec_wf (register_all specs H)"
    using wf_hd_register_all [OF wf_live_hd [OF wf H(1)]] by (simp add: wf_hd_def)
  from continue_all [OF this, of L h w] go n H
  show ?thesis
    unfolding Go_def eq register_callbacks_ok [OF H(1) specs] by simp
qed

text \<open>A pair that is not well-formed: what came before it is registered, the trace does not start.\<close>

lemma Go_bad_pair:
  assumes wf: "wf_st s" and n: "2 \<le> length objv" "even (length objv)" and p: "open_handle T i (objv ! 1) s p"
    and H: "hds s p = Some H" and T: "index_in_range T"
    and pairs: "pairs_of (drop 2 objv) = good @ pair # rest" "map (callback_spec T) good = map Some specs"
      "callback_spec T pair = None"
  shows "ensures (Go L T i objv s) (\<lambda>(rc, u). rc = TCL_ERROR \<and> hds u = (hds s)(p \<mapsto> register_all specs H) \<and>
    world u = world s \<and> refs u = refs (incr_refs (spec_objs specs) s) \<and> error_code u i = [ERROR_CLASS, ''USAGE''])"
proof -
  from checked_open [OF wf p] H obtain h where eq: "\<And>f. checked T i objv (objv ! 1) s f = f p H h s"
    by (metis option.inject)
  let ?t = "incr_refs (spec_objs specs) (put_hd p (register_all specs H) s)"
  have "refs ?t = refs (incr_refs (spec_objs specs) s)"
    by (simp add: incr_refs_def put_hd_def)
  with register_callbacks_bad [OF T pairs(3), of ?t p "register_all specs H" i rest]
  have "ensures (register_callbacks T i p (pairs_of (drop 2 objv)) s) (\<lambda>(ok, u). \<not> ok \<and>
      hds u = (hds s)(p \<mapsto> register_all specs H) \<and> world u = world s \<and>
      refs u = refs (incr_refs (spec_objs specs) s) \<and> error_code u i = [ERROR_CLASS, ''USAGE''])"
    unfolding pairs(1) register_callbacks_append [OF H pairs(2)]
    by (auto elim!: ensures_mono dest: core_eqD(4))
  then show ?thesis
    using n unfolding Go_def eq by (auto elim: ensures_mono)
qed

section \<open>What Aggregations collects\<close>

text \<open>
  The data libdtrace prints for an aggregation: rows of key records and one value record,
  white space between them. \<open>collected\<close> is the list a script gets for the rows.
\<close>

definition clean :: "bufdata \<Rightarrow> bool" where
  "clean b \<longleftrightarrow> strip (dtbda_buffered b) \<noteq> [] \<and> length (strip (dtbda_buffered b)) < TUPLE_STRLEN"

definition agg_text :: "bufdata \<Rightarrow> tcl_obj" where
  "agg_text b = StrObj (strip (dtbda_buffered b))"

definition agg_key :: "bufdata \<Rightarrow> bool" where
  "agg_key b \<longleftrightarrow> dtbda_aggdata b \<and> clean b \<and> (\<exists>a. dtbda_recdesc b = Some a \<and> \<not> DTRACEACT_ISAGG a)"

definition agg_value :: "bufdata \<Rightarrow> bool" where
  "agg_value b \<longleftrightarrow> dtbda_aggdata b \<and> clean b \<and> (\<exists>a. dtbda_recdesc b = Some a \<and> DTRACEACT_ISAGG a)"

definition agg_blank :: "bufdata \<Rightarrow> bool" where
  "agg_blank b \<longleftrightarrow> dtbda_aggdata b \<and> dtbda_recdesc b = None"

definition rows_ok :: "(bufdata list \<times> bufdata) list \<Rightarrow> bool" where
  "rows_ok rows \<longleftrightarrow> (\<forall>(ks, v) \<in> set rows. ks \<noteq> [] \<and> list_all agg_key ks \<and> agg_value v)"

definition printed :: "(bufdata list \<times> bufdata) list \<Rightarrow> bufdata list" where
  "printed rows = concat (map (\<lambda>(ks, v). ks @ [v]) rows)"

definition collected :: "(bufdata list \<times> bufdata) list \<Rightarrow> tcl_obj list" where
  "collected rows = concat (map (\<lambda>(ks, v). [ListObj (map agg_text ks), agg_text v]) rows)"

definition agg_hd :: "handle_data \<Rightarrow> tcl_obj list \<Rightarrow> tcl_obj list option \<Rightarrow> handle_data" where
  "agg_hd H l cur = H\<lparr>agg_list := OwnList l, agg_tuple := cur\<rparr>"

text \<open>One record, on a state whose handle has collected \<open>l\<close> and \<open>cur\<close>.\<close>

lemma buf_clean: "clean b \<Longrightarrow> cutWhiteSpace (dtbda_buffered b) = Done (agg_text b)"
  by (simp add: clean_def agg_text_def cutWhiteSpace_strip)

lemma feed_blank:
  "agg_blank b \<Longrightarrow> handle_event L T p (Ev_buffered b) (put_hd p (agg_hd H l cur) s) =
     Done (DTRACE_HANDLE_OK, put_hd p (agg_hd H l cur) s)"
  by (simp add: agg_blank_def buf_or_agg_def agghandler_def)

lemma feed_key:
  "agg_key b \<Longrightarrow> handle_event L T p (Ev_buffered b) (put_hd p (agg_hd H l cur) s) =
     Done (DTRACE_HANDLE_OK, put_hd p (agg_hd H l (Some ((case cur of None \<Rightarrow> [] | Some t \<Rightarrow> t) @ [agg_text b]))) s)"
  by (auto simp: agg_key_def buf_or_agg_def agghandler_def agg_hd_def buf_clean Let_def)

lemma feed_value:
  "agg_value b \<Longrightarrow> handle_event L T p (Ev_buffered b) (put_hd p (agg_hd H l (Some t)) s) =
     Done (DTRACE_HANDLE_OK, put_hd p (agg_hd H (l @ [ListObj t, agg_text b]) None) s)"
  by (auto simp: agg_value_def buf_or_agg_def agghandler_def agg_hd_def buf_clean append_to_list_def)

definition feed :: "'w libdtrace \<Rightarrow> 'w tcl \<Rightarrow> addr \<Rightarrow> bufdata list \<Rightarrow> int \<Rightarrow> 'w st \<Rightarrow> (int \<times> 'w st) exec" where
  "feed L T p bs rc s = run_lib L T p (deliver (map Ev_buffered bs) rc (world s)) s"

lemma feed_Nil: "feed L T p [] rc s = Done (rc, s)"
  by (simp add: feed_def run_deliver_Nil put_world_same)

lemma feed_Cons:
  assumes "handle_event L T p (Ev_buffered b) s = Done (r, t)"
  shows "feed L T p (b # bs) rc s = feed L T p bs rc t"
  using assms by (simp add: feed_def run_deliver_Cons put_world_same)

lemma feed_keys:
  "list_all agg_key ks \<Longrightarrow> feed L T p (ks @ bs) rc (put_hd p (agg_hd H l (Some t)) s) =
     feed L T p bs rc (put_hd p (agg_hd H l (Some (t @ map agg_text ks))) s)"
  by (induction ks arbitrary: t) (auto simp: feed_Cons [OF feed_key])

lemma feed_row:
  assumes "ks \<noteq> []" and "list_all agg_key ks" and "agg_value v"
  shows "feed L T p (ks @ v # bs) rc (put_hd p (agg_hd H l None) s) =
    feed L T p bs rc (put_hd p (agg_hd H (l @ [ListObj (map agg_text ks), agg_text v]) None) s)"
proof -
  from assms(1) obtain k ks' where ks: "ks = k # ks'" by (cases ks) auto
  with assms(2) have "agg_key k" "list_all agg_key ks'" by simp_all
  then show ?thesis
    by (simp add: ks feed_Cons [OF feed_key] feed_keys feed_Cons [OF feed_value [OF assms(3)]])
qed

lemma feed_rows:
  "rows_ok rows \<Longrightarrow> feed L T p (printed rows) rc (put_hd p (agg_hd H l None) s) =
     Done (rc, put_hd p (agg_hd H (l @ collected rows) None) s)"
proof (induction rows arbitrary: l)
  case Nil
  then show ?case by (simp add: printed_def collected_def feed_Nil)
next
  case (Cons row rows)
  obtain ks v where row: "row = (ks, v)" by force
  from Cons.prems have "ks \<noteq> []" "list_all agg_key ks" "agg_value v" and "rows_ok rows"
    by (simp_all add: rows_ok_def row)
  moreover have "printed (row # rows) = ks @ v # printed rows" "collected (row # rows) = [ListObj (map agg_text ks), agg_text v] @ collected rows"
    by (simp_all add: printed_def collected_def row)
  ultimately show ?case
    using Cons.IH by (simp add: feed_row)
qed

text \<open>White space does not matter, wherever it comes.\<close>

lemma feed_blanks:
  "list_all (\<lambda>b. agg_blank b \<or> agg_key b \<or> agg_value b) bs \<Longrightarrow>
     ensures (feed L T p (filter (\<lambda>b. \<not> agg_blank b) bs) rc (put_hd p (agg_hd H l cur) s)) Q \<Longrightarrow>
     ensures (feed L T p bs rc (put_hd p (agg_hd H l cur) s)) Q"
proof (induction bs arbitrary: l cur)
  case Nil
  then show ?case by simp
next
  case (Cons b bs)
  consider "agg_blank b" | "\<not> agg_blank b" "agg_key b" | t where "\<not> agg_blank b" "agg_value b" "cur = Some t"
    | "\<not> agg_blank b" "agg_value b" "cur = None"
    using Cons.prems(1) by (cases cur) auto
  then show ?case
  proof cases
    case 1
    with Cons show ?thesis by (simp add: feed_Cons [OF feed_blank])
  next
    case 2
    with Cons show ?thesis by (simp add: feed_Cons [OF feed_key])
  next
    case 3
    with Cons show ?thesis by (simp add: feed_Cons [OF feed_value])
  next
    case 4
    then have "handle_event L T p (Ev_buffered b) (put_hd p (agg_hd H l cur) s) = Panic ''dtrace empty aggregation tuple''"
      by (auto simp: agg_value_def buf_or_agg_def agghandler_def agg_hd_def)
    with 4 Cons.prems(2) show ?thesis by (simp add: feed_def run_deliver_Cons put_world_same)
  qed
qed

lemma Aggregations_ok:
  assumes wf: "wf_st s" and n: "length objv = 2" and p: "open_handle T i (objv ! 1) s p"
    and H: "hds s p = Some H" "hdl H = Some h" "agg_tuple H = None"
    and lib: "dtrace_aggregate_print L h (world s) = deliver (map Ev_buffered bs) rc (world s)" "rc \<noteq> - 1"
    and rows: "rows_ok rows" "filter (\<lambda>b. \<not> agg_blank b) bs = printed rows"
  shows "ensures (Aggregations L T i objv s) (\<lambda>(code, u). code = TCL_OK \<and>
    u = set_result i (ListObj (collected rows)) (put_hd p (H\<lparr>agg_list := HandedOver\<rparr>) s))"
proof -
  from checked_open [OF wf p] H(1,2) have eq: "\<And>f. checked T i objv (objv ! 1) s f = f p H h s"
    by (metis option.inject)
  have start: "put_hd p (H\<lparr>agg_list := OwnList []\<rparr>) s = put_hd p (agg_hd H [] None) s"
    using H(3) by (cases H) (simp add: agg_hd_def)
  have "list_all (\<lambda>b. \<not> agg_blank b \<longrightarrow> agg_key b \<or> agg_value b) bs"
  proof -
    have "b \<in> set (printed rows) \<Longrightarrow> agg_key b \<or> agg_value b" for b
      using rows(1) by (auto simp: printed_def rows_ok_def list_all_iff)
    then show ?thesis unfolding rows(2) [symmetric] by (auto simp: list_all_iff)
  qed
  then have "list_all (\<lambda>b. agg_blank b \<or> agg_key b \<or> agg_value b) bs"
    by (auto simp: list_all_iff)
  from feed_blanks [OF this, of L T p rc H "[]" None s "\<lambda>x. x = (rc, put_hd p (agg_hd H (collected rows) None) s)"]
  have "ensures (feed L T p bs rc (put_hd p (agg_hd H [] None) s))
      (\<lambda>x. x = (rc, put_hd p (agg_hd H (collected rows) None) s))"
    by (simp add: rows(2) feed_rows [OF rows(1)])
  then have "ensures (run_lib L T p (dtrace_aggregate_print L h (world s)) (put_hd p (agg_hd H [] None) s))
      (\<lambda>x. x = (rc, put_hd p (agg_hd H (collected rows) None) s))"
    by (simp add: feed_def lib(1))
  moreover have "(agg_hd H (collected rows) None)\<lparr>agg_list := HandedOver\<rparr> = H\<lparr>agg_list := HandedOver\<rparr>"
    using H(3) by (cases H) (simp add: agg_hd_def)
  moreover have "agg_list (agg_hd H (collected rows) None) = OwnList (collected rows)"
    by (simp add: agg_hd_def)
  ultimately show ?thesis
    using n lib(2) unfolding Aggregations_def eq start by (auto elim!: ensures_mono)
qed

text \<open>
  libdtrace prints aggregations during \<^verbatim>\<open>::dtrace::process\<close> as well, when a program calls
  \<^verbatim>\<open>printa\<close>. The keys are collected as ever; the value then finds the list pointer as the last
  \<^verbatim>\<open>::dtrace::aggregations\<close> has left it.
\<close>

lemma gather_key:
  assumes "agg_key b" and "hds s p = Some H"
  shows "handle_event L T p (Ev_buffered b) s =
    Done (DTRACE_HANDLE_OK, put_hd p (H\<lparr>agg_tuple := Some ((case agg_tuple H of None \<Rightarrow> [] | Some t \<Rightarrow> t) @ [agg_text b])\<rparr>) s)"
  using assms by (auto simp: agg_key_def buf_or_agg_def agghandler_def buf_clean Let_def)

lemma gather_keys:
  "list_all agg_key ks \<Longrightarrow> hds s p = Some H \<Longrightarrow> agg_tuple H = Some t \<Longrightarrow>
     feed L T p (ks @ bs) rc s = feed L T p bs rc (put_hd p (H\<lparr>agg_tuple := Some (t @ map agg_text ks)\<rparr>) s)"
proof (induction ks arbitrary: s H t)
  case Nil
  then have "H\<lparr>agg_tuple := Some t\<rparr> = H" by (cases H) simp
  with Nil show ?case by simp
next
  case (Cons k ks)
  let ?H = "H\<lparr>agg_tuple := Some (t @ [agg_text k])\<rparr>"
  from Cons.prems have "feed L T p ((k # ks) @ bs) rc s = feed L T p (ks @ bs) rc (put_hd p ?H s)"
    by (simp add: feed_Cons [OF gather_key])
  also have "\<dots> = feed L T p bs rc (put_hd p (H\<lparr>agg_tuple := Some (t @ map agg_text (k # ks))\<rparr>) s)"
    using Cons.IH [of "put_hd p ?H s" ?H "t @ [agg_text k]"] Cons.prems by simp
  finally show ?case .
qed

lemma gather_row:
  assumes "ks \<noteq> []" and "list_all agg_key ks" and H: "hds s p = Some H" and t: "agg_tuple H = None"
  shows "feed L T p (ks @ bs) rc s = feed L T p bs rc (put_hd p (H\<lparr>agg_tuple := Some (map agg_text ks)\<rparr>) s)"
proof -
  from assms(1) obtain k ks' where ks: "ks = k # ks'" by (cases ks) auto
  let ?H = "H\<lparr>agg_tuple := Some [agg_text k]\<rparr>"
  from assms(2) have k: "agg_key k" "list_all agg_key ks'" by (simp_all add: ks)
  have "feed L T p (ks @ bs) rc s = feed L T p (ks' @ bs) rc (put_hd p ?H s)"
    using k(1) H t by (simp add: ks feed_Cons [OF gather_key])
  with gather_keys [OF k(2), of "put_hd p ?H s" p ?H] show ?thesis by (simp add: ks)
qed

lemma append_given:
  assumes "hds s p = Some H" and "agg_list H = HandedOver"
  shows "append_to_list T p ob s = seq (append_handed T p ob s) (\<lambda>r. Done (put_results r s))"
  using assms by (simp add: append_to_list_def)

lemma value_uncollected:
  assumes v: "agg_value v" and H: "hds s p = Some H" "agg_tuple H = Some t"
  shows "agg_list H = NullList \<Longrightarrow> feed L T p [v] rc s = Fault ''append to a NULL list''"
    and "agg_list H = HandedOver \<Longrightarrow> feed L T p [v] rc s =
      seq (append_handed T p (ListObj t) s) (\<lambda>r1. seq (append_handed T p (agg_text v) (put_results r1 s)) (\<lambda>r2.
        Done (rc, put_hd p (H\<lparr>agg_tuple := None\<rparr>) (put_results r2 s))))"
proof -
  from v have c: "cutWhiteSpace (dtbda_buffered v) = Done (agg_text v)" "dtbda_aggdata v"
    "\<exists>a. dtbda_recdesc v = Some a \<and> DTRACEACT_ISAGG a"
    by (simp_all add: agg_value_def buf_clean)
  show "feed L T p [v] rc s = Fault ''append to a NULL list''" if "agg_list H = NullList"
    using c H that by (auto simp: feed_def run_deliver_Cons put_world_same buf_or_agg_def agghandler_def append_to_list_def)
  have twice: "put_results r' (put_results r s) = put_results r' s" for r r'
    by (simp add: put_results_def)
  have ev: "buf_or_agg T p v s =
      seq (append_handed T p (ListObj t) s) (\<lambda>r1. seq (append_handed T p (agg_text v) (put_results r1 s)) (\<lambda>r2.
        Done (DTRACE_HANDLE_OK, put_hd p (H\<lparr>agg_tuple := None\<rparr>) (put_results r2 s))))" if l: "agg_list H = HandedOver"
    using c H by (auto simp: buf_or_agg_def agghandler_def append_given [OF H(1) l] append_given [OF _ l] seq_assoc twice)
  show "feed L T p [v] rc s =
      seq (append_handed T p (ListObj t) s) (\<lambda>r1. seq (append_handed T p (agg_text v) (put_results r1 s)) (\<lambda>r2.
        Done (rc, put_hd p (H\<lparr>agg_tuple := None\<rparr>) (put_results r2 s))))" if l: "agg_list H = HandedOver"
    by (simp add: feed_def run_deliver_Cons put_world_same ev [OF l] seq_assoc run_deliver_Nil)
qed

end
