(* ===== verification/Cmd_Process.thy ===== *)
theory Cmd_Process
  imports Command_Frame
begin

text \<open>
  The commands that take a process under the control of a handle: \<^verbatim>\<open>Grab\<close> and
  \<^verbatim>\<open>Launch\<close> of \<^verbatim>\<open>generic/dtrace.c\<close>.
\<close>

section \<open>The operations\<close>

text \<open>The eight lines both commands end with.\<close>

definition record_process :: "addr \<Rightarrow> prochandle \<Rightarrow> 'w st \<Rightarrow> (int \<times> 'w st) exec" where
  "record_process p proc s =
     with_hd p s (\<lambda>H. seq (push_process proc H) (\<lambda>H1. Done (TCL_OK, put_hd p H1 s)))"

text \<open>\<^verbatim>\<open>pid = lpid\<close> keeps the low 32 bits of the number.\<close>

definition Grab :: "'w libdtrace \<Rightarrow> 'w tcl \<Rightarrow> interp \<Rightarrow> tcl_obj list \<Rightarrow> 'w st \<Rightarrow> (int \<times> 'w st) exec" where
  "Grab L T i objv s =
     (if length objv \<noteq> 3 then Done (objcFail T i objv ''handle pid'' s)
      else checked T i objv (objv ! 1) s (\<lambda>p H h s1.
        case Tcl_GetLongFromObj T (objv ! 2) of
          Inl msg \<Rightarrow> Done (fail T i (newline @ COMMAND T objv @ '' bad pid'') [''USAGE''] (set_result i (StrObj msg) s1))
        | Inr lpid \<Rightarrow>
            (case dtrace_proc_grab L h (as_int lpid) (world s1) of
               (None, w) \<Rightarrow> libError L T i objv p (put_world w s1)
             | (Some proc, w) \<Rightarrow> record_process p proc (put_world w s1))))"

definition Launch :: "'w libdtrace \<Rightarrow> 'w tcl \<Rightarrow> interp \<Rightarrow> tcl_obj list \<Rightarrow> 'w st \<Rightarrow> (int \<times> 'w st) exec" where
  "Launch L T i objv s =
     (if length objv < 3 then Done (objcFail T i objv ''handle cmd'' s)
      else checked T i objv (objv ! 1) s (\<lambda>p H h s1.
        let argv = map (Tcl_GetString T) (drop 2 objv)
        in case dtrace_proc_create L h (argv ! 0) argv (world s1) of
          (None, w) \<Rightarrow> libError L T i objv p (put_world w s1)
        | (Some proc, w) \<Rightarrow> record_process p proc (put_world w s1)))"

section \<open>What they do\<close>

lemma same_but_vector_sel:
  assumes "same_but_vector H H'"
  shows "hdl H' = hdl H" "hd_interp H' = hd_interp H" "cb_procs H' = cb_procs H" "cb_args H' = cb_args H"
    "foldpdesc H' = foldpdesc H" "agg_tuple H' = agg_tuple H" "agg_list H' = agg_list H"
  by (subst assms [unfolded same_but_vector_def], simp)+

text \<open>The abstract process list of the handle grows by one at its end, nothing else changes.\<close>

definition recorded :: "addr \<Rightarrow> prochandle \<Rightarrow> 'w st \<Rightarrow> 'w st \<Rightarrow> bool" where
  "recorded p proc s u \<longleftrightarrow>
     (\<exists>H H'. hds s p = Some H \<and> u = put_hd p H' s \<and> same_but_vector H H' \<and> wf_hd H' \<and>
        grabbed H' = grabbed H @ [proc])"

lemma push_process_wf:
  assumes "wf_hd H"
  shows "allows (push_process proc H) (\<lambda>H'. same_but_vector H H' \<and> wf_hd H' \<and> grabbed H' = grabbed H @ [proc])"
proof -
  from assms have v: "vec_wf H" and sl: "slots_wf H" by (simp_all add: wf_hd_def)
  have "slots_wf H'" if "same_but_vector H H'" for H'
    using sl same_but_vector_sel [OF that] by (simp add: slots_wf_def)
  then show ?thesis
    using procs.push_allows [OF v, of proc] push_process_frame [of proc H]
    by (auto simp: allows_iff wf_hd_def)
qed

lemma record_process_allows:
  assumes "wf_st s"
  shows "allows (record_process p proc s) (\<lambda>(rc, u). rc = TCL_OK \<and> recorded p proc s u)"
proof -
  have "allows (push_process proc H) (\<lambda>H'. recorded p proc s (put_hd p H' s))" if "hds s p = Some H" for H
    by (rule allows_mono [OF push_process_wf [OF wf_live_hd [OF assms that]]])
      (use that in \<open>auto simp: recorded_def\<close>)
  then show ?thesis
    unfolding record_process_def by (auto intro!: allows_with_hd)
qed

lemma record_process_total:
  assumes "wf_st s" and H: "hds s p = Some H" and room: "proc_count H < INT_MAX"
  shows "ensures (record_process p proc s) (\<lambda>(rc, u). rc = TCL_OK \<and> recorded p proc s u)"
proof -
  from wf_live_hd [OF assms(1) H] have "vec_wf H" by (simp add: wf_hd_def)
  from push_process_spec [OF this room, of proc] obtain H' where "push_process proc H = Done H'"
    by (auto simp: ensures_iff)
  with record_process_allows [OF assms(1), of p proc] H show ?thesis
    by (simp add: record_process_def)
qed

context counted begin

lemma recorded_P: "P s \<Longrightarrow> home p \<Longrightarrow> recorded p proc s u \<Longrightarrow> P u"
  unfolding recorded_def using counted_put same_but_vector_sel(1-4) by blast

lemma record_process_P: "P s \<Longrightarrow> home p \<Longrightarrow> allows (record_process p proc s) (\<lambda>(rc, u). P u)"
  by (rule allows_mono [OF record_process_allows [OF counted_wf]]) (auto intro: recorded_P)

lemma Grab_P:
  assumes "P s" and "here i"
  shows "allows (Grab L T i objv s) (\<lambda>(rc, u). P u)"
  using assms unfolding Grab_def
  by (auto intro!: checked_P libError_P record_process_P split: prod.splits sum.splits option.splits)
    (auto intro: counted_plain)

lemma Launch_P:
  assumes "P s" and "here i"
  shows "allows (Launch L T i objv s) (\<lambda>(rc, u). P u)"
  using assms unfolding Launch_def Let_def
  by (auto intro!: checked_P libError_P record_process_P split: prod.splits option.splits)
    (auto intro: counted_plain)

end

end
