(* ===== verification/Package.thy ===== *)
theory Package
  imports Cmd_Handle Cmd_Program Cmd_Trace Cmd_Process
begin

text \<open>
  Loading and unloading the extension (\<^verbatim>\<open>Dtrace_Init\<close>, \<^verbatim>\<open>Dtrace_DeInit\<close>,
  \<^verbatim>\<open>onDestroy\<close> of \<^verbatim>\<open>generic/dtrace.c\<close>) and the dispatch of its commands.
\<close>

section \<open>Unloading\<close>

text \<open>
  The loop over the handles: \<^verbatim>\<open>hd->processes\<close> is read after \<^verbatim>\<open>ckfree((void*) hd)\<close>.
\<close>

fun close_handles :: "'w libdtrace \<Rightarrow> (int \<times> addr) list \<Rightarrow> 'w st \<Rightarrow> 'w st exec" where
  "close_handles L [] s = Done s"
| "close_handles L ((k, p) # rest) s =
     with_handle p s (\<lambda>h.
       let s1 = put_world (dtrace_close L h (world s)) s;
         s2 = s1\<lparr>hds := (hds s1)(p := None)\<rparr>
       in with_hd p s2 (\<lambda>H. close_handles L rest s2))"

text \<open>The structures of compiled programs live in the table of the model, so freeing one is dropping its entry.\<close>

definition Dtrace_DeInit :: "'w libdtrace \<Rightarrow> addr \<Rightarrow> 'w st \<Rightarrow> 'w st exec" where
  "Dtrace_DeInit L d s =
     (case dds s d of
        None \<Rightarrow> Fault ''use of a freed dtrace_data''
      | Some dd \<Rightarrow>
          (case handles dd of
             Table es \<Rightarrow>
               seq (close_handles L es s) (\<lambda>s1.
                 case programs dd of
                   Table ps \<Rightarrow> Done (put_dd d (dd\<lparr>handles := FreedTable, programs := FreedTable\<rparr>) s1)
                 | _ \<Rightarrow> Fault ''walk through a table that is not there'')
           | _ \<Rightarrow> Fault ''walk through a table that is not there''))"

definition onDestroy :: "'w libdtrace \<Rightarrow> addr \<Rightarrow> interp \<Rightarrow> 'w st \<Rightarrow> 'w st exec" where
  "onDestroy L d i s = Dtrace_DeInit L d s"

text \<open>
  The two events of Tcl that lead there. An interpreter that is deleted runs the delete
  procedure of its associated data and loses its commands; the process that exits runs the
  exit handlers, the last one created first.
\<close>

definition destroy_interp :: "'w libdtrace \<Rightarrow> interp \<Rightarrow> 'w st \<Rightarrow> 'w st exec" where
  "destroy_interp L i s =
     (case assoc s i of
        None \<Rightarrow> Done s
      | Some d \<Rightarrow>
          seq (onDestroy L d i s) (\<lambda>s1.
            Done (s1\<lparr>assoc := (assoc s1)(i := None), commands := (commands s1)(i := [])\<rparr>)))"

fun exit_process :: "'w libdtrace \<Rightarrow> addr list \<Rightarrow> 'w st \<Rightarrow> 'w st exec" where
  "exit_process L [] s = Done s"
| "exit_process L (d # ds) s = seq (Dtrace_DeInit L d s) (exit_process L ds)"

section \<open>Loading\<close>

definition command_table :: "(string \<times> command) list" where
  "command_table =
     [(''dtrace::open'', Cmd_open), (''dtrace::close'', Cmd_close), (''dtrace::configure'', Cmd_configure),
      (''dtrace::compile'', Cmd_compile), (''dtrace::exec'', Cmd_exec), (''dtrace::info'', Cmd_info),
      (''dtrace::go'', Cmd_go), (''dtrace::stop'', Cmd_stop), (''dtrace::process'', Cmd_process),
      (''dtrace::list'', Cmd_list), (''dtrace::aggregations'', Cmd_aggregations),
      (''dtrace::grab'', Cmd_grab), (''dtrace::launch'', Cmd_launch)]"

definition ensemble_script :: string where
  "ensemble_script = ''namespace eval dtrace {'' @ newline @ ''namespace export *'' @ newline @
     ''namespace ensemble create'' @ newline @ ''}''"

text \<open>\<^verbatim>\<open>Tcl_CreateObjCommand\<close> replaces a command of that name.\<close>

definition create_commands :: "interp \<Rightarrow> (string \<times> command) list \<Rightarrow> 'w st \<Rightarrow> 'w st" where
  "create_commands i cs s =
     s\<lparr>commands := (commands s)(i := fold (\<lambda>(n, c). AList.update n c) cs (commands s i))\<rparr>"

definition attach_data :: "interp \<Rightarrow> 'w st \<Rightarrow> 'w st" where
  "attach_data i s =
     s\<lparr>brk := brk s + 1, dds := (dds s)(brk s \<mapsto> \<lparr>handles = Table [], programs = Table []\<rparr>),
       assoc := (assoc s)(i \<mapsto> brk s), exit_handlers := brk s # exit_handlers s\<rparr>"

definition version_ok :: "int \<times> int \<Rightarrow> bool" where
  "version_ok v \<longleftrightarrow> (case v of (major, minor) \<Rightarrow> 8 \<le> major \<and> 5 \<le> minor)"

definition Dtrace_Init :: "'w tcl \<Rightarrow> interp \<Rightarrow> 'w st \<Rightarrow> (int \<times> 'w st) exec" where
  "Dtrace_Init T i s =
     (if \<not> InitStubs_ok T i then Done (TCL_ERROR, s)
      else if \<not> PkgProvide_ok T i then Done (TCL_ERROR, s)
      else
        seq (EvalScript T i ''namespace eval dtrace {}'' (attach_data i s)) (\<lambda>(_, s1).
          let s2 = create_commands i command_table s1 in
          if version_ok (tcl_version T) then
            seq (EvalScript T i ensemble_script s2) (\<lambda>(_, s3). Done (TCL_OK, s3))
          else Done (TCL_OK, s2)))"

section \<open>Dispatch\<close>

primrec command_proc :: "'w libdtrace \<Rightarrow> 'w tcl \<Rightarrow> command \<Rightarrow> interp \<Rightarrow> tcl_obj list \<Rightarrow> 'w st \<Rightarrow> (int \<times> 'w st) exec" where
  "command_proc L T Cmd_open = Open L T"
| "command_proc L T Cmd_close = Close L T"
| "command_proc L T Cmd_configure = Configure L T"
| "command_proc L T Cmd_compile = Compile L T"
| "command_proc L T Cmd_exec = Exec L T"
| "command_proc L T Cmd_info = Info L T"
| "command_proc L T Cmd_go = Go L T"
| "command_proc L T Cmd_stop = Stop L T"
| "command_proc L T Cmd_process = Process L T"
| "command_proc L T Cmd_list = List_cmd L T"
| "command_proc L T Cmd_aggregations = Aggregations L T"
| "command_proc L T Cmd_grab = Grab L T"
| "command_proc L T Cmd_launch = Launch L T"

text \<open>Tcl empties the result before it calls the procedure of a command it has found.\<close>

definition call_command :: "'w libdtrace \<Rightarrow> 'w tcl \<Rightarrow> interp \<Rightarrow> string \<Rightarrow> tcl_obj list \<Rightarrow> 'w st \<Rightarrow> (int \<times> 'w st) exec" where
  "call_command L T i cmdname objv s =
     (case map_of (commands s i) cmdname of
        None \<Rightarrow> Done (TCL_ERROR, set_result i (StrObj (''invalid command name '' @ cmdname)) s)
      | Some c \<Rightarrow> command_proc L T c i objv (set_result i (StrObj []) s))"

section \<open>What loading and unloading change\<close>

lemma wf_fresh_dd: "wf_st s \<Longrightarrow> dds s (brk s) = None"
  using wf_tables by (cases "dds s (brk s)") fastforce+

lemma attach_tables:
  assumes "wf_st s"
  shows "owns (attach_data i s) = owns s" "has_prog (attach_data i s) = has_prog s"
  using wf_fresh_dd [OF assms] by (auto simp: fun_eq_iff owns_def has_prog_def attach_data_def)

text \<open>The interpreter gets new tables; those it may have had before stay, and no number leads to them.\<close>

definition attached :: "'w st \<Rightarrow> interp \<Rightarrow> 'w st \<Rightarrow> bool" where
  "attached s i t \<longleftrightarrow> owns t = owns s \<and> has_prog t = has_prog s \<and> hds t = hds s \<and> world t = world s \<and>
     next_free_id t = next_free_id s \<and> next_free_pid t = next_free_pid s \<and> refs t = refs s \<and>
     (\<exists>d. assoc t = (assoc s)(i \<mapsto> d) \<and> dds s d = None)"

lemma attach_spec:
  assumes wf: "wf_st s"
  shows "wf_st (attach_data i s) \<and> attached s i (attach_data i s)"
proof -
  let ?t = "attach_data i s"
  have sel: "hds ?t = hds s" "world ?t = world s" "next_free_id ?t = next_free_id s" "next_free_pid ?t = next_free_pid s"
    "refs ?t = refs s" "assoc ?t = (assoc s)(i \<mapsto> brk s)"
    by (simp_all add: attach_data_def)
  have old: "assoc s j = Some d \<Longrightarrow> d < brk s" for j d
    using wf by (auto elim!: wf_assocE [of s j d] dest: wf_tables)
  have "tables_wf ?t"
    unfolding tables_wf_def
  proof (intro conjI allI impI)
    fix d dd
    assume "dds ?t d = Some dd"
    then show "d < brk ?t" "tab_wf (entries (handles dd))" "tab_wf (entries (programs dd))"
      using wf_tables [OF wf, of d dd] by (auto simp: attach_data_def tab_wf_def split: if_splits)
  next
    fix j d
    assume "assoc ?t j = Some d"
    then show "\<exists>es ps. dds ?t d = Some \<lparr>handles = Table es, programs = Table ps\<rparr>"
      using old by (auto simp: attach_data_def split: if_splits elim!: wf_assocE [OF wf])
  next
    fix j j' d
    assume "assoc ?t j = Some d" "assoc ?t j' = Some d"
    then show "j = j'"
      using old wf_assoc_inj [OF wf] by (fastforce simp: attach_data_def split: if_splits)
  qed
  moreover have "heap_wf ?t"
    using wf_live_hd [OF wf] wf_live_brk [OF wf] by (auto simp: heap_wf_def attach_data_def less_Suc_eq)
  moreover have "ids_wf ?t" "owners_wf ?t" "progs_wf ?t"
    using wf unfolding wf_st_def ids_wf_def owners_wf_def progs_wf_def attach_tables [OF wf] sel by simp_all
  ultimately have "wf_st ?t" by (simp add: wf_st_def)
  moreover have "attached s i ?t"
    unfolding attached_def using attach_tables [OF wf] sel wf_fresh_dd [OF wf] by blast
  ultimately show ?thesis ..
qed

lemma create_commands_books [simp]: "books (create_commands i cs s) = books s"
  by (simp add: books_def ledger_def core_def create_commands_def)

text \<open>
  \<^verbatim>\<open>Dtrace_DeInit\<close> returns only if there is no handle: the first one it frees it reads again.
\<close>

lemma close_handles_Done: "close_handles L es s = Done t \<longleftrightarrow> es = [] \<and> t = s"
  by (cases es) (auto simp: with_handle_def with_hd_def split: option.splits)

lemma DeInit_Done:
  "Dtrace_DeInit L d s = Done t \<longleftrightarrow>
     (\<exists>ps. dds s d = Some \<lparr>handles = Table [], programs = Table ps\<rparr> \<and>
       t = put_dd d \<lparr>handles = FreedTable, programs = FreedTable\<rparr> s)"
proof -
  have "Dtrace_DeInit L d s = Done t \<longleftrightarrow>
      (\<exists>dd. dds s d = Some dd \<and> handles dd = Table [] \<and> (\<exists>ps. programs dd = Table ps) \<and>
       t = put_dd d (dd\<lparr>handles := FreedTable, programs := FreedTable\<rparr>) s)"
    by (auto simp: Dtrace_DeInit_def seq_eq_Done_iff close_handles_Done split: option.splits htab.splits)
  also have "\<dots> \<longleftrightarrow> (\<exists>ps. dds s d = Some \<lparr>handles = Table [], programs = Table ps\<rparr> \<and>
       t = put_dd d \<lparr>handles = FreedTable, programs = FreedTable\<rparr> s)"
    by (metis (mono_tags, lifting) dtrace_data.cases dtrace_data.select_convs dtrace_data.update_convs)
  finally show ?thesis .
qed

definition dropped :: "'w st \<Rightarrow> interp \<Rightarrow> 'w st \<Rightarrow> bool" where
  "dropped s i t \<longleftrightarrow> owns t = owns s \<and> hds t = hds s \<and> world t = world s \<and>
     next_free_id t = next_free_id s \<and> next_free_pid t = next_free_pid s \<and> refs t = refs s \<and> assoc t = (assoc s)(i := None) \<and>
     (\<exists>d. assoc s i = Some d \<and> (\<forall>k p. \<not> owns s d k p) \<and>
        (\<forall>d' k pd. has_prog t d' k pd \<longleftrightarrow> has_prog s d' k pd \<and> d' \<noteq> d))"

lemma destroy_allows:
  assumes wf: "wf_st s"
  shows "allows (destroy_interp L i s) (\<lambda>t. t = s \<or> wf_st t \<and> dropped s i t)"
proof (cases "assoc s i")
  case None
  then show ?thesis by (simp add: destroy_interp_def)
next
  case d: (Some d)
  have "wf_st (t\<lparr>assoc := (assoc t)(i := None), commands := (commands t)(i := [])\<rparr>) \<and>
      dropped s i (t\<lparr>assoc := (assoc t)(i := None), commands := (commands t)(i := [])\<rparr>)" (is "wf_st ?u \<and> _")
    if "Dtrace_DeInit L d s = Done t" for t
  proof -
    from that obtain ps where dd: "dds s d = Some \<lparr>handles = Table [], programs = Table ps\<rparr>"
      and t: "t = put_dd d \<lparr>handles = FreedTable, programs = FreedTable\<rparr> s"
      by (auto simp: DeInit_Done)
    have o: "owns ?u d' k p \<longleftrightarrow> owns s d' k p" for d' k p
      using dd by (auto simp: owns_def t put_dd_def)
    have q: "has_prog ?u d' k pd \<longleftrightarrow> has_prog s d' k pd \<and> d' \<noteq> d" for d' k pd
      using dd by (auto simp: has_prog_def t put_dd_def)
    have sel: "hds ?u = hds s" "world ?u = world s" "next_free_id ?u = next_free_id s" "next_free_pid ?u = next_free_pid s"
      "brk ?u = brk s" "refs ?u = refs s" "assoc ?u = (assoc s)(i := None)"
      "dds ?u = (dds s)(d \<mapsto> \<lparr>handles = FreedTable, programs = FreedTable\<rparr>)"
      by (simp_all add: t put_dd_def)
    have only: "assoc s j = Some d \<Longrightarrow> j = i" for j
      using wf_assoc_inj [OF wf _ d] by blast
    have "tables_wf ?u"
      using wf_tables [OF wf] wf_tables [OF wf dd] wf_assoc_inj [OF wf] only
      by (auto simp: tables_wf_def sel tab_wf_def elim: wf_assocE [OF wf])
    moreover have "ids_wf ?u"
      unfolding ids_wf_def o q sel using wf_ids [OF wf] wf_owns_range [OF wf] wf_prog_range [OF wf] by blast
    moreover have "owners_wf ?u" "heap_wf ?u"
      using wf unfolding wf_st_def owners_wf_def heap_wf_def o sel by simp_all
    moreover have "progs_wf ?u"
      unfolding progs_wf_def o q using wf_prog_owner [OF wf] wf_prog_unique [OF wf] by blast
    ultimately have "wf_st ?u" by (simp add: wf_st_def)
    moreover have "\<not> owns s d k p" for k p using dd by (simp add: owns_def)
    ultimately show ?thesis
      unfolding dropped_def sel using o q d by (simp add: fun_eq_iff)
  qed
  with d show ?thesis
    by (auto simp: destroy_interp_def onDestroy_def allows_iff seq_eq_Done_iff)
qed

section \<open>What loading does\<close>

text \<open>
  The two scripts of \<^verbatim>\<open>Dtrace_Init\<close> return, with whatever code and result, and touch neither the
  data of the extension nor the commands it has created.
\<close>

definition plain_scripts :: "'w tcl \<Rightarrow> interp \<Rightarrow> bool" where
  "plain_scripts T i \<longleftrightarrow> (\<forall>script \<in> {''namespace eval dtrace {}'', ensemble_script}. \<forall>s.
     ensures (EvalScript T i script s) (\<lambda>(rc, t). core t = core s \<and> exit_handlers t = exit_handlers s \<and> commands t = commands s))"

lemma plain_scriptsD:
  assumes "plain_scripts T i" and "script \<in> {''namespace eval dtrace {}'', ensemble_script}"
  obtains rc t where "EvalScript T i script s = Done (rc, t)" "core t = core s" "exit_handlers t = exit_handlers s"
    "commands t = commands s"
  using assms unfolding plain_scripts_def by (force simp: ensures_iff)

lemma fold_update_map:
  "distinct (map fst cs) \<Longrightarrow> map_of (fold (\<lambda>(n, c). AList.update n c) cs es) = map_of es ++ map_of cs"
proof (induction cs arbitrary: es)
  case Nil
  then show ?case by simp
next
  case (Cons c cs)
  obtain a b where c: "c = (a, b)" by force
  with Cons.prems have "map_of cs a = None" by (simp add: map_of_eq_None_iff)
  with Cons c show ?case
    by (simp add: AList.update_conv' map_add_def fun_eq_iff split: option.splits)
qed

lemma distinct_command_table: "distinct (map fst command_table)"
  by (simp add: command_table_def)

lemma Dtrace_Init_ok:
  assumes wf: "wf_st s" and T: "InitStubs_ok T i" "PkgProvide_ok T i" "plain_scripts T i"
  shows "ensures (Dtrace_Init T i s) (\<lambda>(rc, t). rc = TCL_OK \<and> owns t = owns s \<and> has_prog t = has_prog s \<and>
    (\<exists>d. assoc t = (assoc s)(i \<mapsto> d) \<and> exit_handlers t = d # exit_handlers s \<and> dds s d = None) \<and>
    (\<forall>k. handle_of t i k = None) \<and> (\<forall>k. program_of t i k = None) \<and>
    (\<forall>c \<in> set command_table. map_of (commands t i) (fst c) = Some (snd c)))"
proof -
  obtain rc1 s1 where s1: "EvalScript T i ''namespace eval dtrace {}'' (attach_data i s) = Done (rc1, s1)"
    "core s1 = core (attach_data i s)" "exit_handlers s1 = exit_handlers (attach_data i s)"
    by (rule plain_scriptsD [OF T(3), of "''namespace eval dtrace {}''" "attach_data i s"]) simp_all
  let ?s2 = "create_commands i command_table s1"
  obtain rc3 s3 where s3: "EvalScript T i ensemble_script ?s2 = Done (rc3, s3)"
    "core s3 = core ?s2" "exit_handlers s3 = exit_handlers ?s2" "commands s3 = commands ?s2"
    by (rule plain_scriptsD [OF T(3), of ensemble_script ?s2]) simp_all
  have core2: "core ?s2 = core (attach_data i s)" "exit_handlers ?s2 = exit_handlers (attach_data i s)"
    using s1(2,3) by (simp_all add: create_commands_def core_def)
  define t where "t = (if version_ok (tcl_version T) then s3 else ?s2)"
  have run: "Dtrace_Init T i s = Done (TCL_OK, t)"
    using T(1,2) s1(1) s3(1) by (simp add: Dtrace_Init_def Let_def t_def)
  have c: "core t = core (attach_data i s)" and e: "exit_handlers t = exit_handlers (attach_data i s)"
    and cm: "commands t = commands ?s2"
    using core2 s3(2-4) by (simp_all add: t_def)
  note sel = core_eqD(5,6) [OF c]
  have "owns t = owns s" "has_prog t = has_prog s"
    using attach_tables [OF wf, of i] by (simp_all add: fun_eq_iff owns_def has_prog_def sel)
  moreover have "map_of (commands t i) (fst c) = Some (snd c)" if "c \<in> set command_table" for c
    using that map_of_is_SomeI [OF distinct_command_table, of "fst c" "snd c"]
    by (simp add: cm create_commands_def fold_update_map [OF distinct_command_table])
  moreover have "assoc t = (assoc s)(i \<mapsto> brk s)" "exit_handlers t = brk s # exit_handlers s"
    unfolding sel e by (simp_all add: attach_data_def)
  moreover have "handle_of t i k = None" "program_of t i k = None" for k
    unfolding handle_of_def program_of_def sel by (simp_all add: attach_data_def)
  ultimately show ?thesis
    using wf_fresh_dd [OF wf] by (simp add: run del: fun_upd_apply)
qed

section \<open>What unloading does\<close>

lemma DeInit_ok:
  "dds s d = Some \<lparr>handles = Table [], programs = Table ps\<rparr> \<Longrightarrow>
     Dtrace_DeInit L d s = Done (put_dd d \<lparr>handles = FreedTable, programs = FreedTable\<rparr> s)"
  by (simp add: Dtrace_DeInit_def)

text \<open>The process exits cleanly when every interpreter has closed its handles.\<close>

lemma exit_clean:
  assumes "distinct ds" and "\<forall>d \<in> set ds. \<exists>ps. dds s d = Some \<lparr>handles = Table [], programs = Table ps\<rparr>"
  shows "ensures (exit_process L ds s) (\<lambda>t. hds t = hds s \<and> world t = world s)"
  using assms
proof (induction ds arbitrary: s)
  case Nil
  then show ?case by simp
next
  case (Cons d ds)
  then obtain ps where d: "dds s d = Some \<lparr>handles = Table [], programs = Table ps\<rparr>" by auto
  let ?s = "put_dd d \<lparr>handles = FreedTable, programs = FreedTable\<rparr> s"
  have "\<forall>e \<in> set ds. \<exists>ps. dds ?s e = Some \<lparr>handles = Table [], programs = Table ps\<rparr>"
    using Cons.prems by auto
  with Cons.IH [of ?s] Cons.prems(1) show ?case
    by (simp add: DeInit_ok [OF d] put_dd_def)
qed

text \<open>The tables of an interpreter that was deleted are freed, the exit handler of its data stays.\<close>

lemma exit_freed:
  assumes "dds s d = Some \<lparr>handles = FreedTable, programs = FreedTable\<rparr>" and "d \<in> set ds"
  shows "\<not> ensures (exit_process L ds s) Q"
  using assms
proof (induction ds arbitrary: s)
  case Nil
  then show ?case by simp
next
  case (Cons e ds)
  show ?case
  proof (cases "Dtrace_DeInit L e s")
    case (Done t)
    then obtain ps where e: "dds s e = Some \<lparr>handles = Table [], programs = Table ps\<rparr>"
      and t: "t = put_dd e \<lparr>handles = FreedTable, programs = FreedTable\<rparr> s"
      unfolding DeInit_Done by blast
    with Cons.prems have "e \<noteq> d" "d \<in> set ds" by auto
    with Cons.IH [of t] Cons.prems(1) Done t show ?thesis by simp
  qed simp_all
qed

text \<open>The exit handlers run through exactly when no handle is left and no table was freed before.\<close>

lemma exit_iff:
  "ensures (exit_process L ds s) (\<lambda>t. hds t = hds s \<and> world t = world s) \<longleftrightarrow>
     distinct ds \<and> (\<forall>d \<in> set ds. \<exists>ps. dds s d = Some \<lparr>handles = Table [], programs = Table ps\<rparr>)"
proof (intro iffI)
  assume "ensures (exit_process L ds s) (\<lambda>t. hds t = hds s \<and> world t = world s)"
  then have "ensures (exit_process L ds s) (\<lambda>_. True)" by (rule ensures_mono) simp
  then show "distinct ds \<and> (\<forall>d \<in> set ds. \<exists>ps. dds s d = Some \<lparr>handles = Table [], programs = Table ps\<rparr>)"
  proof (induction ds arbitrary: s)
    case (Cons d ds)
    then obtain t where t: "Dtrace_DeInit L d s = Done t" "ensures (exit_process L ds t) (\<lambda>_. True)"
      by (auto simp: ensures_iff seq_eq_Done_iff)
    then obtain ps where d: "dds s d = Some \<lparr>handles = Table [], programs = Table ps\<rparr>"
      and u: "t = put_dd d \<lparr>handles = FreedTable, programs = FreedTable\<rparr> s"
      unfolding DeInit_Done by blast
    have "d \<notin> set ds" using exit_freed [of t d ds L "\<lambda>_. True"] t(2) u by auto
    with Cons.IH [OF t(2)] d u show ?case by (auto simp: put_dd_def split: if_splits)
  qed simp
qed (blast intro: exit_clean)

lemma destroy_then_exit:
  assumes "assoc s i = Some d" and "d \<in> set (exit_handlers s)" and t: "destroy_interp L i s = Done t"
  shows "\<not> ensures (exit_process L (exit_handlers t) t) Q"
proof -
  from t assms(1) obtain u where u: "Dtrace_DeInit L d s = Done u"
    and t: "t = u\<lparr>assoc := (assoc u)(i := None), commands := (commands u)(i := [])\<rparr>"
    by (auto simp: destroy_interp_def onDestroy_def seq_eq_Done_iff)
  from u have "u = put_dd d \<lparr>handles = FreedTable, programs = FreedTable\<rparr> s"
    unfolding DeInit_Done by blast
  with assms(2) t show ?thesis by (intro exit_freed [where d = d]) (simp_all add: put_dd_def)
qed

end
