(* ===== verification/Persistence.thy ===== *)
theory Persistence
  imports Package
begin

text \<open>
  Properties of the state that last while the extension runs. The locale \<open>lasting\<close> asks that
  a property survives each of the few changes the extension makes to its tables, and gives in
  return that every command, loading and unloading keep it, with any scripts that keep it. It is
  interpreted for the references behind the callbacks in \<open>Reference_Counts\<close>, and, as part of the
  locale \<open>enduring\<close>, for \<open>steady\<close> here, for conformance to the registry's contract in
  \<open>Registry_Contract\<close>, for the open handles of libdtrace in \<open>Handle_Account\<close>, for the interpreters
  of handles in \<open>Handle_Homes\<close> and for isolation in \<open>Isolation\<close>.
\<close>

section \<open>The contract\<close>

text \<open>What is asked of scripts: callbacks and evaluations that return have kept the property.\<close>

definition scripts_respect :: "'w tcl \<Rightarrow> (interp \<Rightarrow> bool) \<Rightarrow> (addr \<Rightarrow> bool) \<Rightarrow> ('w st \<Rightarrow> bool) \<Rightarrow> bool" where
  "scripts_respect T here home P \<longleftrightarrow> callbacks_allow T home P \<and>
     (\<forall>i script s. here i \<longrightarrow> P s \<longrightarrow> allows (EvalScript T i script s) (\<lambda>(r, t). P t))"

locale lasting = counted L moves P here home
  for L :: "'w libdtrace" and moves :: "'w \<Rightarrow> 'w \<Rightarrow> bool" and P :: "'w st \<Rightarrow> bool" and here home +
  assumes lasting_open: "P s \<Longrightarrow> here i \<Longrightarrow> opened s i t \<Longrightarrow> begun L s t \<Longrightarrow> wf_st t \<Longrightarrow> P t"
    and lasting_undone: "P s \<Longrightarrow> here i \<Longrightarrow> open_undone s i t \<Longrightarrow> given_up L (world s) (world t) \<Longrightarrow> wf_st t \<Longrightarrow> P t"
    and lasting_close: "P s \<Longrightarrow> here i \<Longrightarrow> assoc s i = Some d \<Longrightarrow> owns s d k p \<Longrightarrow> closed L s d k p t \<Longrightarrow> wf_st t \<Longrightarrow> P t"
    and lasting_attach: "P s \<Longrightarrow> here i \<Longrightarrow> attached s i t \<Longrightarrow> wf_st t \<Longrightarrow> P t"
    and lasting_drop: "P s \<Longrightarrow> here i \<Longrightarrow> dropped s i t \<Longrightarrow> wf_st t \<Longrightarrow> P t"
begin

lemma Open_P:
  assumes "P s" and "here i"
  shows "allows (Open L T i objv s) (\<lambda>(rc, t). P t)"
proof -
  have "P (snd x)" if "open_post L s i x" for x
    using that lasting_open [OF assms] lasting_undone [OF assms] counted_booksI [OF assms(1)]
    by (auto simp: open_post_def)
  then show ?thesis
    by (intro allows_mono [OF Open_post [OF counted_wf [OF assms(1)]]]) auto
qed

lemma Close_P:
  assumes "P s" and "here i"
  shows "allows (Close L T i objv s) (\<lambda>(rc, t). P t)"
  by (rule allows_mono [OF Close_allows [OF counted_wf [OF assms(1)]]])
    (use lasting_close [OF assms] counted_booksI [OF assms(1)] in blast)

lemma Dtrace_Init_P:
  assumes T: "scripts_respect T here home P" and s: "P s" and i: "here i"
  shows "allows (Dtrace_Init T i s) (\<lambda>(rc, t). P t)"
proof -
  have cr: "P (create_commands i cs t) = P t" for cs t
    by (rule counted_books) simp
  have at: "P (attach_data i s)"
    using attach_spec [OF counted_wf [OF s], of i] lasting_attach [OF s i] by blast
  have ev: "allows (EvalScript T i script t) (\<lambda>(r, u). P u)" if "P t" for script t
    using T i that by (simp add: scripts_respect_def)
  show ?thesis
    using s by (auto simp: Dtrace_Init_def Let_def cr intro!: allows_mono [OF ev] at)
qed

lemma destroy_P:
  assumes "P s" and "here i"
  shows "allows (destroy_interp L i s) P"
  by (rule allows_mono [OF destroy_allows [OF counted_wf [OF assms(1)]]]) (use assms lasting_drop in blast)

lemma command_P:
  assumes T: "scripts_respect T here home P" and s: "P s" and i: "here i"
  shows "allows (command_proc L T c i objv s) (\<lambda>(rc, t). P t)"
proof -
  have T': "callbacks_allow T home P" using T by (simp add: scripts_respect_def)
  show ?thesis
    using s i Open_P Close_P Configure_P Compile_P Exec_or_Info_P Go_P Stop_P Process_P [OF T'] List_cmd_P [OF T']
      Aggregations_P [OF T'] Grab_P Launch_P
    by (cases c) (simp_all add: Exec_def Info_def)
qed

lemma call_command_P:
  assumes "scripts_respect T here home P" and "P s" and "here i"
  shows "allows (call_command L T i cmdname objv s) (\<lambda>(rc, t). P t)"
  using assms(2) by (auto simp: call_command_def intro!: command_P [OF assms(1) _ assms(3)] split: option.splits)

end

text \<open>Of a conserved property it is enough that the scripts keep it.\<close>

locale enduring = conserved L moves P here home + lasting L moves P here home
  for L :: "'w libdtrace" and moves :: "'w \<Rightarrow> 'w \<Rightarrow> bool" and P :: "'w st \<Rightarrow> bool" and here home

section \<open>The invariant lasts\<close>

lemma steadyI: "steady s0 s \<Longrightarrow> wf_st t \<Longrightarrow> all_ready t \<Longrightarrow> later s t \<Longrightarrow> steady s0 t"
  by (rule steady_later)

interpretation lasts: enduring L any_world "steady s0 :: 'w st \<Rightarrow> bool" everywhere everywhere for L s0
proof unfold_locales
  fix s t :: "'w st" and i
  assume s: "steady s0 s" and wf: "wf_st t"
  then have r: "all_ready s" by (simp add: steady_def)
  show "steady s0 t" if "opened s i t"
    using that r by (intro steadyI [OF s wf]) (auto simp: opened_def later_def all_ready_def split: if_splits)
  show "steady s0 t" if "open_undone s i t"
    using that r by (intro steadyI [OF s wf]) (auto simp: open_undone_def later_def all_ready_def)
  show "steady s0 t" if "closed L s d k p t" for d k p
    using that r by (intro steadyI [OF s wf]) (auto simp: closed_def later_def all_ready_def)
  show "steady s0 t" if "attached s i t"
    using that r by (intro steadyI [OF s wf]) (auto simp: attached_def later_def all_ready_def)
  show "steady s0 t" if "dropped s i t"
    using that r by (intro steadyI [OF s wf]) (auto simp: dropped_def later_def all_ready_def)
qed

end
