(* ===== verification/Reachability.thy ===== *)
theory Reachability
  imports Persistence
begin

text \<open>
  The extension as a state machine: the process starts with nothing, then interpreters load
  and drop the extension and call its commands, in any order; everything else in the process
  leaves the extension's own state alone. The invariant \<open>steady\<close> holds in every state that is
  reached, also when callbacks run scripts that call the commands again.
\<close>

section \<open>Steps\<close>

definition initial :: "'w \<Rightarrow> 'w st" where
  "initial w = \<lparr>next_free_id = 1, next_free_pid = 1, brk = 0, hds = Map.empty, dds = Map.empty, assoc = Map.empty,
     exit_handlers = [], commands = (\<lambda>_. []), result = (\<lambda>_. StrObj []), error_code = (\<lambda>_. []),
     bg_errors = [], refs = (\<lambda>_. 0), world = w\<rparr>"

text \<open>\<open>env\<close> is what the rest of the process may do to the world meanwhile: anything, unless a theorem says otherwise.\<close>

inductive step_under :: "('w \<Rightarrow> 'w \<Rightarrow> bool) \<Rightarrow> 'w libdtrace \<Rightarrow> 'w tcl \<Rightarrow> 'w st \<Rightarrow> 'w st \<Rightarrow> bool" for env L T where
  load: "Dtrace_Init T i s = Done (rc, t) \<Longrightarrow> step_under env L T s t"
| command: "call_command L T i cmdname objv s = Done (rc, t) \<Longrightarrow> step_under env L T s t"
| destroy: "destroy_interp L i s = Done t \<Longrightarrow> step_under env L T s t"
| other: "ledger t = ledger s \<Longrightarrow> env (world s) (world t) \<Longrightarrow> step_under env L T s t"

inductive_cases stepE: "step_under env L T s t"

inductive reachable_under :: "('w \<Rightarrow> 'w \<Rightarrow> bool) \<Rightarrow> 'w libdtrace \<Rightarrow> 'w tcl \<Rightarrow> 'w st \<Rightarrow> 'w st \<Rightarrow> bool" for env L T s where
  start: "reachable_under env L T s s"
| continue: "reachable_under env L T s t \<Longrightarrow> step_under env L T t u \<Longrightarrow> reachable_under env L T s u"

abbreviation step :: "'w libdtrace \<Rightarrow> 'w tcl \<Rightarrow> 'w st \<Rightarrow> 'w st \<Rightarrow> bool" where
  "step \<equiv> step_under any_world"

abbreviation reachable :: "'w libdtrace \<Rightarrow> 'w tcl \<Rightarrow> 'w st \<Rightarrow> 'w st \<Rightarrow> bool" where
  "reachable \<equiv> reachable_under any_world"

lemma wf_initial: "wf_st (initial w)"
  by (simp add: wf_defs initial_def owns_def has_prog_def INT_MAX_def)

lemma steady_initial: "steady (initial w) (initial w)"
  by (simp add: steady_def wf_initial) (simp add: all_ready_def initial_def)

context lasting
begin

lemma step_P:
  assumes T: "scripts_respect T here home P" and env: "env \<le> moves" and "step_under env L T s t"
    and s: "P s" and i: "\<And>i. here i"
  shows "P t"
  using assms(3)
proof (elim stepE)
  fix i rc
  assume "Dtrace_Init T i s = Done (rc, t)"
  from allows_DoneD [OF Dtrace_Init_P [OF T s i] this] show ?thesis by simp
next
  fix i cmdname objv rc
  assume "call_command L T i cmdname objv s = Done (rc, t)"
  from allows_DoneD [OF call_command_P [OF T s i] this] show ?thesis by simp
next
  fix i
  assume "destroy_interp L i s = Done t"
  from allows_DoneD [OF destroy_P [OF s i] this] show ?thesis .
next
  assume "ledger t = ledger s" and "env (world s) (world t)"
  then have "books t = books (put_world (world t) s)" by (simp add: books_iff)
  moreover have "P (put_world (world t) s)"
    using env \<open>env (world s) (world t)\<close> by (intro counted_world [OF s]) blast
  ultimately show ?thesis by (metis counted_booksI)
qed

lemma reachable_P:
  assumes "scripts_respect T here home P" and "env \<le> moves" and "reachable_under env L T s t" and "P s" and i: "\<And>i. here i"
  shows "P t"
  using assms(3,4) by (induction) (auto intro: step_P [OF assms(1,2) _ _ i])

end

lemma reachable_trans: "reachable_under env L T s t \<Longrightarrow> reachable_under env L T t u \<Longrightarrow> reachable_under env L T s u"
  by (rotate_tac, induction rule: reachable_under.induct) (auto intro: reachable_under.intros)

lemma any_world_top [simp]: "env \<le> any_world"
  by (simp add: le_fun_def)

section \<open>Scripts that call the commands again\<close>

text \<open>
  A script as a tree of its calls: it ends with a code, or it calls a command and goes on in a
  way that depends on the code and the result of the call. \<open>tower L T body n\<close> is the Tcl
  library \<open>T\<close> whose evaluator runs the scripts \<open>body\<close> assigns to procedures, with \<open>n\<close> levels of
  nesting; a call below the last level is refused, as Tcl refuses it beyond its recursion limit.
  The scripts of \<^verbatim>\<open>Dtrace_Init\<close>, which call no command of the extension, have the outcome they have
  with \<open>T\<close>, and leave its result.
\<close>

datatype script = Finish int | Invoke string "tcl_obj list" "int \<Rightarrow> tcl_obj \<Rightarrow> script"

primrec run_script :: "'w libdtrace \<Rightarrow> 'w tcl \<Rightarrow> interp \<Rightarrow> script \<Rightarrow> 'w st \<Rightarrow> (int \<times> 'w st) exec" where
  "run_script L T i (Finish rc) s = Done (rc, s)"
| "run_script L T i (Invoke cmdname objv k) s =
     seq (call_command L T i cmdname objv s) (\<lambda>(rc, t). run_script L T i (k rc (result t i)) t)"

definition nesting_refused :: "interp \<Rightarrow> 'w st \<Rightarrow> int \<times> 'w st" where
  "nesting_refused i s = (TCL_ERROR, set_result i (StrObj ''too many nested evaluations (infinite loop?)'') s)"

definition outside_script :: "'w tcl \<Rightarrow> interp \<Rightarrow> string \<Rightarrow> 'w st \<Rightarrow> (int \<times> 'w st) exec" where
  "outside_script T i script s = seq (EvalScript T i script s) (\<lambda>(rc, t). Done (rc, put_results (result t) s))"

primrec tower :: "'w libdtrace \<Rightarrow> 'w tcl \<Rightarrow> (interp \<Rightarrow> tcl_obj list \<Rightarrow> script) \<Rightarrow> nat \<Rightarrow> 'w tcl" where
  "tower L T body 0 = T\<lparr>EvalObjv := (\<lambda>i objv s. Done (nesting_refused i s)),
     EvalScript := outside_script T\<rparr>"
| "tower L T body (Suc n) = T\<lparr>EvalObjv := (\<lambda>i objv s. run_script L (tower L T body n) i (body i objv) s),
     EvalScript := outside_script T\<rparr>"

context lasting
begin

lemma outside_script_P: "P s \<Longrightarrow> allows (outside_script T i script s) (\<lambda>(r, t). P t)"
  using counted_booksI [of s] by (auto simp: outside_script_def allows_iff seq_eq_Done_iff)

lemma run_script_P:
  assumes T: "scripts_respect T here home P" and "P s" and i: "here i"
  shows "allows (run_script L T i scr s) (\<lambda>(rc, t). P t)"
  using assms(2)
proof (induction scr arbitrary: s)
  case (Finish rc)
  then show ?case by simp
next
  case (Invoke cmdname objv k)
  show ?case
    by (auto intro!: allows_mono [OF call_command_P [OF T Invoke.prems i]] Invoke.IH)
qed

end

context enduring
begin

lemma tower_P: "scripts_respect (tower L T body n) here home P"
proof (induction n)
  case 0
  have "scripts_allow (tower L T body 0) here P" by (simp add: scripts_allow_def nesting_refused_def)
  from scripts_callbacks [OF this] show ?case by (simp add: scripts_respect_def outside_script_P)
next
  case (Suc n)
  show ?case
    using scripts_callbacks [of "tower L T body (Suc n)"] run_script_P [OF Suc.IH]
    by (simp add: scripts_respect_def scripts_allow_def outside_script_P)
qed

lemma reachable_tower_P:
  "reachable_under env L (tower L T body n) s t \<Longrightarrow> env \<le> moves \<Longrightarrow> P s \<Longrightarrow> (\<And>i. here i) \<Longrightarrow> P t"
  by (rule reachable_P [OF tower_P])

end

end
