(* ===== verification/Registry_Contract.thy ===== *)
theory Registry_Contract
  imports Reachability
begin

text \<open>
  The contract of the registry, as a script can see it: which interpreters have the extension,
  which handle numbers each of them has open, and for each program number the number of its
  handle. The contract is a transition system of its own, without tables, heap or libdtrace;
  the extension refines it.
\<close>

section \<open>The abstract registry\<close>

record registry =
  interps :: "interp set"
  handle_nos :: "interp \<Rightarrow> int set"
  program_nos :: "interp \<Rightarrow> int \<rightharpoonup> int"
  next_handle :: int
  next_program :: int

definition no_registry :: registry where
  "no_registry = \<lparr>interps = {}, handle_nos = (\<lambda>_. {}), program_nos = (\<lambda>_. Map.empty), next_handle = 1, next_program = 1\<rparr>"

text \<open>
  A number is given out once. A handle that is closed, and one that could not be opened, takes
  every program of its interpreter with it.
\<close>

inductive registry_step :: "registry \<Rightarrow> registry \<Rightarrow> bool" where
  open_handle_no: "i \<in> interps r \<Longrightarrow> registry_step r
    (r\<lparr>handle_nos := (handle_nos r)(i := insert (next_handle r) (handle_nos r i)), next_handle := next_handle r + 1\<rparr>)"
| refuse_handle_no: "i \<in> interps r \<Longrightarrow> registry_step r
    (r\<lparr>program_nos := (program_nos r)(i := Map.empty), next_handle := next_handle r + 1\<rparr>)"
| close_handle_no: "k \<in> handle_nos r i \<Longrightarrow> registry_step r
    (r\<lparr>handle_nos := (handle_nos r)(i := handle_nos r i - {k}), program_nos := (program_nos r)(i := Map.empty)\<rparr>)"
| compile_program_no: "k \<in> handle_nos r i \<Longrightarrow> registry_step r
    (r\<lparr>program_nos := (program_nos r)(i := (program_nos r i)(next_program r \<mapsto> k)), next_program := next_program r + 1\<rparr>)"
| load_interp: "registry_step r
    (r\<lparr>interps := insert i (interps r), handle_nos := (handle_nos r)(i := {}), program_nos := (program_nos r)(i := Map.empty)\<rparr>)"
| delete_interp: "i \<in> interps r \<Longrightarrow> handle_nos r i = {} \<Longrightarrow> registry_step r
    (r\<lparr>interps := interps r - {i}, program_nos := (program_nos r)(i := Map.empty)\<rparr>)"

section \<open>The abstraction\<close>

text \<open>The number of a structure in the table of an interpreter.\<close>

definition number_of :: "'w st \<Rightarrow> interp \<Rightarrow> addr \<Rightarrow> int option" where
  "number_of s i p =
     (case assoc s i of
        None \<Rightarrow> None
      | Some d \<Rightarrow> (case dds s d of
            None \<Rightarrow> None
          | Some dd \<Rightarrow> map_option fst (find (\<lambda>(k, q). q = p) (entries (handles dd)))))"

definition registry_of :: "'w st \<Rightarrow> registry" where
  "registry_of s = \<lparr>interps = dom (assoc s), handle_nos = (\<lambda>i. dom (handle_of s i)),
     program_nos = (\<lambda>i m. case program_of s i m of None \<Rightarrow> None | Some pd \<Rightarrow> number_of s i (pd_hd pd)),
     next_handle = next_free_id s, next_program = next_free_pid s\<rparr>"

lemma find_value_Some: "find (\<lambda>(k, q). q = p) es = Some x \<Longrightarrow> x \<in> set es \<and> snd x = p"
  by (induction es) (auto split: if_splits)

lemma find_value_ex: "(k, p) \<in> set es \<Longrightarrow> \<exists>m. find (\<lambda>(k, q). q = p) es = Some (m, p) \<and> (m, p) \<in> set es"
  by (induction es) auto

lemma number_of_iff:
  assumes wf: "wf_st s"
  shows "number_of s i p = Some k \<longleftrightarrow> (\<exists>d. assoc s i = Some d \<and> owns s d k p)"
proof (cases "assoc s i")
  case None
  then show ?thesis by (simp add: number_of_def)
next
  case d: (Some d)
  with wf obtain es ps where dd: "dds s d = Some \<lparr>handles = Table es, programs = Table ps\<rparr>" and es: "tab_wf es"
    by (rule wf_assocE)
  have own: "owns s d m q \<longleftrightarrow> (m, q) \<in> set es" for m q
    using dd es by (simp add: owns_def tab_wf_def)
  have "map_option fst (find (\<lambda>(k, q). q = p) es) = Some k \<longleftrightarrow> (k, p) \<in> set es"
  proof
    assume "map_option fst (find (\<lambda>(k, q). q = p) es) = Some k"
    then show "(k, p) \<in> set es" by (auto dest: find_value_Some)
  next
    assume k: "(k, p) \<in> set es"
    from find_value_ex [OF this] obtain m where m: "find (\<lambda>(k, q). q = p) es = Some (m, p)" "(m, p) \<in> set es"
      by blast
    with k have "m = k" using wf_owns_unique [OF wf, of d m p d k p] by (simp add: own)
    with m show "map_option fst (find (\<lambda>(k, q). q = p) es) = Some k" by simp
  qed
  with d dd own show ?thesis by (simp add: number_of_def)
qed

lemma interps_registry_of [simp]: "interps (registry_of s) = dom (assoc s)"
  and next_registry_of [simp]: "next_handle (registry_of s) = next_free_id s" "next_program (registry_of s) = next_free_pid s"
  by (simp_all add: registry_of_def)

lemma handle_nos_iff: "k \<in> handle_nos (registry_of s) i \<longleftrightarrow> (\<exists>d p. assoc s i = Some d \<and> owns s d k p)"
proof -
  have "k \<in> handle_nos (registry_of s) i \<longleftrightarrow> (\<exists>p. handle_of s i k = Some p)"
    by (auto simp: registry_of_def)
  then show ?thesis unfolding handle_of_owns by blast
qed

lemma program_nos_iff:
  assumes "wf_st s"
  shows "program_nos (registry_of s) i m = Some k \<longleftrightarrow>
    (\<exists>d pd. assoc s i = Some d \<and> has_prog s d m pd \<and> owns s d k (pd_hd pd))"
proof -
  have "program_nos (registry_of s) i m = Some k \<longleftrightarrow> (\<exists>pd. program_of s i m = Some pd \<and> number_of s i (pd_hd pd) = Some k)"
    by (simp add: registry_of_def split: option.splits)
  then show ?thesis
    unfolding program_of_has number_of_iff [OF assms] by auto
qed

lemma registry_eqI:
  assumes "interps r = interps q" and "\<And>i k. k \<in> handle_nos r i \<longleftrightarrow> k \<in> handle_nos q i"
    and "\<And>i m k. program_nos r i m = Some k \<longleftrightarrow> program_nos q i m = Some k"
    and "next_handle r = next_handle q" and "next_program r = next_program q"
  shows "r = (q :: registry)"
proof -
  have "handle_nos r = handle_nos q" using assms(2) by blast
  moreover have "program_nos r i m = program_nos q i m" for i m
    using assms(3) [of i m] by (cases "program_nos q i m"; cases "program_nos r i m") auto
  then have "program_nos r = program_nos q" by blast
  ultimately show ?thesis using assms by simp
qed

lemma registry_of_cong:
  assumes "dds t = dds s" and "assoc t = assoc s" and "next_free_id t = next_free_id s" and "next_free_pid t = next_free_pid s"
  shows "registry_of t = registry_of s"
proof -
  have "handle_of t = handle_of s" "program_of t = program_of s" "number_of t = number_of s"
    unfolding handle_of_def [abs_def] program_of_def [abs_def] number_of_def [abs_def] assms(1,2) by simp_all
  note eqs = this assms
  show ?thesis unfolding registry_of_def eqs by (rule refl)
qed

lemma registry_of_core:
  assumes "core t = core s"
  shows "registry_of t = registry_of s"
  by (rule registry_of_cong) (rule core_eqD [OF assms])+

lemma registry_of_put_hd [simp]: "registry_of (put_hd p H s) = registry_of s"
  by (rule registry_of_cong) (simp_all add: put_hd_def)

lemma registry_of_initial: "registry_of (initial w) = no_registry"
  by (simp add: registry_of_def no_registry_def initial_def handle_of_def program_of_def number_of_def fun_eq_iff)

section \<open>Every change is a step of the contract\<close>

lemma registered_step:
  assumes wf: "wf_st s" "wf_st t" and reg: "registered s i p prog t"
  shows "registry_step (registry_of s) (registry_of t)"
proof -
  let ?r = "registry_of s" and ?m = "next_free_pid s"
  from reg obtain d where d: "assoc s i = Some d" and o: "owns t = owns s" and a: "assoc t = assoc s"
    and q: "\<And>d' k pd. has_prog t d' k pd \<longleftrightarrow>
      (d' = d \<and> k = ?m \<and> pd = \<lparr>compiled = prog, pd_hd = p\<rparr>) \<or> has_prog s d' k pd"
    and n: "next_free_id t = next_free_id s" "next_free_pid t = ?m + 1"
    by (auto simp: registered_def)
  have "has_prog t d ?m \<lparr>compiled = prog, pd_hd = p\<rparr>" using q by simp
  from wf_prog_owner [OF wf(2) this] o obtain k where k: "owns s d k p" by auto
  have only: "owns s d l p \<longleftrightarrow> l = k" for l
    using wf_owns_unique [OF wf(1) k] k by blast
  have "registry_of t = ?r\<lparr>program_nos := (program_nos ?r)(i := (program_nos ?r i)(next_program ?r \<mapsto> k)),
      next_program := next_program ?r + 1\<rparr>" (is "_ = ?r'")
  proof (rule registry_eqI)
    fix j m l
    show "program_nos (registry_of t) j m = Some l \<longleftrightarrow> program_nos ?r' j m = Some l"
    proof (cases "j = i")
      case True
      with d show ?thesis
        using wf_fresh_pid [OF wf(1), of d] program_nos_iff [OF wf(1), of i m l] only [of l]
        by (auto simp: program_nos_iff [OF wf(2)] a o q)
    next
      case False
      then have "assoc s j \<noteq> Some d" using wf_assoc_inj [OF wf(1) d] by blast
      with False show ?thesis
        by (auto simp: program_nos_iff [OF wf(2)] program_nos_iff [OF wf(1)] a o q)
    qed
  qed (simp_all add: handle_nos_iff a o n)
  moreover have "k \<in> handle_nos ?r i" using d k by (auto simp: handle_nos_iff)
  ultimately show ?thesis using registry_step.compile_program_no by metis
qed

lemma opened_step:
  assumes wf: "wf_st s" "wf_st t" and op: "opened s i t"
  shows "registry_step (registry_of s) (registry_of t)"
proof -
  let ?r = "registry_of s"
  from op obtain d where d: "assoc s i = Some d"
    and o: "\<And>d' k p. owns t d' k p \<longleftrightarrow> (d' = d \<and> k = next_free_id s \<and> p = brk s) \<or> owns s d' k p"
    and q: "has_prog t = has_prog s" and a: "assoc t = assoc s"
    and n: "next_free_id t = next_free_id s + 1" "next_free_pid t = next_free_pid s"
    by (auto simp: opened_def)
  have other: "assoc s j = Some d \<longleftrightarrow> j = i" for j
    using wf_assoc_inj [OF wf(1) d] d by blast
  have no: "pd_hd pd \<noteq> brk s" if "has_prog s d' m pd" for d' m pd
    using wf_prog_owner [OF wf(1) that] not_owns_brk [OF wf(1)] by metis
  have "registry_of t = ?r\<lparr>handle_nos := (handle_nos ?r)(i := insert (next_handle ?r) (handle_nos ?r i)),
      next_handle := next_handle ?r + 1\<rparr>" (is "_ = ?r'")
  proof (rule registry_eqI)
    fix j k
    show "k \<in> handle_nos (registry_of t) j \<longleftrightarrow> k \<in> handle_nos ?r' j"
      using other d by (auto simp: handle_nos_iff a o)
  next
    fix j m l
    show "program_nos (registry_of t) j m = Some l \<longleftrightarrow> program_nos ?r' j m = Some l"
      using no by (auto simp: program_nos_iff [OF wf(2)] program_nos_iff [OF wf(1)] a o q)
  qed (simp_all add: a n)
  moreover have "i \<in> interps ?r" using d by auto
  ultimately show ?thesis using registry_step.open_handle_no by metis
qed

lemma undone_step:
  assumes wf: "wf_st s" "wf_st t" and un: "open_undone s i t"
  shows "registry_step (registry_of s) (registry_of t)"
proof -
  let ?r = "registry_of s"
  from un obtain d where d: "assoc s i = Some d" and o: "owns t = owns s" and a: "assoc t = assoc s"
    and q: "\<And>d' k pd. has_prog t d' k pd \<longleftrightarrow> has_prog s d' k pd \<and> d' \<noteq> d"
    and n: "next_free_id t = next_free_id s + 1" "next_free_pid t = next_free_pid s"
    by (auto simp: open_undone_def)
  have other: "assoc s j = Some d \<longleftrightarrow> j = i" for j
    using wf_assoc_inj [OF wf(1) d] d by blast
  have "registry_of t = ?r\<lparr>program_nos := (program_nos ?r)(i := Map.empty), next_handle := next_handle ?r + 1\<rparr>" (is "_ = ?r'")
  proof (rule registry_eqI)
    fix j m l
    show "program_nos (registry_of t) j m = Some l \<longleftrightarrow> program_nos ?r' j m = Some l"
      using other [of j] d
      by (cases "j = i") (auto simp: program_nos_iff [OF wf(2)] program_nos_iff [OF wf(1)] a o q)
  qed (simp_all add: handle_nos_iff a o n)
  moreover have "i \<in> interps ?r" using d by auto
  ultimately show ?thesis using registry_step.refuse_handle_no by metis
qed

lemma closed_step:
  assumes wf: "wf_st s" "wf_st t" and d: "assoc s i = Some d" "owns s d k p" and cl: "closed L s d k p t"
  shows "registry_step (registry_of s) (registry_of t)"
proof -
  let ?r = "registry_of s"
  from cl have o: "\<And>d' k' p'. owns t d' k' p' \<longleftrightarrow> owns s d' k' p' \<and> k' \<noteq> k" and a: "assoc t = assoc s"
    and q: "\<And>d' k' pd. has_prog t d' k' pd \<longleftrightarrow> has_prog s d' k' pd \<and> d' \<noteq> d"
    and n: "next_free_id t = next_free_id s" "next_free_pid t = next_free_pid s"
    by (simp_all add: closed_def)
  have other: "assoc s j = Some d \<longleftrightarrow> j = i" for j
    using wf_assoc_inj [OF wf(1) d(1)] d(1) by blast
  have here: "d' \<noteq> d \<Longrightarrow> \<not> owns s d' k p'" for d' p'
    using wf_owns_unique [OF wf(1) d(2)] by blast
  have "registry_of t = ?r\<lparr>handle_nos := (handle_nos ?r)(i := handle_nos ?r i - {k}),
      program_nos := (program_nos ?r)(i := Map.empty)\<rparr>" (is "_ = ?r'")
  proof (rule registry_eqI)
    fix j l
    show "l \<in> handle_nos (registry_of t) j \<longleftrightarrow> l \<in> handle_nos ?r' j"
      using other [of j] here d(1) by (cases "j = i") (auto simp: handle_nos_iff a o)
  next
    fix j m l
    show "program_nos (registry_of t) j m = Some l \<longleftrightarrow> program_nos ?r' j m = Some l"
      using other [of j] here d(1)
      by (cases "j = i") (auto simp: program_nos_iff [OF wf(2)] program_nos_iff [OF wf(1)] a o q, blast)
  qed (simp_all add: a n)
  moreover have "k \<in> handle_nos ?r i" using d by (auto simp: handle_nos_iff)
  ultimately show ?thesis using registry_step.close_handle_no by metis
qed

lemma attached_step:
  assumes wf: "wf_st s" "wf_st t" and at: "attached s i t"
  shows "registry_step (registry_of s) (registry_of t)"
proof -
  let ?r = "registry_of s"
  from at obtain d where a: "assoc t = (assoc s)(i \<mapsto> d)" and "dds s d = None" and o: "owns t = owns s"
    and q: "has_prog t = has_prog s" and n: "next_free_id t = next_free_id s" "next_free_pid t = next_free_pid s"
    by (auto simp: attached_def)
  then have no: "\<not> owns s d k p" "\<not> has_prog s d m pd" for k p m pd
    by (simp_all add: owns_def has_prog_def)
  have "registry_of t = ?r\<lparr>interps := insert i (interps ?r), handle_nos := (handle_nos ?r)(i := {}),
      program_nos := (program_nos ?r)(i := Map.empty)\<rparr>" (is "_ = ?r'")
  proof (rule registry_eqI)
    fix j m l
    show "program_nos (registry_of t) j m = Some l \<longleftrightarrow> program_nos ?r' j m = Some l"
      using no by (auto simp: program_nos_iff [OF wf(2)] program_nos_iff [OF wf(1)] a o q)
  next
    fix j l
    show "l \<in> handle_nos (registry_of t) j \<longleftrightarrow> l \<in> handle_nos ?r' j"
      using no by (auto simp: handle_nos_iff a o)
  qed (auto simp: a n)
  then show ?thesis using registry_step.load_interp by metis
qed

lemma dropped_step:
  assumes wf: "wf_st s" "wf_st t" and dr: "dropped s i t"
  shows "registry_step (registry_of s) (registry_of t)"
proof -
  let ?r = "registry_of s"
  from dr obtain d where d: "assoc s i = Some d" and no: "\<And>k p. \<not> owns s d k p" and o: "owns t = owns s"
    and q: "\<And>d' k pd. has_prog t d' k pd \<longleftrightarrow> has_prog s d' k pd \<and> d' \<noteq> d"
    and a: "assoc t = (assoc s)(i := None)" and n: "next_free_id t = next_free_id s" "next_free_pid t = next_free_pid s"
    by (auto simp: dropped_def)
  have other: "assoc s j = Some d \<longleftrightarrow> j = i" for j
    using wf_assoc_inj [OF wf(1) d] d by blast
  have "registry_of t = ?r\<lparr>interps := interps ?r - {i}, program_nos := (program_nos ?r)(i := Map.empty)\<rparr>" (is "_ = ?r'")
  proof (rule registry_eqI)
    fix j m l
    show "program_nos (registry_of t) j m = Some l \<longleftrightarrow> program_nos ?r' j m = Some l"
      using other [of j] by (cases "j = i") (auto simp: program_nos_iff [OF wf(2)] program_nos_iff [OF wf(1)] a o q)
  next
    fix j l
    show "l \<in> handle_nos (registry_of t) j \<longleftrightarrow> l \<in> handle_nos ?r' j"
      using no d by (auto simp: handle_nos_iff a o)
  qed (auto simp: a n)
  moreover have "i \<in> interps ?r" "handle_nos ?r i = {}"
    using d no handle_nos_iff [of _ s i] by auto
  ultimately show ?thesis using registry_step.delete_interp by metis
qed

section \<open>The extension refines the contract\<close>

definition conforms :: "registry \<Rightarrow> 'w st \<Rightarrow> bool" where
  "conforms r s \<longleftrightarrow> wf_st s \<and> rtranclp registry_step r (registry_of s)"

lemma conforms_step:
  "conforms r s \<Longrightarrow> wf_st t \<Longrightarrow> registry_step (registry_of s) (registry_of t) \<Longrightarrow> conforms r t"
  by (auto simp: conforms_def)

interpretation conforms: settled "conforms r :: 'w st \<Rightarrow> bool" everywhere everywhere for r
proof unfold_locales
  fix s s' :: "'w st"
  assume c: "core s' = core s"
  show "conforms r s' = conforms r s"
    by (simp add: conforms_def wf_core [OF c] registry_of_core [OF c])
next
  fix s t :: "'w st" and i p prog H H'
  assume s: "conforms r s"
  then show wf: "wf_st s" by (simp add: conforms_def)
  show "conforms r (put_hd p H' s)" if "hds s p = Some H" "wf_hd H'"
    using s wf_put_hd [OF wf that] by (simp add: conforms_def)
  assume t: "wf_st t"
  show "registered s i p prog t \<Longrightarrow> conforms r t" by (rule conforms_step [OF s t registered_step [OF wf t]])
qed

interpretation contract: enduring L any_world "conforms r :: 'w st \<Rightarrow> bool" everywhere everywhere for L r
proof unfold_locales
  fix s t :: "'w st" and i
  assume s: "conforms r s" and t: "wf_st t"
  then have wf: "wf_st s" by (simp add: conforms_def)
  note step = conforms_step [OF s t]
  show "opened s i t \<Longrightarrow> conforms r t" by (rule step [OF opened_step [OF wf t]])
  show "open_undone s i t \<Longrightarrow> conforms r t" by (rule step [OF undone_step [OF wf t]])
  show "assoc s i = Some d \<Longrightarrow> owns s d k p \<Longrightarrow> closed L s d k p t \<Longrightarrow> conforms r t" for d k p
    by (rule step [OF closed_step [OF wf t]])
  show "attached s i t \<Longrightarrow> conforms r t" by (rule step [OF attached_step [OF wf t]])
  show "dropped s i t \<Longrightarrow> conforms r t" by (rule step [OF dropped_step [OF wf t]])
qed

lemma reachable_conforms:
  assumes "reachable L (tower L T body n) s t" and "wf_st s"
  shows "rtranclp registry_step (registry_of s) (registry_of t)"
  using contract.reachable_tower_P [OF assms(1) any_world_top, of "registry_of s"] assms(2) by (simp add: conforms_def)

end
