(* ===== verification/Reference_Counts.thy ===== *)
theory Reference_Counts
  imports Reachability
begin

text \<open>
  The references the extension takes to Tcl objects and gives back. Tcl frees an object when its
  last reference is given back, so a callback procedure or argument that a handle still stores
  must be covered by a reference. The invariant says so with a reserve \<open>c\<close>: the callbacks take
  references around the script they run, and the script may close the handle or replace the
  callback meanwhile. It is an instance of the locale \<open>lasting\<close>.
\<close>

section \<open>How often the handles store an object\<close>

definition uses_at :: "handle_data option \<Rightarrow> tcl_obj \<Rightarrow> int" where
  "uses_at Ho ob = (case Ho of None \<Rightarrow> 0 | Some H \<Rightarrow> int (count_list (slot_refs H) ob))"

definition slot_uses :: "'w st \<Rightarrow> tcl_obj \<Rightarrow> int" where
  "slot_uses s ob = (\<Sum>p \<in> dom (hds s). uses_at (hds s p) ob)"

lemma uses_at_simps [simp]: "uses_at None ob = 0" "uses_at (Some H) ob = int (count_list (slot_refs H) ob)"
  by (simp_all add: uses_at_def)

lemma uses_at_nonneg: "0 \<le> uses_at Ho ob"
  by (cases Ho) simp_all

lemma finite_heap: "wf_st s \<Longrightarrow> finite (dom (hds s))"
  by (rule finite_subset [of _ "{..<brk s}"]) (auto dest: wf_live_brk)

lemma slot_uses_upd:
  assumes fin: "finite (dom (hds s))" and t: "hds t = (hds s)(p := x)"
  shows "slot_uses t ob = slot_uses s ob - uses_at (hds s p) ob + uses_at x ob"
proof -
  let ?A = "insert p (dom (hds s))"
  have f: "finite ?A" using fin by simp
  have "slot_uses s ob = (\<Sum>q \<in> ?A. uses_at (hds s q) ob)"
    unfolding slot_uses_def by (rule sum.mono_neutral_left [OF f]) (auto simp: domIff)
  moreover have "slot_uses t ob = (\<Sum>q \<in> ?A. uses_at (hds t q) ob)"
    unfolding slot_uses_def by (rule sum.mono_neutral_left [OF f]) (auto simp: t domIff split: if_splits)
  moreover have "(\<Sum>q \<in> ?A - {p}. uses_at (hds t q) ob) = (\<Sum>q \<in> ?A - {p}. uses_at (hds s q) ob)"
    by (rule sum.cong) (auto simp: t)
  ultimately show ?thesis
    using sum.remove [OF f insertI1, of "\<lambda>q. uses_at (hds s q) ob"] sum.remove [OF f insertI1, of "\<lambda>q. uses_at (hds t q) ob"]
    by (simp add: t)
qed

lemma slot_uses_cong: "hds t = hds s \<Longrightarrow> slot_uses t = slot_uses s"
  by (rule ext) (simp add: slot_uses_def)

lemma slot_uses_ge:
  assumes "wf_st s" and "hds s p = Some H"
  shows "int (count_list (slot_refs H) ob) \<le> slot_uses s ob"
  using member_le_sum [of p "dom (hds s)" "\<lambda>p. uses_at (hds s p) ob"] assms finite_heap [OF assms(1)] uses_at_nonneg
  by (auto simp: slot_uses_def domIff)

text \<open>Writing a slot adds at most the two objects written.\<close>

lemma held_update:
  "n < length zs \<Longrightarrow> count_list (held (zs[n := (Some c, Some a)])) ob \<le> count_list (held zs) ob + count_list [c, a] ob"
proof (induction zs arbitrary: n)
  case Nil
  then show ?case by simp
next
  case (Cons z zs)
  obtain x y where z: "z = (x, y)" by force
  show ?case
    using Cons.IH [of "n - 1"] Cons.prems unfolding z
    by (cases n; cases x; cases y) auto
qed

lemma slot_refs_update:
  assumes "wf_hd H" and "n < CALLBACKS_COUNT"
  shows "int (count_list (slot_refs (H\<lparr>cb_procs := (cb_procs H)[n := Some c], cb_args := (cb_args H)[n := Some a]\<rparr>)) ob)
    \<le> int (count_list (slot_refs H) ob) + int (count_list [c, a] ob)"
  using held_update [of n "zip (cb_procs H) (cb_args H)" c a ob] assms
  by (simp add: slot_refs_def wf_hd_def slots_wf_def update_zip)

section \<open>The invariant\<close>

definition backed :: "(tcl_obj \<Rightarrow> int) \<Rightarrow> 'w st \<Rightarrow> bool" where
  "backed c s \<longleftrightarrow> wf_st s \<and> (\<forall>ob. slot_uses s ob + c ob \<le> refs s ob)"

lemma backedI:
  fixes s t :: "'w st"
  assumes s: "backed c s" and t: "wf_st t" and le: "\<And>ob. slot_uses t ob - refs t ob \<le> slot_uses s ob - refs s ob"
  shows "backed c t"
  unfolding backed_def
proof (intro conjI allI)
  fix ob
  have "slot_uses s ob + c ob \<le> refs s ob" using s by (simp add: backed_def)
  with le [of ob] show "slot_uses t ob + c ob \<le> refs t ob" by linarith
qed (rule t)

lemma backed_same:
  assumes "backed c s" and "wf_st t" and "hds t = hds s" and "refs t = refs s"
  shows "backed c t"
  using assms slot_uses_cong [OF assms(3)] by (simp add: backed_def)

lemma slot_refs_fresh: "slot_refs ((fresh_hd h n)\<lparr>hd_interp := i\<rparr>) = []"
  by (simp add: slot_refs_def fresh_hd_def zero_hd_def CALLBACKS_COUNT_def numeral_eq_Suc)

interpretation backed: lasting L any_world "backed c :: 'w st \<Rightarrow> bool" everywhere everywhere for L c
proof unfold_locales
  show "calls_within L any_world" by simp
next
  fix s s' :: "'w st"
  assume "books s' = books s"
  then have "core s' = core s" "refs s' = refs s" by (simp_all add: books_iff ledger_iff)
  then show "backed c s' = backed c s"
    by (simp add: backed_def wf_core [of s' s] slot_uses_cong [of s' s] core_eqD [of s' s])
next
  fix s :: "'w st" and w
  have "core (put_world w s) = core s" "refs (put_world w s) = refs s" by simp_all
  then show "backed c s \<Longrightarrow> backed c (put_world w s)"
    by (simp add: backed_def wf_core [of "put_world w s" s] slot_uses_cong [of "put_world w s" s] core_eqD [of "put_world w s" s])
next
  fix s t :: "'w st" and p :: addr and H H' :: handle_data and i d k prog n proc arg
  assume s: "backed c s"
  then show wf: "wf_st s" by (simp add: backed_def)
  note upd = slot_uses_upd [OF finite_heap [OF wf]]
  show "backed c (put_hd p H' s)"
    if "hds s p = Some H" "wf_hd H'" "cb_procs H' = cb_procs H" "cb_args H' = cb_args H"
    using that upd [of "put_hd p H' s" p "Some H'"] wf_put_hd [OF wf that(1,2)]
    by (intro backedI [OF s]) (simp_all add: slot_refs_def)
  show "backed c (incr_refs [proc, arg] (put_hd p (H\<lparr>cb_procs := (cb_procs H)[n := Some proc], cb_args := (cb_args H)[n := Some arg]\<rparr>) s))"
    (is "backed c (incr_refs _ (put_hd p ?H s))") if H: "hds s p = Some H" and n: "n < CALLBACKS_COUNT"
  proof (rule backedI [OF s])
    have wfH: "wf_hd H" by (rule wf_live_hd [OF wf H])
    show "wf_st (incr_refs [proc, arg] (put_hd p ?H s))"
      using wf_put_hd [OF wf H wf_hd_slot [OF wfH]] by simp
    show "slot_uses (incr_refs [proc, arg] (put_hd p ?H s)) ob - refs (incr_refs [proc, arg] (put_hd p ?H s)) ob
        \<le> slot_uses s ob - refs s ob" for ob
    proof -
      have "slot_uses (incr_refs [proc, arg] (put_hd p ?H s)) ob = slot_uses s ob - int (count_list (slot_refs H) ob) + int (count_list (slot_refs ?H) ob)"
        by (subst upd [of _ p "Some ?H"]) (simp_all add: H)
      moreover have "refs (incr_refs [proc, arg] (put_hd p ?H s)) ob = refs s ob + int (count_list [proc, arg] ob)"
        by (simp add: incr_refs_def)
      ultimately show ?thesis
        using slot_refs_update [OF wfH n, where c = proc and a = arg and ob = ob] by linarith
    qed
  qed
  assume t: "wf_st t"
  show "registered s i p prog t \<Longrightarrow> backed c t" "open_undone s i t \<Longrightarrow> backed c t"
    "attached s i t \<Longrightarrow> backed c t" "dropped s i t \<Longrightarrow> backed c t"
    by (rule backed_same [OF s t]; simp add: registered_def open_undone_def attached_def dropped_def)+
  show "backed c t" if "opened s i t"
  proof -
    from that obtain h m where hds: "hds t = (hds s)(brk s \<mapsto> (fresh_hd (Some h) m)\<lparr>hd_interp := Some i\<rparr>)"
      and refs: "refs t = refs s" by (auto simp: opened_def)
    show ?thesis
      using upd [OF hds] wf_fresh_addr [OF wf] refs by (intro backedI [OF s t]) (simp add: slot_refs_fresh)
  qed
  show "backed c t" if "owns s d k p" "closed L s d k p t"
  proof -
    from wf_owns_live [OF wf that(1)] obtain H where H: "hds s p = Some H" by blast
    from that(2) H have "hds t = (hds s)(p := None)" "refs t = refs (decr_refs (slot_refs H) s)"
      by (simp_all add: closed_def)
    with upd [of t p None] H show ?thesis
      by (intro backedI [OF s t]) (simp add: decr_refs_def)
  qed
qed

section \<open>Scripts\<close>

text \<open>
  The references taken around a script are a reserve while it runs: what the script may release
  are references of slots.
\<close>

lemma backed_reserve:
  "backed c (decr_refs obs s) \<longleftrightarrow> backed (\<lambda>ob. c ob + int (count_list obs ob)) s"
  "backed (\<lambda>ob. c ob + int (count_list obs ob)) (incr_refs obs s) \<longleftrightarrow> backed c s"
proof -
  have eqs: "hds (decr_refs obs s) = hds s" "hds (incr_refs obs s) = hds s" by simp_all
  show "backed c (decr_refs obs s) \<longleftrightarrow> backed (\<lambda>ob. c ob + int (count_list obs ob)) s"
    by (simp add: backed_def slot_uses_cong [OF eqs(1)]) (simp add: decr_refs_def algebra_simps)
  show "backed (\<lambda>ob. c ob + int (count_list obs ob)) (incr_refs obs s) \<longleftrightarrow> backed c s"
    by (simp add: backed_def slot_uses_cong [OF eqs(2)]) (simp add: incr_refs_def algebra_simps)
qed

lemma backed_callbacks:
  fixes T :: "'w tcl"
  assumes T: "\<And>c. scripts_allow T everywhere (backed c)"
  shows "callbacks_allow T everywhere (backed c)"
  unfolding callbacks_allow_def
proof (intro allI impI)
  fix p objv cbname e ok and s :: "'w st"
  assume "backed c s"
  then have "allows (EvalObjv T i objv (incr_refs objv s)) (\<lambda>(r, s1). backed c (decr_refs objv s1))" for i
    using T [of "\<lambda>ob. c ob + int (count_list objv ob)"] unfolding backed_reserve [of c objv]
    by (simp add: scripts_allow_def backed_reserve)
  note ev = allows_mono [OF this]
  show "allows (CallbackEval T p objv cbname e ok s) (\<lambda>(r, t). backed c t)"
    unfolding CallbackEval_def by (auto simp: Let_def intro!: allows_with_hd ev split: option.splits)
qed

lemma tower_backed: "scripts_respect (tower L T body n) everywhere everywhere (backed c)"
proof (induction n arbitrary: c)
  case 0
  have "scripts_allow (tower L T body 0) everywhere (backed c)" for c by (simp add: scripts_allow_def nesting_refused_def)
  from backed_callbacks [OF this] show ?case by (simp add: scripts_respect_def backed.outside_script_P)
next
  case (Suc n)
  have "scripts_allow (tower L T body (Suc n)) everywhere (backed c)" for c
    using backed.run_script_P [OF Suc.IH] by (simp add: scripts_allow_def)
  from backed_callbacks [OF this] show ?case by (simp add: scripts_respect_def backed.outside_script_P)
qed

lemma backed_initial: "backed (\<lambda>_. 0) (initial w)"
  by (simp add: backed_def wf_initial) (simp add: slot_uses_def initial_def)

lemma reachable_backed:
  "reachable L (tower L T body n) (initial w) s \<Longrightarrow> backed (\<lambda>_. 0) s"
  by (rule backed.reachable_P [OF tower_backed any_world_top _ backed_initial TrueI])

text \<open>What a slot stores is covered, also if procedure and argument are one object.\<close>

lemma held_nth:
  "n < length zs \<Longrightarrow> zs ! n = (Some c, Some a) \<Longrightarrow> count_list [c, a] ob \<le> count_list (held zs) ob"
proof (induction zs arbitrary: n)
  case (Cons z zs)
  obtain x y where z: "z = (x, y)" by force
  show ?case
    using Cons.IH [of "n - 1"] Cons.prems unfolding z
    by (cases n; cases x; cases y) auto
qed simp

lemma slot_backed:
  assumes s: "backed (\<lambda>_. 0) s" and H: "hds s p = Some H" and n: "n < CALLBACKS_COUNT" and c: "cb_procs H ! n = Some proc"
  shows "\<exists>arg. cb_args H ! n = Some arg \<and> (\<forall>ob. int (count_list [proc, arg] ob) \<le> refs s ob)"
proof -
  have wf: "wf_st s" using s by (simp add: backed_def)
  have sl: "slots_wf H" using wf_live_hd [OF wf H] by (simp add: wf_hd_def)
  with n c obtain arg where arg: "cb_args H ! n = Some arg" by (force simp: slots_wf_def)
  have "int (count_list [proc, arg] ob) \<le> refs s ob" for ob
  proof -
    have "count_list [proc, arg] ob \<le> count_list (slot_refs H) ob"
      unfolding slot_refs_def by (rule held_nth [of n]) (use sl n c arg in \<open>simp_all add: slots_wf_def\<close>)
    moreover have "slot_uses s ob \<le> refs s ob" using s by (simp add: backed_def)
    ultimately show ?thesis using slot_uses_ge [OF wf H, of ob] by linarith
  qed
  with arg show ?thesis by blast
qed

end
