(* ===== verification/Handle_Account.thy ===== *)
theory Handle_Account
  imports Reachability
begin

text \<open>
  The handles libdtrace has open are the handles the extension keeps: each one is held by exactly
  one structure, so that \<^verbatim>\<open>::dtrace::close\<close> gives it back once, and an \<^verbatim>\<open>::dtrace::open\<close>
  that fails half-way leaves none behind. How often libdtrace has opened a handle and how often it
  was told to close it is a function of its world; how its calls change it is the contract
  \<open>tracks\<close>. The account is an instance of the locale \<open>enduring\<close> that looks at the world.
\<close>

section \<open>The contract of libdtrace\<close>

text \<open>
  \<open>opens w h\<close> is the number of times \<^verbatim>\<open>dtrace_open\<close> has returned the handle \<open>h\<close>, less the number
  of times \<^verbatim>\<open>dtrace_close\<close> was called with it: 1 for a handle that is open, negative for one that
  was closed too often. \<^verbatim>\<open>dtrace_open\<close> gives a handle that is not open, or opens nothing; no other
  call opens or closes one.
\<close>

definition tracks :: "'w libdtrace \<Rightarrow> ('w \<Rightarrow> dtrace_hdl \<Rightarrow> int) \<Rightarrow> bool" where
  "tracks L opens \<longleftrightarrow> calls_within L (\<lambda>v w. opens w = opens v) \<and>
     (\<forall>nodev v h w. dtrace_open L nodev v = (Inr h, w) \<longrightarrow> opens v h = 0 \<and> opens w = (opens v)(h := 1)) \<and>
     (\<forall>nodev v e w. dtrace_open L nodev v = (Inl e, w) \<longrightarrow> opens w = opens v) \<and>
     (\<forall>h v. opens (dtrace_close L h v) = (opens v)(h := opens v h - 1))"

lemma tracks_calls:
  assumes "tracks L opens" and "rtranclp (plain_call L) v w"
  shows "opens w = opens v"
  using assms(2) by induction (use assms(1) in \<open>auto simp: tracks_def calls_within_def\<close>)

lemma tracks_open:
  assumes "tracks L opens" and "dtrace_open L nodev v = (Inr h, w)"
  shows "opens v h = 0" and "opens w = (opens v)(h := 1)"
  using assms unfolding tracks_def by blast+

lemma tracks_given_up:
  assumes L: "tracks L opens" and "given_up L v w"
  shows "opens w = opens v"
  using assms(2) unfolding given_up_def
proof (elim disjE exE conjE)
  fix nodev e assume "dtrace_open L nodev v = (Inl e, w)"
  with L show ?thesis by (auto simp: tracks_def)
next
  fix nodev h v1 v2 assume o: "dtrace_open L nodev v = (Inr h, v1)" "rtranclp (plain_call L) v1 v2" "w = dtrace_close L h v2"
  then have "opens w = (opens v1)(h := opens v1 h - 1)" using L tracks_calls [OF L o(2)] by (auto simp: tracks_def)
  with tracks_open [OF L o(1)] show ?thesis by (simp add: fun_eq_iff)
qed

section \<open>The account\<close>

definition hdls :: "'w st \<Rightarrow> dtrace_hdl set" where
  "hdls s = {h. \<exists>p H. hds s p = Some H \<and> hdl H = Some h}"

definition hdl_at :: "'w st \<Rightarrow> addr \<Rightarrow> dtrace_hdl option" where
  "hdl_at s p = (case hds s p of None \<Rightarrow> None | Some H \<Rightarrow> hdl H)"

text \<open>\<open>B\<close> is the account at the start: others in the process may have handles of their own.\<close>

definition balanced :: "('w \<Rightarrow> dtrace_hdl \<Rightarrow> int) \<Rightarrow> (dtrace_hdl \<Rightarrow> int) \<Rightarrow> 'w st \<Rightarrow> bool" where
  "balanced opens B s \<longleftrightarrow> opens (world s) = (\<lambda>h. if h \<in> ran (hdl_at s) then 1 else B h) \<and>
     (\<forall>h \<in> ran (hdl_at s). B h = 0) \<and> inj_on (hdl_at s) (dom (hdl_at s))"

lemma hdls_ran: "hdls s = ran (hdl_at s)"
  by (auto simp: hdls_def hdl_at_def ran_def split: option.splits)

lemma balanced_same:
  assumes "balanced opens B s" and "hdl_at t = hdl_at s" and "opens (world t) = opens (world s)"
  shows "balanced opens B t"
  using assms by (simp add: balanced_def)

lemma hdl_at_cong: "hds t = hds s \<Longrightarrow> hdl_at t = hdl_at s"
  by (simp add: hdl_at_def fun_eq_iff)

lemma ran_drop:
  assumes "inj_on m (dom m)" and "m p = Some h"
  shows "ran (m(p := None)) = ran m - {h}"
proof (intro set_eqI iffI)
  fix x assume "x \<in> ran (m(p := None))"
  then obtain q where "q \<noteq> p" "m q = Some x" by (auto simp: ran_def split: if_splits)
  moreover from this assms have "x \<noteq> h" by (auto simp: inj_on_def dom_def)
  ultimately show "x \<in> ran m - {h}" by (auto simp: ran_def)
next
  fix x assume "x \<in> ran m - {h}"
  then obtain q where "m q = Some x" "x \<noteq> h" by (auto simp: ran_def)
  with assms(2) have "(m(p := None)) q = Some x" by auto
  then show "x \<in> ran (m(p := None))" by (rule ranI)
qed

lemma balanced_add:
  assumes "balanced opens B s" and "hdl_at t = (hdl_at s)(p := Some h)" and "hdl_at s p = None"
    and "opens (world s) h = 0" and "opens (world t) = (opens (world s))(h := 1)"
  shows "balanced opens B t"
proof -
  have "h \<notin> ran (hdl_at s)" using assms(1,4) by (auto simp: balanced_def split: if_splits)
  then have "inj_on (hdl_at t) (dom (hdl_at t))"
    using assms(1) unfolding assms(2) balanced_def by (auto simp: inj_on_def ran_def)
  moreover have "ran (hdl_at t) = insert h (ran (hdl_at s))" unfolding assms(2) by (rule ran_map_upd) (fact assms(3))
  ultimately show ?thesis using assms(1,4,5) \<open>h \<notin> ran (hdl_at s)\<close> by (auto simp: balanced_def split: if_splits)
qed

lemma balanced_drop:
  assumes s: "balanced opens B s" and t: "hdl_at t = (hdl_at s)(p := None)" and h: "hdl_at s p = Some h"
    and o: "opens (world t) = (opens (world s))(h := opens (world s) h - 1)"
  shows "balanced opens B t"
proof -
  have "ran (hdl_at t) = ran (hdl_at s) - {h}"
    using s h unfolding t balanced_def by (simp add: ran_drop)
  moreover have "h \<in> ran (hdl_at s)" using h by (auto simp: ran_def)
  moreover have "inj_on (hdl_at t) (dom (hdl_at t))"
    using s unfolding t balanced_def by (auto simp: inj_on_def dom_def split: if_splits)
  ultimately show ?thesis using s o by (auto simp: balanced_def fun_eq_iff)
qed

section \<open>The account lasts\<close>

text \<open>If \<open>L\<close> does not keep to the contract nothing is said, so any \<open>L\<close> gives an instance.\<close>

definition kept :: "'w libdtrace \<Rightarrow> ('w \<Rightarrow> dtrace_hdl \<Rightarrow> int) \<Rightarrow> 'w \<Rightarrow> 'w \<Rightarrow> bool" where
  "kept L opens v w \<longleftrightarrow> (tracks L opens \<longrightarrow> opens w = opens v)"

lemma calls_kept: "calls_within L (kept L opens)"
proof (cases "tracks L opens")
  case True
  then have "kept L opens = (\<lambda>v w. opens w = opens v)" by (simp add: kept_def fun_eq_iff)
  with True show ?thesis by (simp add: tracks_def)
next
  case False
  then have "kept L opens = any_world" by (simp add: kept_def fun_eq_iff)
  then show ?thesis by simp
qed

definition accounted :: "'w libdtrace \<Rightarrow> ('w \<Rightarrow> dtrace_hdl \<Rightarrow> int) \<Rightarrow> (dtrace_hdl \<Rightarrow> int) \<Rightarrow> 'w st \<Rightarrow> 'w st \<Rightarrow> bool" where
  "accounted L opens B s0 s \<longleftrightarrow> steady s0 s \<and> (tracks L opens \<longrightarrow> balanced opens B s)"

lemma accounted_same:
  assumes "accounted L opens B s0 s" and "steady s0 t" and "hds t = hds s" and "kept L opens (world s) (world t)"
  shows "accounted L opens B s0 t"
  using assms balanced_same [OF _ hdl_at_cong [OF assms(3)]] by (simp add: accounted_def kept_def)

interpretation accounts: conserved L "kept L opens" "accounted L opens B s0" everywhere everywhere for L opens B s0
proof unfold_locales
  show "calls_within L (kept L opens)" by (rule calls_kept)
next
  fix s s' :: "'a st"
  assume c: "core s' = core s" and w: "world s' = world s"
  from core_eqD(4) [OF c] have "hdl_at s' = hdl_at s" by (rule hdl_at_cong)
  with w have "balanced opens B s' = balanced opens B s" by (simp add: balanced_def)
  then show "accounted L opens B s0 s' = accounted L opens B s0 s"
    unfolding accounted_def steady_core [OF c] by simp
next
  fix s :: "'a st" and w
  assume s: "accounted L opens B s0 s" and "kept L opens (world s) w"
  then show "accounted L opens B s0 (put_world w s)"
    by (intro accounted_same [OF s]) (simp_all add: accounted_def)
next
  fix s t :: "'a st" and p H H' i prog
  assume s: "accounted L opens B s0 s"
  then have st: "steady s0 s" by (simp add: accounted_def)
  then show "wf_st s" by (rule steady_wf)
  show "accounted L opens B s0 (put_hd p H' s)"
    if "hds s p = Some H" "wf_hd H'" "hdl H' = hdl H" "hd_interp H' = hd_interp H"
  proof -
    have "hdl_at (put_hd p H' s) = hdl_at s" using that by (simp add: hdl_at_def fun_eq_iff)
    then show ?thesis
      using s steady.settled_put [OF st TrueI that] balanced_same [of opens B s "put_hd p H' s"] by (simp add: accounted_def)
  qed
  show "accounted L opens B s0 t" if "registered s i p prog t" "wf_st t"
    using that steady.settled_register [OF st TrueI that]
    by (intro accounted_same [OF s]) (simp_all add: registered_def kept_def)
qed simp_all

interpretation account: enduring L "kept L opens" "accounted L opens B s0" everywhere everywhere for L opens B s0
proof unfold_locales
  fix s t :: "'a st" and i d k p
  assume s: "accounted L opens B s0 s" and t: "wf_st t"
  then have st: "steady s0 s" by (simp add: accounted_def)
  then have wf: "wf_st s" and ready: "all_ready s" by (simp_all add: steady_def)
  note same = accounted_same [OF s]
  show "accounted L opens B s0 t" if "open_undone s i t" "given_up L (world s) (world t)"
    using that lasts.lasting_undone [OF st TrueI that t] tracks_given_up [of L opens]
    by (intro same) (simp_all add: open_undone_def kept_def)
  show "accounted L opens B s0 t" if "attached s i t"
    using that lasts.lasting_attach [OF st TrueI that t] by (intro same) (simp_all add: attached_def kept_def)
  show "accounted L opens B s0 t" if "dropped s i t"
    using that lasts.lasting_drop [OF st TrueI that t] by (intro same) (simp_all add: dropped_def kept_def)
  show "accounted L opens B s0 t" if o: "opened s i t" and b: "begun L s t"
  proof -
    have "balanced opens B t" if L: "tracks L opens" "balanced opens B s"
    proof -
      from b obtain nodev h w H where h: "dtrace_open L nodev (world s) = (Inr h, w)" "rtranclp (plain_call L) w (world t)"
        "hds t (brk s) = Some H" "hdl H = Some h" by (auto simp: begun_def)
      from o h(3,4) have "hds t = (hds s)(brk s \<mapsto> H)" by (auto simp: opened_def)
      with h(4) have "hdl_at t = (hdl_at s)(brk s := Some h)" by (simp add: hdl_at_def fun_eq_iff)
      moreover have "hdl_at s (brk s) = None" using wf_fresh_addr [OF wf] by (simp add: hdl_at_def)
      ultimately show ?thesis
        using tracks_open [OF L(1) h(1)] tracks_calls [OF L(1) h(2)] by (intro balanced_add [OF L(2)]) simp_all
    qed
    with s lasts.lasting_open [OF st TrueI o b t] show ?thesis by (simp add: accounted_def)
  qed
  show "accounted L opens B s0 t" if d: "assoc s i = Some d" "owns s d k p" and c: "closed L s d k p t"
  proof -
    from wf_owns_live [OF wf d(2)] all_readyD [OF ready] obtain H h where H: "hds s p = Some H" "hdl H = Some h"
      by (fastforce simp: ready_def)
    have "balanced opens B t" if L: "tracks L opens" "balanced opens B s"
    proof (rule balanced_drop [OF L(2)])
      show "hdl_at t = (hdl_at s)(p := None)" using c by (simp add: closed_def hdl_at_def fun_eq_iff)
      show "hdl_at s p = Some h" using H by (simp add: hdl_at_def)
      show "opens (world t) = (opens (world s))(h := opens (world s) h - 1)" using c H L(1) by (simp add: closed_def tracks_def)
    qed
    with s lasts.lasting_close [OF st TrueI d c t] show ?thesis by (simp add: accounted_def)
  qed
qed

lemma balanced_distinct:
  assumes "balanced opens B s" and "all_ready s" and "hds s p = Some H" and "hds s q = Some K" and "hdl H = hdl K"
  shows "p = q"
proof -
  have "hdl_at s p = hdl H" "hdl_at s q = hdl K" "hdl H \<noteq> None" "hdl K \<noteq> None"
    using assms(2-4) by (auto simp: hdl_at_def all_ready_def)
  with assms(1,5) show ?thesis by (auto simp: balanced_def inj_on_def dom_def)
qed

lemma reachable_accounted:
  assumes "tracks L opens" and "reachable_under (\<lambda>v w. opens w = opens v) L (tower L T body n) (initial w) s"
  shows "balanced opens (opens w) s" and "all_ready s" and "wf_st s"
proof -
  have "hdl_at (initial w) = Map.empty" by (simp add: hdl_at_def initial_def fun_eq_iff)
  then have "accounted L opens (opens w) (initial w) (initial w)"
    using steady_initial by (simp add: accounted_def balanced_def) (simp add: initial_def)
  moreover have "(\<lambda>v w. opens w = opens v) \<le> kept L opens" by (auto simp: kept_def le_fun_def)
  ultimately have "accounted L opens (opens w) (initial w) s"
    using account.reachable_tower_P [OF assms(2)] by blast
  with assms(1) show "balanced opens (opens w) s" "all_ready s" "wf_st s" by (simp_all add: accounted_def steady_def)
qed

end
