(* ===== verification/Handle_Homes.thy ===== *)
theory Handle_Homes
  imports Reachability
begin

text \<open>
  Whose handle is it: the structure behind a handle number keeps, in \<^verbatim>\<open>hd->interp\<close>, the
  interpreter that opened it, and callbacks run there. That it is always the interpreter in
  whose table the number is, is an instance of the locale \<open>enduring\<close>.
\<close>

definition homed :: "'w st \<Rightarrow> bool" where
  "homed s \<longleftrightarrow> wf_st s \<and>
     (\<forall>i d k p H. assoc s i = Some d \<longrightarrow> owns s d k p \<longrightarrow> hds s p = Some H \<longrightarrow> hd_interp H = Some i)"

lemma homedI:
  assumes "wf_st s"
    and "\<And>i d k p H. assoc s i = Some d \<Longrightarrow> owns s d k p \<Longrightarrow> hds s p = Some H \<Longrightarrow> hd_interp H = Some i"
  shows "homed s"
  using assms by (auto simp: homed_def)

lemma homedD: "homed s \<Longrightarrow> assoc s i = Some d \<Longrightarrow> owns s d k p \<Longrightarrow> hds s p = Some H \<Longrightarrow> hd_interp H = Some i"
  by (auto simp: homed_def)

interpretation homes: settled "homed :: 'w st \<Rightarrow> bool" everywhere everywhere
proof unfold_locales
  fix s s' :: "'w st"
  show "homed s \<Longrightarrow> wf_st s" by (simp add: homed_def)
  assume c: "core s' = core s"
  show "homed s' = homed s"
    by (simp add: homed_def wf_core [OF c] owns_core [OF c] core_eqD [OF c])
next
  fix s t :: "'w st" and p :: addr and H H' :: handle_data and i prog
  assume s: "homed s"
  then have wf: "wf_st s" by (simp add: homed_def)
  show "homed (put_hd p H' s)" if "hds s p = Some H" "wf_hd H'" "hd_interp H' = hd_interp H"
  proof (rule homedI)
    show "wf_st (put_hd p H' s)" using wf_put_hd [OF wf that(1,2)] .
    have "owns (put_hd p H' s) = owns s" by (simp add: fun_eq_iff owns_def)
    then show "hd_interp Ho = Some j"
      if "assoc (put_hd p H' s) j = Some e" "owns (put_hd p H' s) e k q" "hds (put_hd p H' s) q = Some Ho" for j e k q Ho
      using that \<open>hds s p = Some H\<close> \<open>hd_interp H' = hd_interp H\<close> by (auto split: if_splits dest: homedD [OF s])
  qed
  show "homed t" if "registered s i p prog t" "wf_st t"
    using that by (intro homedI) (auto simp: registered_def dest: homedD [OF s])
qed

interpretation homed: enduring L any_world "homed :: 'w st \<Rightarrow> bool" everywhere everywhere for L
proof unfold_locales
  fix s t :: "'w st" and p :: addr and i d k
  assume s: "homed s" and t: "wf_st t"
  then have wf: "wf_st s" by (simp add: homed_def)
  note keep = homedI [OF t]
  show "open_undone s i t \<Longrightarrow> homed t"
    by (rule keep) (auto simp: open_undone_def dest: homedD [OF s])
  show "dropped s i t \<Longrightarrow> homed t"
    by (rule keep) (auto simp: dropped_def split: if_splits dest: homedD [OF s])
  show "closed L s d k p t \<Longrightarrow> homed t"
    by (rule keep) (auto simp: closed_def split: if_splits dest: homedD [OF s])
  have "dds s d = None \<Longrightarrow> \<not> owns s d k q" for d k q by (simp add: owns_def)
  then show "attached s i t \<Longrightarrow> homed t"
    by (intro keep) (auto simp: attached_def split: if_splits dest: homedD [OF s])
  show "homed t" if "opened s i t"
  proof (rule keep)
    fix i' d' k' p' H'
    assume a: "assoc t i' = Some d'" and o: "owns t d' k' p'" and h: "hds t p' = Some H'"
    from that obtain d0 where d0: "assoc s i = Some d0" "assoc t = assoc s"
      and ow: "owns t d' k' p' \<longleftrightarrow> (d' = d0 \<and> k' = next_free_id s \<and> p' = brk s) \<or> owns s d' k' p'"
      by (auto simp: opened_def)
    from that obtain h0 n where hds: "hds t = (hds s)(brk s \<mapsto> (fresh_hd (Some h0) n)\<lparr>hd_interp := Some i\<rparr>)"
      by (auto simp: opened_def)
    from o ow consider "d' = d0" "p' = brk s" | "owns s d' k' p'" by blast
    then show "hd_interp H' = Some i'"
    proof cases
      case 1
      with h hds have "hd_interp H' = Some i" by auto
      moreover from 1 a d0 wf_assoc_inj [OF wf] have "i' = i" by simp
      ultimately show ?thesis by simp
    next
      case 2
      with wf_owns_live [OF wf] wf_live_brk [OF wf] have "p' \<noteq> brk s" by fastforce
      with h hds a d0 homedD [OF s _ 2] show ?thesis by simp
    qed
  qed
qed

lemma homed_initial: "homed (initial w)"
  by (rule homedI [OF wf_initial]) (simp add: initial_def)

lemma reachable_homed: "reachable L (tower L T body n) (initial w) s \<Longrightarrow> homed s"
  by (rule homed.reachable_tower_P [OF _ any_world_top homed_initial TrueI])

end
