(* ===== verification/Isolation.thy ===== *)
theory Isolation
  imports Handle_Homes
begin

text \<open>
  Interpreters do not disturb each other: what one interpreter does, with all the scripts that
  its callbacks run, leaves the handles and programs of another as they are. It is an instance
  of the locale \<open>enduring\<close> in which things happen everywhere but in one interpreter.
\<close>

section \<open>What belongs to an interpreter\<close>

definition handles_in :: "interp \<Rightarrow> 'w st \<Rightarrow> addr \<rightharpoonup> handle_data" where
  "handles_in j s = (\<lambda>p. case hds s p of Some H \<Rightarrow> if hd_interp H = Some j then Some H else None | None \<Rightarrow> None)"

definition undisturbed :: "interp \<Rightarrow> 'w st \<Rightarrow> 'w st \<Rightarrow> bool" where
  "undisturbed j s t \<longleftrightarrow> homed t \<and> assoc t j = assoc s j \<and> handles_in j t = handles_in j s \<and>
     (\<forall>d. assoc s j = Some d \<longrightarrow> owns t d = owns s d \<and> has_prog t d = has_prog s d)"

lemma handles_in_Some: "handles_in j s p = Some H \<longleftrightarrow> hds s p = Some H \<and> hd_interp H = Some j"
  by (auto simp: handles_in_def split: option.splits)

lemma handles_in_upd:
  assumes "hds t = (hds s)(p := x)" and "handles_in j s p = None"
    and "\<And>H. x = Some H \<Longrightarrow> hd_interp H \<noteq> Some j"
  shows "handles_in j t = handles_in j s"
  using assms by (auto simp: handles_in_def fun_eq_iff split: option.splits if_splits)

lemma handles_in_cong: "hds t = hds s \<Longrightarrow> handles_in j t = handles_in j s"
  by (simp add: handles_in_def)

lemma undisturbed_refl: "homed s \<Longrightarrow> undisturbed j s s"
  by (simp add: undisturbed_def)

text \<open>It is enough to look at one change.\<close>

lemma undisturbed_step:
  assumes "undisturbed j s t" and "homed u" and "assoc u j = assoc t j" and "handles_in j u = handles_in j t"
    and "\<And>d. assoc t j = Some d \<Longrightarrow> owns u d = owns t d \<and> has_prog u d = has_prog t d"
  shows "undisturbed j s u"
  using assms by (simp add: undisturbed_def)

lemma undisturbed_homed: "undisturbed j s t \<Longrightarrow> homed t"
  by (simp add: undisturbed_def)

lemma other_data: "homed t \<Longrightarrow> assoc t i = Some e \<Longrightarrow> i \<noteq> j \<Longrightarrow> assoc t j = Some d \<Longrightarrow> d \<noteq> e"
  using wf_assoc_inj by (auto simp: homed_def)

lemma other_handles:
  assumes t: "homed t" and "assoc t i = Some d" and "owns t d k p" and "i \<noteq> j"
  shows "handles_in j t p = None"
proof -
  have "wf_st t" using t by (simp add: homed_def)
  from wf_owns_live [OF this assms(3)] obtain H where H: "hds t p = Some H" by blast
  with homedD [OF t assms(2,3) H] assms(4) show ?thesis by (simp add: handles_in_def)
qed

interpretation elsewhere: settled "undisturbed j s0 :: 'w st \<Rightarrow> bool" "\<lambda>i. i \<noteq> j" "\<lambda>p. handles_in j s0 p = None" for j s0
proof unfold_locales
  fix s s' :: "'w st"
  show "undisturbed j s0 s \<Longrightarrow> wf_st s" by (simp add: undisturbed_def homed_def)
  assume c: "core s' = core s"
  show "undisturbed j s0 s' = undisturbed j s0 s"
    by (simp add: undisturbed_def homes.settled_core [OF c] owns_core [OF c] has_prog_core [OF c] core_eqD [OF c]
        handles_in_cong [of s' s])
next
  fix s t :: "'w st" and p :: addr and H H' :: handle_data and i d k prog
  assume s: "undisturbed j s0 s"
  then have h: "homed s" and same: "handles_in j s = handles_in j s0" by (simp_all add: undisturbed_def)
  show "i \<noteq> j \<Longrightarrow> assoc s i = Some d \<Longrightarrow> owns s d k p \<Longrightarrow> handles_in j s0 p = None"
    using other_handles [OF h] same by metis
  assume p: "handles_in j s0 p = None"
  show "i \<noteq> j" if "hds s p = Some H" "hd_interp H = Some i"
    using that p same handles_in_Some [of j s p H] by auto
  show "undisturbed j s0 (put_hd p H' s)" if "hds s p = Some H" "wf_hd H'" "hdl H' = hdl H" "hd_interp H' = hd_interp H"
  proof (rule undisturbed_step [OF s homes.settled_put [OF h TrueI that]])
    show "handles_in j (put_hd p H' s) = handles_in j s"
      using that p same handles_in_Some [of j s p H] by (intro handles_in_upd [of _ _ p "Some H'"]) auto
    have "owns (put_hd p H' s) = owns s" "has_prog (put_hd p H' s) = has_prog s" by (simp_all add: fun_eq_iff owns_def has_prog_def)
    then show "owns (put_hd p H' s) d = owns s d \<and> has_prog (put_hd p H' s) d = has_prog s d" for d by simp
  qed simp
next
  fix s t :: "'w st" and i p prog
  assume s: "undisturbed j s0 s" and i: "i \<noteq> j" and r: "registered s i p prog t" and t: "wf_st t"
  have h: "homed s" by (rule undisturbed_homed [OF s])
  show "undisturbed j s0 t"
    using r other_data [OF h _ i]
    by (intro undisturbed_step [OF s homes.settled_register [OF h TrueI r t]])
      (auto simp: registered_def fun_eq_iff handles_in_def)
qed

interpretation others: enduring L any_world "undisturbed j s0 :: 'w st \<Rightarrow> bool" "\<lambda>i. i \<noteq> j" "\<lambda>p. handles_in j s0 p = None" for L j s0
proof unfold_locales
  fix s t :: "'w st" and i d k p
  assume s: "undisturbed j s0 s" and i: "i \<noteq> j" and t: "wf_st t"
  have h: "homed s" and wf: "wf_st s" using undisturbed_homed [OF s] by (simp_all add: homed_def)
  note step = undisturbed_step [OF s] and other = other_data [OF h _ i]
  show "undisturbed j s0 t" if o: "opened s i t" "begun L s t"
  proof (rule step [OF homed.lasting_open [OF h TrueI o t]])
    from o(1) obtain h m where hds: "hds t = (hds s)(brk s \<mapsto> (fresh_hd (Some h) m)\<lparr>hd_interp := Some i\<rparr>)"
      by (auto simp: opened_def)
    show "handles_in j t = handles_in j s"
      by (rule handles_in_upd [OF hds]) (use wf_fresh_addr [OF wf] i in \<open>auto simp: handles_in_def\<close>)
  qed (use o(1) other in \<open>auto simp: opened_def fun_eq_iff\<close>)
  show "undisturbed j s0 t" if o: "open_undone s i t" "given_up L (world s) (world t)"
    using o(1) other
    by (intro step [OF homed.lasting_undone [OF h TrueI o t]]) (auto simp: open_undone_def fun_eq_iff handles_in_def)
  show "undisturbed j s0 t" if a: "attached s i t"
    using a i by (intro step [OF homed.lasting_attach [OF h TrueI a t]]) (auto simp: attached_def handles_in_def)
  show "undisturbed j s0 t" if d: "dropped s i t"
    using d i other
    by (intro step [OF homed.lasting_drop [OF h TrueI d t]]) (auto simp: dropped_def fun_eq_iff handles_in_def)
  show "undisturbed j s0 t" if d: "assoc s i = Some d" "owns s d k p" and c: "closed L s d k p t"
  proof (rule step [OF homed.lasting_close [OF h TrueI d c t]])
    show "handles_in j t = handles_in j s"
      by (rule handles_in_upd [of _ _ p None]) (use c other_handles [OF h d i] in \<open>auto simp: closed_def\<close>)
    fix e assume e: "assoc s j = Some e"
    have "\<not> owns s e k q" for q
      using wf_owns_unique [OF wf d(2), of e k q] other [OF d(1) e] by auto
    with c other [OF d(1) e] show "owns t e = owns s e \<and> has_prog t e = has_prog s e"
      by (auto simp: closed_def fun_eq_iff)
  qed (use c in \<open>simp add: closed_def\<close>)
qed

section \<open>One call\<close>

lemma call_undisturbed:
  assumes "homed s" and "i \<noteq> j"
  shows "allows (call_command L (tower L T body n) i cmdname objv s) (\<lambda>(rc, t). undisturbed j s t)"
  by (rule others.call_command_P [OF others.tower_P undisturbed_refl [OF assms(1)] assms(2)])

lemma destroy_undisturbed:
  assumes "homed s" and "i \<noteq> j"
  shows "allows (destroy_interp L i s) (undisturbed j s)"
  by (rule others.destroy_P [OF undisturbed_refl [OF assms(1)] assms(2)])

lemma load_undisturbed:
  assumes "homed s" and "i \<noteq> j"
  shows "allows (Dtrace_Init (tower L T body n) i s) (\<lambda>(rc, t). undisturbed j s t)"
  by (rule others.Dtrace_Init_P [OF others.tower_P [where L = L] undisturbed_refl [OF assms(1)] assms(2)])

text \<open>What that means for the numbers the other interpreter knows.\<close>

lemma undisturbed_lookups:
  assumes "undisturbed j s t" and "homed s"
  shows "handle_of t j k = handle_of s j k" and "program_of t j k = program_of s j k"
    and "handle_of s j k = Some p \<Longrightarrow> hds t p = hds s p"
proof -
  have a: "assoc t j = assoc s j" "\<And>d. assoc s j = Some d \<Longrightarrow> owns t d = owns s d \<and> has_prog t d = has_prog s d"
    using assms(1) by (simp_all add: undisturbed_def)
  have "handle_of t j k = Some q \<longleftrightarrow> handle_of s j k = Some q" "program_of t j k = Some pd \<longleftrightarrow> program_of s j k = Some pd" for q pd
    using a by (auto simp: handle_of_owns program_of_has)
  then show "handle_of t j k = handle_of s j k" "program_of t j k = program_of s j k"
    by (metis option.exhaust_sel)+
  assume "handle_of s j k = Some p"
  then obtain d where d: "assoc s j = Some d" "owns s d k p" by (auto simp: handle_of_owns)
  have "wf_st s" using assms(2) by (simp add: homed_def)
  from wf_owns_live [OF this d(2)] obtain H where H: "hds s p = Some H" by blast
  with homedD [OF assms(2) d] have "handles_in j s p = Some H" by (simp add: handles_in_Some)
  with assms(1) have "handles_in j t p = Some H" by (simp add: undisturbed_def)
  with H show "hds t p = hds s p" by (simp add: handles_in_Some)
qed

end
