(* ===== verification/Id_Threads.thy ===== *)
theory Id_Threads
  imports Registry_Inv
begin

text \<open>
  The numbers of handles and programs are shared by all threads of the process. \<^verbatim>\<open>new_hd\<close> and
  \<^verbatim>\<open>register_pd\<close> copy the counter and increment it between \<^verbatim>\<open>Tcl_MutexLock\<close> and
  \<^verbatim>\<open>Tcl_MutexUnlock\<close>. Here these lines run as single accesses to memory, of any number of
  threads in any order; that they amount to one indivisible allocation is what lets the rest of
  the development treat a call of \<^verbatim>\<open>new_hd\<close> as one step.
\<close>

section \<open>The lines between the locks\<close>

text \<open>
  Where a thread stands: before the lock, after it, after \<^verbatim>\<open>*id = next_free_id\<close>, inside of
  \<^verbatim>\<open>next_free_id++\<close> with the value it has read, and before the unlock.
\<close>

datatype pc = Outside | Locked | Copied | Loaded int | Stored

text \<open>\<open>given\<close> holds the numbers given out, with the thread that got them, in the order of the unlocks.\<close>

record machine =
  counter :: int
  owner :: "nat option"
  pcs :: "nat \<Rightarrow> pc"
  local_id :: "nat \<Rightarrow> int"
  given :: "(nat \<times> int) list"

definition machine_start :: machine where
  "machine_start = \<lparr>counter = 1, owner = None, pcs = (\<lambda>_. Outside), local_id = (\<lambda>_. 0), given = []\<rparr>"

text \<open>
  One access of thread \<open>t\<close>, \<open>None\<close> if it has to wait for the mutex. An increment beyond the
  largest \<^verbatim>\<open>int\<close> is undefined: nothing follows it.
\<close>

definition advance :: "nat \<Rightarrow> machine \<Rightarrow> machine option" where
  "advance t m =
     (case pcs m t of
        Outside \<Rightarrow> if owner m = None then Some (m\<lparr>owner := Some t, pcs := (pcs m)(t := Locked)\<rparr>) else None
      | Locked \<Rightarrow> Some (m\<lparr>local_id := (local_id m)(t := counter m), pcs := (pcs m)(t := Copied)\<rparr>)
      | Copied \<Rightarrow> Some (m\<lparr>pcs := (pcs m)(t := Loaded (counter m))\<rparr>)
      | Loaded v \<Rightarrow> if v < INT_MAX then Some (m\<lparr>counter := v + 1, pcs := (pcs m)(t := Stored)\<rparr>) else None
      | Stored \<Rightarrow> Some (m\<lparr>owner := None, pcs := (pcs m)(t := Outside), given := given m @ [(t, local_id m t)]\<rparr>))"

inductive access :: "machine \<Rightarrow> machine \<Rightarrow> bool" where
  access: "advance t m = Some m' \<Longrightarrow> access m m'"

inductive_cases accessE: "access m m'"

text \<open>A schedule says which thread makes the next access.\<close>

fun run_schedule :: "nat list \<Rightarrow> machine \<Rightarrow> machine option" where
  "run_schedule [] m = Some m"
| "run_schedule (t # ts) m = (case advance t m of None \<Rightarrow> None | Some m' \<Rightarrow> run_schedule ts m')"

lemma run_schedule_append:
  "run_schedule (ts @ us) m = (case run_schedule ts m of None \<Rightarrow> None | Some m' \<Rightarrow> run_schedule us m')"
  by (induction ts arbitrary: m) (auto split: option.splits)

lemma schedule_access: "run_schedule ts m = Some m' \<Longrightarrow> rtranclp access m m'"
  by (induction ts arbitrary: m) (auto split: option.splits intro: access.intros converse_rtranclp_into_rtranclp)

section \<open>The indivisible allocation\<close>

type_synonym allocator = "int \<times> (nat \<times> int) list"

inductive allocate :: "allocator \<Rightarrow> allocator \<Rightarrow> bool" where
  allocate: "c < INT_MAX \<Longrightarrow> allocate (c, l) (c + 1, l @ [(t, c)])"

text \<open>What \<^verbatim>\<open>new_hd\<close> and \<^verbatim>\<open>register_pd\<close> of the model do to the counters is this step.\<close>

lemma new_hd_allocates:
  assumes "wf_st s" and "new_hd i s = Done ((po, n), s')"
  shows "allocate (next_free_id s, l) (next_free_id s', l @ [(t, n)])"
proof -
  have "n = next_free_id s \<and> next_free_id s' = next_free_id s + 1 \<and> next_free_id s \<noteq> INT_MAX"
    using assms(2) by (auto simp: new_hd_def with_assoc_def put_dd_def Let_def with_table_Done split: option.splits if_splits)
  with wf_ids [OF assms(1)] show ?thesis using allocate.intros [of "next_free_id s" l t] by simp
qed

lemma register_pd_allocates:
  assumes "wf_st s" and "register_pd i p prog s = Done (IntObj n, s')"
  shows "allocate (next_free_pid s, l) (next_free_pid s', l @ [(t, n)])"
proof -
  have "n = next_free_pid s \<and> next_free_pid s' = next_free_pid s + 1 \<and> next_free_pid s \<noteq> INT_MAX"
    using assms(2) by (auto simp: register_pd_def with_assoc_def no_data_def put_dd_def Let_def with_table_Done
        split: option.splits if_splits)
  with wf_ids [OF assms(1)] show ?thesis using allocate.intros [of "next_free_pid s" l t] by simp
qed

lemma allocated_numbers:
  "rtranclp allocate (1, []) a \<Longrightarrow> fst a = 1 + int (length (snd a)) \<and> map snd (snd a) = map int [1..<Suc (length (snd a))]"
  by (induction rule: rtranclp_induct) (auto elim!: allocate.cases)

section \<open>Simulation\<close>

locale forward_simulation =
  fixes cstep :: "'c \<Rightarrow> 'c \<Rightarrow> bool"
    and astep :: "'a \<Rightarrow> 'a \<Rightarrow> bool"
    and abs :: "'c \<Rightarrow> 'a"
    and inv :: "'c \<Rightarrow> bool"
  assumes inv_step: "inv m \<Longrightarrow> cstep m m' \<Longrightarrow> inv m'"
    and simulate: "inv m \<Longrightarrow> cstep m m' \<Longrightarrow> abs m' = abs m \<or> astep (abs m) (abs m')"
begin

lemma simulates:
  "rtranclp cstep m m' \<Longrightarrow> inv m \<Longrightarrow> inv m' \<and> rtranclp astep (abs m) (abs m')"
  by (induction rule: rtranclp_induct) (auto dest: inv_step simulate intro: rtranclp.rtrancl_into_rtrancl)

end

text \<open>
  The owner of the mutex is the one thread between the locks, and what it has read of the
  counter is still true. \<open>at_pc\<close> says so for one thread. An allocation counts from the unlock on.
\<close>

definition at_pc :: "machine \<Rightarrow> nat \<Rightarrow> bool" where
  "at_pc m t \<longleftrightarrow> (case pcs m t of
        Outside \<Rightarrow> owner m \<noteq> Some t
      | Locked \<Rightarrow> owner m = Some t
      | Copied \<Rightarrow> owner m = Some t \<and> local_id m t = counter m
      | Loaded v \<Rightarrow> owner m = Some t \<and> v = counter m \<and> local_id m t = counter m
      | Stored \<Rightarrow> owner m = Some t \<and> local_id m t = counter m - 1)"

definition machine_inv :: "machine \<Rightarrow> bool" where
  "machine_inv m \<longleftrightarrow> counter m \<le> INT_MAX \<and> (\<forall>t. at_pc m t)"

definition allocated :: "machine \<Rightarrow> allocator" where
  "allocated m = (if \<exists>t. owner m = Some t \<and> pcs m t = Stored then counter m - 1 else counter m, given m)"

lemma machine_inv_start: "machine_inv machine_start"
  by (simp add: machine_inv_def at_pc_def machine_start_def INT_MAX_def)

lemma allocated_start: "allocated machine_start = (1, [])"
  by (simp add: allocated_def machine_start_def)

lemma at_pc_owner: "at_pc m t \<Longrightarrow> pcs m t \<noteq> Outside \<longleftrightarrow> owner m = Some t"
  by (cases "pcs m t") (simp_all add: at_pc_def)

lemma at_pc_quiet: "at_pc m u \<Longrightarrow> owner m \<noteq> Some u \<Longrightarrow> pcs m u = Outside"
  using at_pc_owner by blast

lemma machine_inv_exclusive: "machine_inv m \<Longrightarrow> pcs m t \<noteq> Outside \<Longrightarrow> pcs m u \<noteq> Outside \<Longrightarrow> t = u"
  using at_pc_owner [of m t] at_pc_owner [of m u] by (simp add: machine_inv_def)

lemma advance_bound: "advance t m = Some m' \<Longrightarrow> counter m \<le> INT_MAX \<Longrightarrow> counter m' \<le> INT_MAX"
  by (cases "pcs m t") (auto simp: advance_def split: if_splits)

lemma advance_self: "advance t m = Some m' \<Longrightarrow> at_pc m t \<Longrightarrow> at_pc m' t"
  by (cases "pcs m t") (auto simp: advance_def at_pc_def split: if_splits)

text \<open>The other threads are outside: they do not notice.\<close>

lemma advance_other:
  assumes "advance t m = Some m'" and "at_pc m t" and "at_pc m u" and "u \<noteq> t"
  shows "at_pc m' u"
proof -
  have "owner m \<noteq> Some u"
    using assms by (cases "pcs m t") (auto simp: advance_def at_pc_def split: if_splits)
  with assms at_pc_quiet [OF assms(3)] have "pcs m' u = Outside" "owner m' \<noteq> Some u"
    by (cases "pcs m t"; auto simp: advance_def split: if_splits)+
  then show ?thesis by (simp add: at_pc_def)
qed

lemma advance_allocated:
  assumes t: "advance t m = Some m'" and at: "at_pc m t" and bound: "counter m \<le> INT_MAX"
  shows "allocated m' = allocated m \<or> allocate (allocated m) (allocated m')"
proof (cases "pcs m t")
  case Stored
  with at have own: "owner m = Some t" and id: "local_id m t = counter m - 1" by (simp_all add: at_pc_def)
  then have "allocated m = (counter m - 1, given m)" "allocated m' = (counter m - 1 + 1, given m @ [(t, counter m - 1)])"
    using t Stored by (auto simp: advance_def allocated_def)
  moreover have "counter m - 1 < INT_MAX" using bound by simp
  ultimately show ?thesis using allocate.intros by presburger
qed (use t at in \<open>auto simp: advance_def at_pc_def allocated_def split: if_splits\<close>)

interpretation ids: forward_simulation access allocate allocated machine_inv
proof unfold_locales
  fix m m'
  assume inv: "machine_inv m" and "access m m'"
  then obtain t where t: "advance t m = Some m'" by (auto elim: accessE)
  from inv have at: "at_pc m u" for u by (simp add: machine_inv_def)
  from inv have bound: "counter m \<le> INT_MAX" by (simp add: machine_inv_def)
  have "at_pc m' u" for u
    using advance_self [OF t at] advance_other [OF t at at] by (cases "u = t") simp_all
  then show "machine_inv m'" using advance_bound [OF t bound] by (simp add: machine_inv_def)
  show "allocated m' = allocated m \<or> allocate (allocated m) (allocated m')"
    by (rule advance_allocated [OF t at bound])
qed

section \<open>Progress\<close>

text \<open>Whoever is between the locks comes out with a few accesses of its own.\<close>

lemma owner_leaves:
  assumes at: "at_pc m t" and own: "owner m = Some t" and room: "counter m < INT_MAX"
  shows "\<exists>ts m' n. run_schedule ts m = Some m' \<and> owner m' = None \<and> counter m' \<le> counter m + 1 \<and>
    given m' = given m @ [(t, n)]"
proof -
  let ?left = "\<lambda>k. \<exists>m' n. run_schedule (replicate k t) m = Some m' \<and> owner m' = None \<and> counter m' \<le> counter m + 1 \<and>
    given m' = given m @ [(t, n)]"
  consider "pcs m t = Locked" | "pcs m t = Copied" | "pcs m t = Loaded (counter m)" | "pcs m t = Stored"
    using at own by (cases "pcs m t") (auto simp: at_pc_def)
  then have "?left 4 \<or> ?left 3 \<or> ?left 2 \<or> ?left 1"
    using room by cases (simp_all add: numeral_eq_Suc advance_def)
  then show ?thesis by blast
qed

lemma free_lock_serves:
  assumes "pcs m t = Outside" and "owner m = None" and "counter m < INT_MAX"
  shows "\<exists>m'. run_schedule (replicate 5 t) m = Some m' \<and> given m' = given m @ [(t, counter m)]"
  using assms by (simp add: numeral_eq_Suc advance_def)

lemma allocation_progress:
  assumes inv: "machine_inv m" and room: "counter m + 1 < INT_MAX"
  shows "\<exists>ts m' n ns. run_schedule ts m = Some m' \<and> given m' = given m @ ns @ [(t, n)]"
proof -
  have "\<exists>ts m1 ns. run_schedule ts m = Some m1 \<and> owner m1 = None \<and> counter m1 \<le> counter m + 1 \<and> given m1 = given m @ ns"
  proof (cases "owner m")
    case None
    then have "run_schedule [] m = Some m \<and> owner m = None \<and> counter m \<le> counter m + 1 \<and> given m = given m @ []" by simp
    then show ?thesis by blast
  next
    case (Some u)
    have "at_pc m u" using inv by (simp add: machine_inv_def)
    from owner_leaves [OF this Some] room show ?thesis by fastforce
  qed
  then obtain ts m1 ns where m1: "run_schedule ts m = Some m1" "owner m1 = None" "counter m1 \<le> counter m + 1"
    "given m1 = given m @ ns" by blast
  have "machine_inv m1" using ids.simulates [OF schedule_access [OF m1(1)] inv] by simp
  then have "pcs m1 t = Outside" using at_pc_quiet [of m1 t] m1(2) by (simp add: machine_inv_def)
  with free_lock_serves [of m1 t] m1 room obtain m' where
    "run_schedule (replicate 5 t) m1 = Some m'" "given m' = given m1 @ [(t, counter m1)]" by auto
  then have "run_schedule (ts @ replicate 5 t) m = Some m'" "given m' = given m @ ns @ [(t, counter m1)]"
    using m1 by (simp_all add: run_schedule_append)
  then show ?thesis by blast
qed

end
