(* ===== verification/Safety.thy ===== *)
theory Safety
  imports Package
begin

text \<open>
  When the commands cannot go wrong: conditions on libdtrace and on the scripts under which every
  command returns, with no panic and no access to memory that is not there. What is needed of
  the state between two callbacks is the locale \<open>serving\<close>: a settled property that implies
  that the handle at hand is open.
\<close>

section \<open>Conditions\<close>

text \<open>
  libdtrace is calm if \<^verbatim>\<open>dtrace_sleep\<close> and \<^verbatim>\<open>dtrace_work\<close> deliver no aggregation data and no
  record without its description, if \<^verbatim>\<open>dtrace_probe_iter\<close> succeeds unless a callback fails, and
  if \<^verbatim>\<open>dtrace_aggregate_print\<close> prints only records that fit the buffer, and no value before a
  key. \<open>tidy run b\<close> reads the records from a state in which a key was printed if \<open>b\<close>.
\<close>

fun tidy_event :: "bool \<Rightarrow> event \<Rightarrow> bool option" where
  "tidy_event b (Ev_buffered d) =
     (if agg_blank d then Some b else if agg_key d then Some True
      else if agg_value d \<and> b then Some False else None)"
| "tidy_event b _ = None"

primrec tidy :: "(event, 'w) lib_run \<Rightarrow> bool \<Rightarrow> bool" where
  "tidy (LibRet rc w) = (\<lambda>b. True)"
| "tidy (LibCall e w k) = (\<lambda>b. \<exists>b'. tidy_event b e = Some b' \<and> (\<forall>r w'. tidy (k r w') b'))"

primrec finds_probes :: "('e, 'w) lib_run \<Rightarrow> bool" where
  "finds_probes (LibRet rc w) = (rc = 0)"
| "finds_probes (LibCall e w k) = (\<forall>w'. finds_probes (k RetZero w'))"

definition calm_lib :: "'w libdtrace \<Rightarrow> bool" where
  "calm_lib L \<longleftrightarrow>
     (\<forall>h w. all_events callback_event (dtrace_sleep L h w) \<and> all_events callback_event (dtrace_work L h w)) \<and>
     (\<forall>h d w. finds_probes (dtrace_probe_iter L h d w)) \<and>
     (\<forall>h w. tidy (dtrace_aggregate_print L h w) False)"

definition scripts_succeed :: "'w tcl \<Rightarrow> ('w st \<Rightarrow> bool) \<Rightarrow> bool" where
  "scripts_succeed T P \<longleftrightarrow> (\<forall>i objv s. P s \<longrightarrow> ensures (EvalObjv T i objv s) (\<lambda>(r, t). r = TCL_OK \<and> P t))"

definition live :: "addr \<Rightarrow> 'w st \<Rightarrow> bool" where
  "live p s \<longleftrightarrow> wf_st s \<and> ready p s"

text \<open>No counter is at its limit.\<close>

definition room :: "'w st \<Rightarrow> bool" where
  "room s \<longleftrightarrow> next_free_id s < INT_MAX \<and> next_free_pid s < INT_MAX \<and> (\<forall>p H. hds s p = Some H \<longrightarrow> proc_count H < INT_MAX)"

text \<open>The words a command takes for names of options.\<close>

fun option_words :: "command \<Rightarrow> tcl_obj list \<Rightarrow> tcl_obj list" where
  "option_words Cmd_open objv = map fst (pairs_of (drop 1 objv))"
| "option_words Cmd_configure objv = (if length objv = 3 then [objv ! 2] else map fst (pairs_of (drop 2 objv)))"
| "option_words _ objv = []"

lemma all_events_True: "all_events (\<lambda>_. True) run"
  by (induction run) auto

section \<open>Between two callbacks\<close>

locale serving = settled P everywhere everywhere for P :: "'w st \<Rightarrow> bool" +
  fixes p :: addr
  assumes serving_ready: "P s \<Longrightarrow> ready p s"
begin

lemma serving_hd:
  assumes "P s"
  obtains H h i where "hds s p = Some H" "hdl H = Some h" "hd_interp H = Some i" "wf_hd H"
  using serving_ready [OF assms] wf_live_hd [OF settled_wf [OF assms]] by (auto simp: ready_def)

lemmas serving_put = settled_put [OF _ TrueI]

lemma serving_with_hd: "P s \<Longrightarrow> (\<And>H. hds s p = Some H \<Longrightarrow> ensures (f H) Q) \<Longrightarrow> ensures (with_hd p s f) Q"
  by (erule serving_hd) (simp add: with_hd_def)

lemma serving_with_handle: "P s \<Longrightarrow> (\<And>h. ensures (f h) Q) \<Longrightarrow> ensures (with_handle p s f) Q"
  by (erule serving_hd) (simp add: with_handle_def with_hd_def)

lemma libError_total: "P s \<Longrightarrow> ensures (libError L T i objv p s) (\<lambda>_. True)"
  unfolding libError_def by (rule serving_with_handle) (simp_all add: Let_def)

lemma CallbackEval_total:
  assumes T: "scripts_keep T P" and s: "P s"
  shows "ensures (CallbackEval T p objv cbname e ok s) (\<lambda>(r, t). P t)"
proof -
  from s obtain H i where H: "hds s p = Some H" "hd_interp H = Some i" by (rule serving_hd)
  have "ensures (EvalObjv T i objv (incr_refs objv s)) (\<lambda>(r, t). P t)"
    using T s by (simp add: scripts_keep_def)
  then obtain r t where r: "EvalObjv T i objv (incr_refs objv s) = Done (r, t)" and t: "P t"
    by (auto simp: ensures_iff)
  from t obtain H' j where H': "hds t p = Some H'" "hd_interp H' = Some j" by (rule serving_hd)
  show ?thesis
  proof (cases "r = TCL_OK")
    case True
    with CallbackEval_ok [OF H] r t show ?thesis by simp
  next
    case False
    with CallbackEval_error [OF H r False H'] t show ?thesis by simp
  qed
qed

lemma handle_event_total:
  assumes T: "scripts_keep T P" and s: "P s" and ev: "callback_event ev"
  shows "ensures (handle_event L T p ev s) (\<lambda>(r, t). P t)"
proof (cases "slot_of ev")
  case None
  with ev s show ?thesis by (auto simp: callback_event_def chewrec_def)
next
  case cb: (Some cb)
  from s obtain H where H: "hds s p = Some H" "wf_hd H" by (rule serving_hd)
  show ?thesis
  proof (cases "cb_procs H ! cb_index cb")
    case None
    from handle_event_quiet [OF H(1) cb None, of L T] s show ?thesis by simp
  next
    case proc: (Some proc)
    with slot_filled [OF H(2), of cb] obtain arg where arg: "cb_args H ! cb_index cb = Some arg" by auto
    from ev have "described ev" by (simp add: callback_event_def)
    from handle_event_calls [OF H(1) cb proc arg this, of L T] CallbackEval_total [OF T s] show ?thesis by simp
  qed
qed

lemma run_lib_total:
  assumes "scripts_keep T P" and "P s" and "all_events callback_event run"
  shows "ensures (run_lib L T p run s) (\<lambda>(rc, t). P t)"
  unfolding run_lib_def
  by (rule drive_ensures [where A = callback_event]) (use assms handle_event_total in auto)

lemma listProbe_total:
  assumes T: "scripts_succeed T P" and s: "P s"
  shows "ensures (listProbe T p proc args pdesc s) (\<lambda>(r, t). r = RetZero \<and> P t)"
proof -
  from s obtain H i where H: "hds s p = Some H" "hd_interp H = Some i" by (rule serving_hd)
  let ?objv = "[proc, formatProbeDesc H pdesc, args]"
  have "ensures (EvalObjv T i ?objv (incr_refs ?objv s)) (\<lambda>(r, t). r = TCL_OK \<and> P t)"
    using T s by (simp add: scripts_succeed_def)
  then obtain t where "EvalObjv T i ?objv (incr_refs ?objv s) = Done (TCL_OK, t)" "P t"
    by (auto simp: ensures_iff)
  with CallbackEval_ok [OF H this(1)] H(1) show ?thesis by (simp add: listProbe_def with_hd_def)
qed

lemma probes_total:
  assumes T: "scripts_succeed T P" and "P s" and "finds_probes run"
  shows "ensures (drive world put_world (listProbe T p proc args) run s) (\<lambda>(rc, t). rc = 0 \<and> P t)"
  using assms(2,3)
proof (induction run arbitrary: s)
  case (LibRet rc w)
  then show ?case by simp
next
  case (LibCall e w k)
  have "P (put_world w s)" using LibCall.prems by simp
  from listProbe_total [OF T this, of proc args e] LibCall.prems(2) show ?case
    by (auto elim!: ensures_mono intro!: LibCall.IH [OF rangeI rangeI])
qed

lemma listStatement_total:
  assumes T: "scripts_succeed T P" and s: "P (snd x)" and L: "calm_lib L"
  shows "ensures (listStatement L T p h proc args enabled x) (\<lambda>(r, y). P (snd y))"
proof -
  have "finds_probes (dtrace_probe_iter L h d w)" for d w using L by (simp add: calm_lib_def)
  note probes = probes_total [OF T _ this]
  show ?thesis
    using s by (cases x) (auto simp: listStatement_def intro!: ensures_mono [OF probes])
qed

text \<open>The handle while its aggregations are printed.\<close>

definition collecting :: "bool \<Rightarrow> 'w st \<Rightarrow> bool" where
  "collecting b s \<longleftrightarrow> P s \<and> (\<exists>H l. hds s p = Some H \<and> agg_list H = OwnList l \<and> (b \<longrightarrow> agg_tuple H \<noteq> None))"

lemma tidy_event_total:
  assumes "collecting b s" and ev: "tidy_event b e = Some b'"
  shows "ensures (handle_event L T p e s) (\<lambda>(r, t). collecting b' t)"
proof -
  from assms(1) obtain H l where s: "P s" and H: "hds s p = Some H" "agg_list H = OwnList l" "b \<longrightarrow> agg_tuple H \<noteq> None"
    by (auto simp: collecting_def)
  have put: "P (put_hd p (H\<lparr>agg_list := al, agg_tuple := t\<rparr>) s)" "P (put_hd p (H\<lparr>agg_tuple := t\<rparr>) s)" for al t
    by (rule serving_put [OF s H(1)]; use wf_live_hd [OF settled_wf [OF s] H(1)] in simp)+
  from ev obtain d where e: "e = Ev_buffered d" by (cases e) auto
  show ?thesis
    using ev H s put unfolding e
    by (auto simp: buf_or_agg_def agghandler_def agg_blank_def agg_key_def agg_value_def buf_clean append_to_list_def
        collecting_def Let_def split: if_splits)
qed

lemma tidy_total:
  assumes "collecting b s" and "tidy run b"
  shows "ensures (run_lib L T p run s) (\<lambda>(rc, t). collecting False t)"
  unfolding run_lib_def using assms
proof (induction run arbitrary: b s)
  case (LibRet rc w)
  then show ?case by (auto simp: collecting_def)
next
  case (LibCall e w k)
  from LibCall.prems(2) obtain b' where b': "tidy_event b e = Some b'" "\<And>r w'. tidy (k r w') b'" by auto
  have "collecting b (put_world w s)" using LibCall.prems(1) by (auto simp: collecting_def)
  from tidy_event_total [OF this b'(1), of L T] show ?case
    by (auto elim!: ensures_mono intro!: LibCall.IH [OF rangeI rangeI] b'(2))
qed

lemma get_option_total:
  assumes "P s" and "opname \<noteq> []"
  shows "ensures (get_option L p opname s) (\<lambda>(val, t). P t)"
  using assms unfolding get_option_def
  by (auto intro!: serving_with_hd serving_with_handle split: prod.splits option.splits)

lemma get_options_total:
  assumes "P s" and "[] \<notin> set opts"
  shows "ensures (get_options L p opts s) (\<lambda>(vals, t). P t)"
  using assms
proof (induction opts arbitrary: s)
  case Nil
  then show ?case by simp
next
  case (Cons opname rest)
  then show ?case
    by (auto intro!: ensures_mono [OF get_option_total [OF Cons.prems(1)]] ensures_mono [OF Cons.IH] split: option.splits)
qed

lemma set_options_calm:
  assumes "P s" and "\<forall>ov \<in> set opts. fst ov \<noteq> []"
  shows "ensures (set_options L p opts s) (\<lambda>(bad, t). P t)"
proof -
  from assms(1) obtain H h where "hds s p = Some H" "hdl H = Some h" by (rule serving_hd)
  with assms(2) have "ensures (set_options L p opts s) (\<lambda>_. True)"
    by (intro ensures_mono [OF set_options_total]) auto
  with set_options_P [OF assms(1), of L p opts] ensures_split show ?thesis by blast
qed

lemma register_callbacks_total:
  assumes T: "index_in_range T" and "P s"
  shows "ensures (register_callbacks T i p pairs s) (\<lambda>(ok, t). P t)"
  using assms(2)
proof (induction pairs arbitrary: s)
  case Nil
  then show ?case by simp
next
  case (Cons cs rest)
  obtain cbob spec where cs: "cs = (cbob, spec)" by force
  have put: "P (put_hd p (register_callback n proc arg H) s)" if "hds s p = Some H" for H n proc arg
    using serving_put [OF Cons.prems that] wf_live_hd [OF settled_wf [OF Cons.prems] that]
    by (simp add: wf_hd_register)
  have "n < CALLBACKS_COUNT" if "index_rep T cbob callbackNames msg = Inr n" for n msg
    using T that by (fastforce simp: index_in_range_def callbackNames_def CALLBACKS_COUNT_def)
  with put Cons.prems show ?case
    unfolding cs
    by (auto simp: Let_def split: sum.splits list.splits intro!: serving_with_hd [OF Cons.prems] Cons.IH)
qed

end

text \<open>An open handle of a well-formed state is such a property.\<close>

interpretation live: serving "live p :: 'w st \<Rightarrow> bool" p for p
proof unfold_locales
  fix s s' :: "'w st"
  assume c: "core s' = core s"
  show "live p s' = live p s" by (simp add: live_def wf_core [OF c] ready_core [OF c])
next
  fix s t :: "'w st" and q i prog a H H'
  assume s: "live p s"
  then show wf: "wf_st s" and "ready p s" by (simp_all add: live_def)
  show "live p (put_hd q H' s)"
    if "hds s q = Some H" "wf_hd H'" "hdl H' = hdl H" "hd_interp H' = hd_interp H"
    using s that wf_put_hd [OF wf that(1,2)] by (auto simp: live_def ready_def put_hd_def)
  show "live p t" if "registered s i a prog t" "wf_st t"
    using s that by (simp add: live_def ready_def registered_def)
qed

section \<open>Every command returns\<close>

lemma live_of_handle: "wf_st s \<Longrightarrow> all_ready s \<Longrightarrow> handle_of s i k = Some p \<Longrightarrow> live p s"
  unfolding handle_of_owns live_def using wf_owns_live all_readyD by blast

lemma live_of_program: "wf_st s \<Longrightarrow> all_ready s \<Longrightarrow> program_of s i k = Some pd \<Longrightarrow> live (pd_hd pd) s"
  unfolding program_of_has live_def using wf_prog_live all_readyD by blast

lemma checked_calm:
  assumes "wf_st s" and "all_ready s" and "assoc s i \<noteq> None"
    and "\<And>k p H h. Tcl_GetIntFromObj T ob = Inr k \<Longrightarrow> handle_of s i k = Some p \<Longrightarrow> live p s \<Longrightarrow>
      hds s p = Some H \<Longrightarrow> hdl H = Some h \<Longrightarrow> ensures (f p H h s) (\<lambda>_. True)"
  shows "ensures (checked T i objv ob s f) (\<lambda>_. True)"
  by (rule checked_ensures [OF assms(1,3)]) (use assms(4) live_of_handle [OF assms(1,2)] in simp_all)

lemma checked_program_calm:
  assumes "wf_st s" and "all_ready s" and "assoc s i \<noteq> None"
    and "\<And>pd H h. live (pd_hd pd) s \<Longrightarrow> hds s (pd_hd pd) = Some H \<Longrightarrow> hdl H = Some h \<Longrightarrow> ensures (f pd H h s) (\<lambda>_. True)"
  shows "ensures (checked_program T i objv ob s f) (\<lambda>_. True)"
proof -
  have "ensures (with_hd (pd_hd pd) s (\<lambda>H. case hdl H of None \<Rightarrow> Done (badHandle T i objv s) | Some h \<Rightarrow> f pd H h s)) (\<lambda>_. True)"
    if "program_of s i k = Some pd" for k pd
  proof -
    from live_of_program [OF assms(1,2) that] have l: "live (pd_hd pd) s" .
    show ?thesis
      by (rule live.serving_with_hd [OF l]) (use assms(4) [OF l] in \<open>auto split: option.splits\<close>)
  qed
  then show ?thesis
    unfolding checked_program_def
    by (auto intro!: ensures_mono [OF get_pd_total [OF assms(1,3)]] split: option.splits)
qed

lemma Close_calm:
  assumes "wf_st s" and "all_ready s" and "assoc s i \<noteq> None"
  shows "ensures (Close L T i objv s) (\<lambda>_. True)"
proof -
  have body: "ensures (seq (release_slots (zip (cb_procs H) (cb_args H))
      (put_hd p (H\<lparr>hdl := None\<rparr>) (put_world (dtrace_close L h (world s)) s))) (\<lambda>s3.
      seq (del_hd T i ob s3) (\<lambda>s4. Done (TCL_OK, s4)))) (\<lambda>_. True)"
    if k: "Tcl_GetIntFromObj T ob = Inr k" "handle_of s i k = Some p" and H: "hds s p = Some H" "hdl H = Some h" for ob k p H h
  proof -
    from k(2) obtain d where d: "assoc s i = Some d" "owns s d k p" by (auto simp: handle_of_owns)
    show ?thesis
      by (rule ensures_mono [OF Close_body [OF assms(1) d(1) k(1) d(2) H, of L]]) simp
  qed
  show ?thesis
    unfolding Close_def Let_def using body by (auto intro!: checked_calm [OF assms])
qed

lemma Configure_calm:
  assumes "wf_st s" and "all_ready s" and "assoc s i \<noteq> None"
    and names: "\<forall>x \<in> set (option_words Cmd_configure objv). Tcl_GetString T x \<noteq> []"
  shows "ensures (Configure L T i objv s) (\<lambda>_. True)"
proof -
  have one: "length objv = 3 \<Longrightarrow> Tcl_GetString T (objv ! 2) \<noteq> []"
    and many: "length objv \<noteq> 3 \<Longrightarrow>
      \<forall>ov \<in> set (map (\<lambda>(x, y). (Tcl_GetString T x, Tcl_GetString T y)) (pairs_of (drop 2 objv))). fst ov \<noteq> []"
    using names by auto
  have basic: "[] \<notin> set basic_options" by (simp add: basic_options_def)
  show ?thesis
    unfolding Configure_def
    by (auto intro!: checked_calm [OF assms(1-3)] ensures_mono [OF live.get_options_total [OF _ basic]]
        ensures_mono [OF live.get_option_total [OF _ one]] ensures_mono [OF live.set_options_calm [OF _ many]]
        split: option.splits)
qed

lemma Compile_calm:
  assumes "wf_st s" and "all_ready s" and "assoc s i \<noteq> None" and "next_free_pid s < INT_MAX"
  shows "ensures (Compile L T i objv s) (\<lambda>_. True)"
proof -
  have reg: "ensures (register_pd i p prog (put_world w s)) (\<lambda>_. True)" if k: "handle_of s i k = Some p" for k p prog w
  proof -
    from k obtain d where "assoc s i = Some d" "owns s d k p" by (auto simp: handle_of_owns)
    then have "assoc (put_world w s) i = Some d" "owns (put_world w s) d k p" by (simp_all add: owns_def)
    from register_pd_spec [OF _ this, of prog] assms show ?thesis
      by (auto elim: ensures_mono simp: put_world_def)
  qed
  show ?thesis
    unfolding Compile_def
    by (auto intro!: checked_calm [OF assms(1-3)] live.libError_total ensures_mono [OF reg] split: prod.splits option.splits)
qed

lemma Exec_or_Info_calm:
  assumes "wf_st s" and "all_ready s" and "assoc s i \<noteq> None"
  shows "ensures (Exec_or_Info L T i objv exec s) (\<lambda>_. True)"
  unfolding Exec_or_Info_def
  by (auto intro!: checked_program_calm [OF assms] split: prod.splits)

lemma Go_calm:
  assumes "wf_st s" and "all_ready s" and "assoc s i \<noteq> None" and T: "index_in_range T"
  shows "ensures (Go L T i objv s) (\<lambda>_. True)"
proof -
  have go: "ensures (continue_from L h H 0 w) (\<lambda>_. True)" if "live p t" "hds t p = Some H" for p t h H w
    using continue_all [of H L h w] wf_live_hd [of t p H] that by (simp add: live_def wf_hd_def)
  show ?thesis
    unfolding Go_def
    by (auto intro!: checked_calm [OF assms(1-3)] ensures_mono [OF live.register_callbacks_total [OF T]]
        live.serving_with_hd live.serving_with_handle live.libError_total ensures_mono [OF go] split: prod.splits)
qed

lemma Stop_calm:
  assumes "wf_st s" and "all_ready s" and "assoc s i \<noteq> None"
  shows "ensures (Stop L T i objv s) (\<lambda>_. True)"
  unfolding Stop_def
  by (auto intro!: checked_calm [OF assms] live.libError_total split: prod.splits)

lemma Process_calm:
  assumes "wf_st s" and "all_ready s" and "assoc s i \<noteq> None" and L: "calm_lib L" and T: "\<forall>p. scripts_keep T (live p)"
  shows "ensures (Process L T i objv s) (\<lambda>_. True)"
proof -
  have run: "ensures (run_lib L T p (dtrace_sleep L h w) t) (\<lambda>(rc, u). live p u)"
    "ensures (run_lib L T p (dtrace_work L h w) t) (\<lambda>(rc, u). live p u)" if "live p t" for p h w t
    using L T that by (auto intro!: live.run_lib_total simp: calm_lib_def)
  show ?thesis
    unfolding Process_def
    by (auto intro!: checked_calm [OF assms(1-3)] ensures_mono [OF run(1)] ensures_mono [OF run(2)]
        live.serving_with_handle live.libError_total split: sum.splits)
qed

lemma List_calm:
  assumes "wf_st s" and "all_ready s" and "assoc s i \<noteq> None" and L: "calm_lib L" and T: "\<forall>p. scripts_succeed T (live p)"
  shows "ensures (List_cmd L T i objv s) (\<lambda>_. True)"
proof -
  have d: "ensures (drive (\<lambda>(prev, t). world t) (\<lambda>w (prev, t). (prev, put_world w t))
      (listStatement L T p h proc args) run (None, s)) (\<lambda>(rc, x). live p (snd x))" if "live p s" for p h proc args run
    by (rule drive_ensures [where P = "\<lambda>x. live p (snd x)" and A = "\<lambda>_. True"])
      (use that live.listStatement_total [OF _ _ L] T in \<open>auto split: prod.splits simp: all_events_True\<close>)
  show ?thesis
    unfolding List_cmd_def
    by (auto intro!: checked_program_calm [OF assms(1-3)] ensures_mono [OF d])
qed

lemma Aggregations_calm:
  assumes "wf_st s" and "all_ready s" and "assoc s i \<noteq> None" and L: "calm_lib L"
  shows "ensures (Aggregations L T i objv s) (\<lambda>_. True)"
proof -
  have run: "ensures (run_lib L T p (dtrace_aggregate_print L h w) (put_hd p (H\<lparr>agg_list := OwnList []\<rparr>) s))
      (\<lambda>(rc, t). live.collecting p False t)" if "live p s" "hds s p = Some H" for p H h w
  proof -
    have "live p (put_hd p (H\<lparr>agg_list := OwnList []\<rparr>) s)"
      using live.serving_put [OF that] wf_live_hd [of s p H] that by (simp add: live_def)
    then have "live.collecting p False (put_hd p (H\<lparr>agg_list := OwnList []\<rparr>) s)"
      by (simp add: live.collecting_def)
    with L show ?thesis by (intro live.tidy_total) (auto simp: calm_lib_def)
  qed
  show ?thesis
    unfolding Aggregations_def
    by (auto intro!: checked_calm [OF assms(1-3)] ensures_mono [OF run] live.libError_total simp: live.collecting_def)
qed

lemma Grab_calm:
  assumes "wf_st s" and "all_ready s" and "assoc s i \<noteq> None" and "\<forall>p H. hds s p = Some H \<longrightarrow> proc_count H < INT_MAX"
  shows "ensures (Grab L T i objv s) (\<lambda>_. True)" "ensures (Launch L T i objv s) (\<lambda>_. True)"
proof -
  have rec: "ensures (record_process p proc (put_world w s)) (\<lambda>_. True)" if "hds s p = Some H" for p proc w H
    using record_process_total [of "put_world w s" p H proc] assms(1,4) that by (auto elim: ensures_mono)
  show "ensures (Grab L T i objv s) (\<lambda>_. True)" "ensures (Launch L T i objv s) (\<lambda>_. True)"
    unfolding Grab_def Launch_def Let_def
    by (auto intro!: checked_calm [OF assms(1-3)] live.libError_total ensures_mono [OF rec] split: prod.splits sum.splits option.splits)
qed

lemma commands_calm:
  assumes s: "wf_st s" "all_ready s" "assoc s i \<noteq> None" and room: "room s" and L: "calm_lib L"
    and T: "\<forall>p. scripts_keep T (live p)" "c = Cmd_list \<longrightarrow> (\<forall>p. scripts_succeed T (live p))" "index_in_range T"
    and names: "\<forall>x \<in> set (option_words c objv). Tcl_GetString T x \<noteq> []"
  shows "ensures (command_proc L T c i objv s) (\<lambda>_. True)"
proof (cases c)
  case Cmd_open
  with names have "\<forall>ov \<in> set (pairs_of (drop 1 objv)). Tcl_GetString T (fst ov) \<noteq> []" by auto
  with Open_total [OF s(1,3), of objv T L] room Cmd_open show ?thesis by (auto elim: ensures_mono simp: room_def)
qed (use assms Close_calm [OF s] Configure_calm [OF s] Compile_calm [OF s] Exec_or_Info_calm [OF s] Go_calm [OF s T(3)]
      Stop_calm [OF s] Process_calm [OF s L T(1)] List_calm [OF s L] Aggregations_calm [OF s L] Grab_calm [OF s]
    in \<open>auto simp: Exec_def Info_def room_def\<close>)

end
