(* ===== verification/Sample.thy ===== *)
theory Sample
  imports Handle_Account Safety
begin

text \<open>
  A small libdtrace and a small Tcl library, as concrete functions, and the states a short
  session goes through with them. The world is the log of the calls that change anything. The
  witnesses of the properties are evaluated here.
\<close>

section \<open>The libraries\<close>

definition sample_desc :: "string \<Rightarrow> probedesc" where
  "sample_desc n = \<lparr>dtpd_id = 4294967295, dtpd_provider = ''syscall'', dtpd_mod = ''kernel'', dtpd_func = n, dtpd_name = ''entry''\<rparr>"

definition sample_data :: probedata where
  "sample_data = \<lparr>dtpda_pdesc = sample_desc ''read'', dtpda_cpu = 1\<rparr>"

definition sample_buf :: "actkind option \<Rightarrow> string \<Rightarrow> bufdata" where
  "sample_buf a txt = \<lparr>dtbda_probe = sample_data, dtbda_recdesc = a, dtbda_aggdata = True, dtbda_buffered = txt\<rparr>"

definition sample_row :: "bufdata list \<times> bufdata" where
  "sample_row = ([sample_buf (Some DTRACEACT_DIFEXPR) ''  init''], sample_buf (Some (DTRACEACT_AGGREGATION 1)) '' 42 '')"

definition sample_events :: "event list" where
  "sample_events = [Ev_chew sample_data, Ev_chewrec,
     Ev_drop \<lparr>dtdda_cpu = 0, dtdda_kind = DTRACEDROP_DYNAMIC, dtdda_drops = 3, dtdda_msg = ''3 drops''\<rparr>]"

definition sample_lib :: "string list libdtrace" where
  "sample_lib = \<lparr>
     dtrace_open = (\<lambda>nodev w. (Inr 7, w @ [''open''])),
     dtrace_close = (\<lambda>h w. w @ [''close'']),
     dtrace_getopt = (\<lambda>h opname w. (if opname = ''bufsize'' then Some 4194304
       else if opname = ''aggsize'' then Some 1099511627776 else None, w)),
     DTRACEOPT_UNSET = - 2,
     dtrace_setopt = (\<lambda>h opname val w. if opname = ''bogus'' then (- 1, w) else (0, w @ [opname])),
     dtrace_handle_err = (\<lambda>h p w. (0, w)), dtrace_handle_drop = (\<lambda>h p w. (0, w)),
     dtrace_handle_proc = (\<lambda>h p w. (0, w)), dtrace_handle_buffered = (\<lambda>h p w. (0, w)),
     dtrace_program_strcompile = (\<lambda>h src argv w. (Some 5, w @ [src])),
     dtrace_program_exec = (\<lambda>h prog w. ((0, \<lparr>dpi_aggregates = 1, dpi_recgens = 2, dpi_matches = 3, dpi_speculations = 4294967295\<rparr>), w)),
     dtrace_program_info = (\<lambda>h prog w. (\<lparr>dpi_aggregates = 1, dpi_recgens = 2, dpi_matches = 3, dpi_speculations = 4294967295\<rparr>, w)),
     dtrace_go = (\<lambda>h w. (0, w @ [''go''])), dtrace_stop = (\<lambda>h w. (0, w @ [''stop''])),
     dtrace_sleep = (\<lambda>h w. LibRet 0 w),
     dtrace_work = (\<lambda>h w. deliver sample_events 0 w),
     dtrace_aggregate_print = (\<lambda>h w. deliver (map Ev_buffered (sample_buf None ''  '' # printed [sample_row])) 0 w),
     dtrace_stmt_iter = (\<lambda>h prog w. deliver [\<lparr>ecb_addr = 1, dted_probe = sample_desc ''read''\<rparr>,
       \<lparr>ecb_addr = 1, dted_probe = sample_desc ''read''\<rparr>] 0 w),
     dtrace_probe_iter = (\<lambda>h pd w. deliver [pd] 0 w),
     dtrace_proc_grab = (\<lambda>h pid w. (Some 3, w @ [''grab''])),
     dtrace_proc_create = (\<lambda>h file argv w. (Some 4, w @ [''create''])),
     dtrace_proc_continue = (\<lambda>h proc w. w @ [''continue'']),
     Pstatus_pid = (\<lambda>proc w. 42),
     dtrace_errno = (\<lambda>h w. 1),
     dtrace_errmsg = (\<lambda>h n w. ''error'')\<rparr>"

fun position :: "string \<Rightarrow> string list \<Rightarrow> nat option" where
  "position x [] = None"
| "position x (y # ys) = (if x = y then Some 0 else map_option Suc (position x ys))"

definition text_of :: "tcl_obj \<Rightarrow> string" where
  "text_of ob = (case ob of StrObj cs \<Rightarrow> cs | _ \<Rightarrow> [])"

definition script_effect :: "tcl_obj list \<Rightarrow> string list \<Rightarrow> string list" where
  "script_effect objv w = w @ [text_of (objv ! 0)]"

definition sample_tcl :: "string list tcl" where
  "sample_tcl = \<lparr>
     int_rep = (\<lambda>ob. Inl ''expected integer''), long_rep = (\<lambda>ob. Inl ''expected integer''),
     boolean_rep = (\<lambda>ob. if text_of ob = ''1'' then Inr True else if text_of ob = ''0'' then Inr False
       else Inl ''expected boolean value''),
     string_rep = (\<lambda>ob. []), list_rep = (\<lambda>ob. Inr []),
     index_rep = (\<lambda>ob names msg. case position (text_of ob) names of None \<Rightarrow> Inl (''bad '' @ msg) | Some n \<Rightarrow> Inr n),
     wrong_num_args = (\<lambda>obs msg. ''wrong # args''),
     EvalObjv = (\<lambda>i objv s. Done (TCL_OK, set_result i (StrObj ''done'') (put_world (script_effect objv (world s)) s))),
     EvalScript = (\<lambda>i script s. Done (TCL_OK, set_result i (StrObj ''::dtrace'') s)),
     append_handed = (\<lambda>p ob s. case result s 0 of ListObj l \<Rightarrow> Done ((result s)(0 := ListObj (l @ [ob])))
       | _ \<Rightarrow> Fault ''use of a freed object''),
     handed_value = (\<lambda>p s. Done (result s 0)),
     InitStubs_ok = (\<lambda>i. True), PkgProvide_ok = (\<lambda>i. True), tcl_version = (8, 6)\<rparr>"

lemma sample_acts: "acts sample_tcl i procs script_effect"
  by (simp add: acts_def sample_tcl_def)

lemma sample_plain: "plain_scripts sample_tcl i"
  by (simp add: plain_scripts_def sample_tcl_def) (simp add: set_result_def)

lemma sample_scripts: "scripts_succeed sample_tcl (live p)" "scripts_keep sample_tcl (live p)"
  by (simp_all add: scripts_succeed_def scripts_keep_def sample_tcl_def)

lemma deliver_calm: "all_events A (deliver es rc w) \<longleftrightarrow> list_all A es" "finds_probes (deliver es 0 w)"
  by (induction es arbitrary: w) (simp_all add: deliver.simps)

lemma sample_tidy: "tidy (deliver (map Ev_buffered (sample_buf None ''  '' # printed [sample_row])) 0 (w :: string list)) False"
  by (simp add: deliver.simps printed_def sample_row_def sample_buf_def agg_blank_def agg_key_def agg_value_def
      clean_def strip_def rstrip_def TUPLE_STRLEN_def DTRACEACT_ISAGG_def) blast

lemma sample_calm: "calm_lib sample_lib"
  using sample_tidy by (simp add: calm_lib_def sample_lib_def deliver_calm sample_events_def callback_event_def sample_data_def)

lemma position_less: "position x ys = Some n \<Longrightarrow> n < length ys"
  by (induction ys arbitrary: n) (auto split: if_splits)

lemma sample_index: "index_in_range sample_tcl"
  by (auto simp: index_in_range_def sample_tcl_def position_less split: option.splits)

section \<open>States\<close>

text \<open>
  A handle with a grabbed process and one registered callback, and the state of a process with
  two handles and one compiled program in its one interpreter. \<open>session H\<close> has the structure \<open>H\<close>
  behind number 1.
\<close>

definition sample_H :: handle_data where
  "sample_H = \<lparr>hdl = Some 7, foldpdesc = 1, hd_interp = Some 0, agg_tuple = None, agg_list = NullList,
     processes = Some [Some 3], proc_count = 1, proc_capacity = 1,
     cb_procs = [Some (StrObj ''p''), None, None, None, None], cb_args = [Some (StrObj ''a''), None, None, None, None]\<rparr>"

definition session :: "handle_data \<Rightarrow> string list st" where
  "session H = \<lparr>next_free_id = 3, next_free_pid = 2, brk = 3, hds = [1 \<mapsto> H, 2 \<mapsto> sample_H],
     dds = [0 \<mapsto> \<lparr>handles = Table [(2, 2), (1, 1)], programs = Table [(1, \<lparr>compiled = 5, pd_hd = 1\<rparr>)]\<rparr>],
     assoc = [0 \<mapsto> 0], exit_handlers = [0], commands = (\<lambda>_. command_table), result = (\<lambda>_. StrObj []),
     error_code = (\<lambda>_. []), bg_errors = [], refs = (\<lambda>_. 1), world = []\<rparr>"

lemma session_sel [simp]:
  "next_free_id (session H) = 3" "next_free_pid (session H) = 2" "brk (session H) = 3"
  "hds (session H) = [1 \<mapsto> H, 2 \<mapsto> sample_H]" "assoc (session H) = [0 \<mapsto> 0]" "world (session H) = []"
  "dds (session H) = [0 \<mapsto> \<lparr>handles = Table [(2, 2), (1, 1)], programs = Table [(1, \<lparr>compiled = 5, pd_hd = 1\<rparr>)]\<rparr>]"
  "exit_handlers (session H) = [0]" "refs (session H) = (\<lambda>_. 1)"
  by (simp_all add: session_def)

lemma session_owns: "owns (session H) d k p \<longleftrightarrow> d = 0 \<and> (k = 1 \<and> p = 1 \<or> k = 2 \<and> p = 2)"
  by (auto simp: owns_def)

lemma session_prog: "has_prog (session H) d k pd \<longleftrightarrow> d = 0 \<and> k = 1 \<and> pd = \<lparr>compiled = 5, pd_hd = 1\<rparr>"
  by (auto simp: has_prog_def)

lemma sample_H_wf: "wf_hd sample_H"
proof -
  have "\<exists>k\<le>31. (1 :: int) + 1 = 2 ^ k" by (rule exI [of _ 1]) simp
  then show ?thesis
    by (simp add: wf_hd_def vec_wf_def slots_wf_def cells_of_def sample_H_def CALLBACKS_COUNT_def less_Suc_eq
        numeral_eq_Suc)
qed

lemma wf_session: "wf_hd H \<Longrightarrow> wf_st (session H)"
  using sample_H_wf
  by (auto simp: wf_defs session_owns session_prog INT_MAX_def tab_wf_def split: if_splits)

lemma session_handles [simp]: "handle_of (session H) 0 1 = Some 1" "handle_of (session H) 0 2 = Some 2"
  by (simp_all add: handle_of_owns session_owns)

lemma session_program [simp]: "program_of (session H) 0 1 = Some \<lparr>compiled = 5, pd_hd = 1\<rparr>"
  by (simp add: program_of_has session_prog)

lemma sample_H_sel [simp]:
  "hdl sample_H = Some 7" "hd_interp sample_H = Some 0" "agg_tuple sample_H = None" "agg_list sample_H = NullList"
  "foldpdesc sample_H = 1" "grabbed sample_H = [3]" "proc_count sample_H = 1"
  by (simp_all add: sample_H_def grabbed_def cells_of_def)

lemma sample_H_slots [simp]:
  "cb_procs sample_H = [Some (StrObj ''p''), None, None, None, None]"
  "cb_args sample_H = [Some (StrObj ''a''), None, None, None, None]"
  by (simp_all add: sample_H_def)

lemma session_ready: "hdl H \<noteq> None \<Longrightarrow> hd_interp H \<noteq> None \<Longrightarrow> ready 1 (session H)"
  by (auto simp: ready_def)

lemma session_open: "open_handle T 0 (IntObj 1) (session sample_H) 1"
  by (simp add: open_handle_def session_ready del: One_nat_def)

lemma session_open_Suc: "open_handle T 0 (IntObj 1) (session sample_H) (Suc 0)"
  using session_open [of T] by simp

lemma session_steady: "steady (session sample_H) (session sample_H)"
  using wf_session [OF sample_H_wf] by (auto simp: steady_def all_ready_def split: if_splits)

lemma session_room: "room (session sample_H)"
  by (simp add: room_def INT_MAX_def)

section \<open>States that are reached\<close>

primrec state_of :: "(int \<times> 'w st) exec \<Rightarrow> 'w st" where
  "state_of (Done x) = snd x"
| "state_of (Panic m) = undefined"
| "state_of (Fault m) = undefined"

primrec returns :: "'a exec \<Rightarrow> bool" where
  "returns (Done x) = True"
| "returns (Panic m) = False"
| "returns (Fault m) = False"

text \<open>Scripts may call the commands: here every procedure closes handle 1.\<close>

definition closing_tcl :: "string list tcl" where
  "closing_tcl = tower sample_lib sample_tcl
     (\<lambda>i objv. Invoke ''dtrace::close'' [StrObj ''close'', IntObj 1] (\<lambda>rc r. Finish rc)) 1"

definition loaded :: "string list st" where
  "loaded = state_of (Dtrace_Init closing_tcl 0 (initial []))"

definition opened1 :: "string list st" where
  "opened1 = state_of (call_command sample_lib closing_tcl 0 ''dtrace::open'' [StrObj ''open''] loaded)"

lemma Done_state_of: "returns m \<Longrightarrow> \<exists>rc. m = Done (rc, state_of m)"
  by (cases m) auto

lemma loaded_returns: "returns (Dtrace_Init closing_tcl 0 (initial []))"
  by code_simp

lemma loaded_no_handles: "hds loaded = Map.empty"
  by (simp add: loaded_def Dtrace_Init_def closing_tcl_def sample_tcl_def create_commands_def attach_data_def
      initial_def version_ok_def outside_script_def set_result_def put_results_def numeral_2_eq_2)

lemma opened1_returns: "returns (call_command sample_lib closing_tcl 0 ''dtrace::open'' [StrObj ''open''] loaded)"
  by code_simp

lemma opened1_handle: "handle_of opened1 0 1 = Some 1"
  by code_simp

lemma reach_opened1: "reachable sample_lib closing_tcl (initial []) opened1"
proof -
  have "step sample_lib closing_tcl (initial []) loaded"
    using Done_state_of [OF loaded_returns] by (auto simp: loaded_def intro: step_under.load)
  moreover have "step sample_lib closing_tcl loaded opened1"
    using Done_state_of [OF opened1_returns] by (auto simp: opened1_def intro: step_under.command)
  ultimately show ?thesis by (blast intro: reachable_under.intros)
qed

definition compiled1 :: "string list st" where
  "compiled1 = state_of (call_command sample_lib closing_tcl 0 ''dtrace::compile''
     [StrObj ''compile'', IntObj 1, StrObj ''BEGIN {}''] opened1)"

lemma compiled1_returns: "returns (call_command sample_lib closing_tcl 0 ''dtrace::compile''
     [StrObj ''compile'', IntObj 1, StrObj ''BEGIN {}''] opened1)"
  by code_simp

lemma compiled1_program: "program_of compiled1 0 1 = Some \<lparr>compiled = 5, pd_hd = 1\<rparr>"
  by code_simp

lemma reach_compiled1: "reachable sample_lib closing_tcl (initial []) compiled1"
  using Done_state_of [OF compiled1_returns]
  by (auto simp: compiled1_def intro: reachable_under.continue [OF reach_opened1] step_under.command)

text \<open>A trace that was started with a callback.\<close>

definition going1 :: "string list st" where
  "going1 = state_of (call_command sample_lib closing_tcl 0 ''dtrace::go''
     [StrObj ''go'', IntObj 1, StrObj ''probe_desc'', ListObj [StrObj ''p'', StrObj ''a'']] opened1)"

lemma going1_returns: "returns (call_command sample_lib closing_tcl 0 ''dtrace::go''
     [StrObj ''go'', IntObj 1, StrObj ''probe_desc'', ListObj [StrObj ''p'', StrObj ''a'']] opened1)"
  by code_simp

lemma reach_going1: "reachable sample_lib closing_tcl (initial []) going1"
  using Done_state_of [OF going1_returns]
  by (auto simp: going1_def intro: reachable_under.continue [OF reach_opened1] step_under.command)

lemma going1_handle: "map_option (\<lambda>H. (cb_procs H ! 0, cb_args H ! 0)) (hds going1 1) = Some (Some (StrObj ''p''), Some (StrObj ''a''))"
  by code_simp

text \<open>Two interpreters: one has a handle, the other has just loaded the extension.\<close>

definition loaded_twice :: "string list st" where
  "loaded_twice = state_of (Dtrace_Init closing_tcl 1 opened1)"

lemma loaded_twice_returns: "returns (Dtrace_Init closing_tcl 1 opened1)"
  by code_simp

lemma loaded_twice_handle: "handle_of loaded_twice 0 1 = Some 1"
  by code_simp

lemma reach_loaded_twice: "reachable sample_lib closing_tcl (initial []) loaded_twice"
  using Done_state_of [OF loaded_twice_returns]
  by (auto simp: loaded_twice_def intro: reachable_under.continue [OF reach_opened1] step_under.load)

definition open_view :: "interp \<Rightarrow> 'w st \<Rightarrow> command option \<times> bool \<times> bool" where
  "open_view i s = (map_of (commands s i) ''dtrace::open'', assoc s i \<noteq> None, next_free_id s < INT_MAX)"

lemma loaded_twice_view: "open_view 1 loaded_twice = (Some Cmd_open, True, True)"
  by code_simp

lemmas loaded_twice_command = loaded_twice_view [unfolded open_view_def prod.inject simp_thms]

lemma loaded_twice_opens: "returns (call_command sample_lib closing_tcl 1 ''dtrace::open'' [StrObj ''open''] loaded_twice)"
proof -
  let ?s = "set_result 1 (StrObj []) loaded_twice"
  have "steady loaded_twice loaded_twice"
    using lasts.reachable_tower_P [OF reach_loaded_twice [unfolded closing_tcl_def] any_world_top steady_initial]
    by (simp add: steady_def)
  moreover have core: "core ?s = core loaded_twice" by simp
  ultimately have "wf_st ?s" by (simp add: steady_def wf_core [OF core])
  then have "ensures (Open sample_lib closing_tcl 1 [StrObj ''open''] ?s) (\<lambda>_. True)"
    using loaded_twice_command by (intro ensures_mono [OF Open_total]) (simp_all add: core_eqD [OF core] del: One_nat_def)
  then show ?thesis
    by (auto simp: call_command_def loaded_twice_command ensures_iff simp del: One_nat_def)
qed

section \<open>A libdtrace that keeps a log of its opened and closed handles\<close>

definition tally :: "(bool \<times> nat) list \<Rightarrow> dtrace_hdl \<Rightarrow> int" where
  "tally w h = int (count_list w (True, h)) - int (count_list w (False, h))"

definition counting_lib :: "(bool \<times> nat) list libdtrace" where
  "counting_lib = \<lparr>
     dtrace_open = (\<lambda>nodev w. let h = Suc (foldr (max \<circ> snd) w 0) in (Inr h, (True, h) # w)),
     dtrace_close = (\<lambda>h w. (False, h) # w),
     dtrace_getopt = (\<lambda>h opname w. (None, w)),
     DTRACEOPT_UNSET = - 2,
     dtrace_setopt = (\<lambda>h opname val w. (if opname = ''bogus'' then - 1 else 0, w)),
     dtrace_handle_err = (\<lambda>h p w. (0, w)), dtrace_handle_drop = (\<lambda>h p w. (0, w)),
     dtrace_handle_proc = (\<lambda>h p w. (0, w)), dtrace_handle_buffered = (\<lambda>h p w. (0, w)),
     dtrace_program_strcompile = (\<lambda>h src argv w. (Some 5, w)),
     dtrace_program_exec = (\<lambda>h prog w. ((0, \<lparr>dpi_aggregates = 1, dpi_recgens = 2, dpi_matches = 3, dpi_speculations = 4\<rparr>), w)),
     dtrace_program_info = (\<lambda>h prog w. (\<lparr>dpi_aggregates = 1, dpi_recgens = 2, dpi_matches = 3, dpi_speculations = 4\<rparr>, w)),
     dtrace_go = (\<lambda>h w. (0, w)), dtrace_stop = (\<lambda>h w. (0, w)),
     dtrace_sleep = (\<lambda>h w. LibRet 0 w),
     dtrace_work = (\<lambda>h w. deliver sample_events 0 w),
     dtrace_aggregate_print = (\<lambda>h w. LibRet 0 w),
     dtrace_stmt_iter = (\<lambda>h prog w. LibRet 0 w),
     dtrace_probe_iter = (\<lambda>h pd w. deliver [pd] 0 w),
     dtrace_proc_grab = (\<lambda>h pid w. (Some 3, w)),
     dtrace_proc_create = (\<lambda>h file argv w. (Some 4, w)),
     dtrace_proc_continue = (\<lambda>h proc w. w),
     Pstatus_pid = (\<lambda>proc w. 42),
     dtrace_errno = (\<lambda>h w. 1),
     dtrace_errmsg = (\<lambda>h n w. ''error'')\<rparr>"

lemma deliver_within: "(\<And>v. moves v v) \<Longrightarrow> within moves (deliver es rc w) w"
  by (induction es arbitrary: w) (simp_all add: deliver.simps)

lemma counting_plain: "plain_call counting_lib v w \<Longrightarrow> w = v"
  by (induction rule: plain_call.induct) (simp_all add: counting_lib_def)

lemma above_all: "tally w (Suc (foldr (max \<circ> snd) w 0)) = 0"
proof -
  have "n \<le> foldr (max \<circ> snd) w (0 :: nat)" if "(b, n) \<in> set w" for b n
    using that by (induction w) auto
  then have "(b, Suc (foldr (max \<circ> snd) w 0)) \<notin> set w" for b by fastforce
  then show ?thesis by (simp add: tally_def count_list_0_iff)
qed

lemma counting_tracks: "tracks counting_lib tally"
  unfolding tracks_def calls_within_def
proof (intro conjI allI impI)
  fix v w assume "plain_call counting_lib v w"
  then have "w = v" by (rule counting_plain)
  then show "tally w = tally v" by simp
next
  fix nodev v h w assume "dtrace_open counting_lib nodev v = (Inr h, w)"
  then have "h = Suc (foldr (max \<circ> snd) v 0)" "w = (True, h) # v" by (auto simp: counting_lib_def Let_def)
  then show "tally v h = 0" "tally w = (tally v)(h := 1)" using above_all [of v] by (auto simp: tally_def)
qed (auto simp: counting_lib_def Let_def tally_def intro: deliver_within)

definition counting_tcl :: "(bool \<times> nat) list tcl" where
  "counting_tcl = tower counting_lib \<lparr>
     int_rep = (\<lambda>ob. Inl ''expected integer''), long_rep = (\<lambda>ob. Inl ''expected integer''),
     boolean_rep = (\<lambda>ob. Inl ''expected boolean value''), string_rep = (\<lambda>ob. []), list_rep = (\<lambda>ob. Inr []),
     index_rep = (\<lambda>ob names msg. case position (text_of ob) names of None \<Rightarrow> Inl (''bad '' @ msg) | Some n \<Rightarrow> Inr n),
     wrong_num_args = (\<lambda>obs msg. ''wrong # args''),
     EvalObjv = (\<lambda>i objv s. Done (TCL_OK, s)), EvalScript = (\<lambda>i script s. Done (TCL_OK, s)),
     append_handed = (\<lambda>p ob s. Done (result s)), handed_value = (\<lambda>p s. Done (StrObj [])),
     InitStubs_ok = (\<lambda>i. True), PkgProvide_ok = (\<lambda>i. True), tcl_version = (8, 6)\<rparr>
     (\<lambda>i objv. Invoke ''dtrace::close'' [StrObj ''close'', IntObj 1] (\<lambda>rc r. Finish rc)) 1"

text \<open>A series of commands of one interpreter.\<close>

fun run_calls :: "'w libdtrace \<Rightarrow> 'w tcl \<Rightarrow> interp \<Rightarrow> (string \<times> tcl_obj list) list \<Rightarrow> int \<times> 'w st \<Rightarrow> (int \<times> 'w st) exec" where
  "run_calls L T i [] x = Done x"
| "run_calls L T i ((cmdname, objv) # cs) x = seq (call_command L T i cmdname objv (snd x)) (run_calls L T i cs)"

lemma run_calls_reach:
  "run_calls L T i cs x = Done y \<Longrightarrow> reachable_under env L T s (snd x) \<Longrightarrow> reachable_under env L T s (snd y)"
proof (induction L T i cs x rule: run_calls.induct)
  case (2 L T i cmdname objv cs x)
  from "2.prems"(1) obtain z where z: "call_command L T i cmdname objv (snd x) = Done z" "run_calls L T i cs z = Done y"
    by (auto simp: seq_eq_Done_iff)
  have "step_under env L T (snd x) (snd z)" using z(1) step_under.command [of L T i cmdname objv "snd x" "fst z" "snd z"] by simp
  with "2.IH" [OF z(2)] "2.prems"(2) show ?case by (blast intro: reachable_under.continue)
qed simp

text \<open>
  The first handle is opened, the second is given up over a bad option.
\<close>

definition tally_script :: "(string \<times> tcl_obj list) list" where
  "tally_script =
     [(''dtrace::open'', [StrObj ''open'']),
      (''dtrace::open'', [StrObj ''open'', StrObj ''-bogus'', StrObj ''1''])]"

definition tally_run :: "(int \<times> (bool \<times> nat) list st) exec" where
  "tally_run = seq (Dtrace_Init counting_tcl 0 (initial [])) (run_calls counting_lib counting_tcl 0 tally_script)"

definition tallied :: "(bool \<times> nat) list st" where
  "tallied = state_of tally_run"

definition tally_view :: "(int \<times> (bool \<times> nat) list st) exec \<Rightarrow> ((bool \<times> nat) list \<times> int \<times> dtrace_hdl option option) option" where
  "tally_view m = (case m of Done x \<Rightarrow> Some (world (snd x), next_free_id (snd x), map_option hdl (hds (snd x) 1)) | _ \<Rightarrow> None)"

lemma tally_view_run: "tally_view tally_run = Some ([(False, 2), (True, 2), (True, 1)], 3, Some (Some 1))"
  by code_simp

lemma tally_viewD:
  "tally_view m = Some (w, k, Some (Some h)) \<Longrightarrow> (\<exists>rc. m = Done (rc, state_of m)) \<and> world (state_of m) = w \<and>
    next_free_id (state_of m) = k \<and> (\<exists>H. hds (state_of m) 1 = Some H \<and> hdl H = Some h)"
  by (cases m) (auto simp: tally_view_def)

lemmas tallied_state = tally_viewD [OF tally_view_run, folded tallied_def]

lemma reach_tallied: "reachable_under env counting_lib counting_tcl (initial []) tallied"
proof -
  from tallied_state obtain rc z where z: "Dtrace_Init counting_tcl 0 (initial []) = Done z"
    "run_calls counting_lib counting_tcl 0 tally_script z = Done (rc, tallied)"
    by (auto simp: tally_run_def seq_eq_Done_iff)
  have "step_under env counting_lib counting_tcl (initial []) (snd z)"
    using z(1) step_under.load [of counting_tcl 0 "initial []" "fst z" "snd z"] by simp
  then have "reachable_under env counting_lib counting_tcl (initial []) (snd z)" by (blast intro: reachable_under.intros)
  from run_calls_reach [OF z(2) this] show ?thesis by simp
qed

end
