(* ===== verification/Command_Properties.thy ===== *)
theory Command_Properties
  imports Sample
begin

text \<open>
  The properties of the single commands, callbacks and helpers. Every property is a theorem of
  its own; the witness after it applies it to the libraries and states of \<open>Sample\<close>.
\<close>

section \<open>Handles\<close>

text \<open>
  C12. \<^verbatim>\<open>::dtrace::open\<close> returns whenever the handle counter is not at its limit and no option
  name is empty. Either it succeeds: its result is the handle number that was free, the number
  leads to a new structure that belongs to the interpreter and holds a libdtrace handle, and
  every other handle and program is as it was. Or it reports an error: then no handle was
  gained or lost and no structure is left behind.
\<close>

lemma open_result:
  assumes "wf_st s" and "assoc s i \<noteq> None" and "next_free_id s < INT_MAX"
    and "\<forall>ov \<in> set (pairs_of (drop 1 objv)). Tcl_GetString T (fst ov) \<noteq> []"
  shows "ensures (Open L T i objv s) (\<lambda>(rc, u). wf_st u \<and>
    (rc = TCL_OK \<and> result u i = IntObj (next_free_id s) \<and> handle_of u i (next_free_id s) = Some (brk s) \<and>
       (\<exists>H h. hds u = (hds s)(brk s \<mapsto> H) \<and> hdl H = Some h \<and> hd_interp H = Some i \<and> grabbed H = [] \<and>
          cb_procs H = replicate CALLBACKS_COUNT None) \<and>
       (\<forall>j k. k \<noteq> next_free_id s \<longrightarrow> handle_of u j k = handle_of s j k) \<and>
       (\<forall>j k. program_of u j k = program_of s j k)
     \<or> rc = TCL_ERROR \<and> hds u = hds s \<and> (\<forall>j k. handle_of u j k = handle_of s j k)))" (is "ensures _ ?Q")
proof (rule ensures_mono [OF Open_total [OF assms]])
  fix x
  assume "open_post L s i x"
  then consider "wf_st (snd x)" "fst x = TCL_OK" "opened s i (snd x)" "result (snd x) i = IntObj (next_free_id s)"
    | "wf_st (snd x)" "fst x = TCL_ERROR" "books (snd x) = books s \<or> open_undone s i (snd x)"
    by (auto simp: open_post_def)
  then show "?Q x"
  proof cases
    case 1
    with opened_lookups [OF 1(3)] opened_structure [OF 1(3)] show ?thesis by (simp add: case_prod_beta)
  next
    case 2
    with refused_lookups [OF 2(3)] show ?thesis by (simp add: case_prod_beta)
  qed
qed

lemma open_result_witness:
  "ensures (Open sample_lib sample_tcl 0 [StrObj ''open'', StrObj ''-quiet'', StrObj ''1''] (session sample_H)) (\<lambda>(rc, u). wf_st u \<and>
    (rc = TCL_OK \<and> result u 0 = IntObj 3 \<and> handle_of u 0 3 = Some 3 \<or>
     rc = TCL_ERROR \<and> hds u = hds (session sample_H)))"
  by (rule ensures_mono [OF open_result [of "session sample_H" 0 "[StrObj ''open'', StrObj ''-quiet'', StrObj ''1'']" sample_tcl sample_lib]])
    (auto simp: wf_session sample_H_wf INT_MAX_def)

text \<open>
  C13. \<^verbatim>\<open>::dtrace::close\<close> on an open handle always succeeds: libdtrace's handle is closed, once;
  the references to the registered procedures and arguments are dropped, exactly those; the
  structure is gone and its number leads nowhere, in any interpreter, while every other number
  leads where it did.
\<close>

lemma close_result:
  assumes "wf_st s" and "open_handle T i (objv ! 1) s p" and "hds s p = Some H" and "hdl H = Some h" and "length objv = 2"
    and "Tcl_GetIntFromObj T (objv ! 1) = Inr k"
  shows "ensures (Close L T i objv s) (\<lambda>(rc, u). rc = TCL_OK \<and> wf_st u \<and> world u = dtrace_close L h (world s) \<and>
    refs u = refs (decr_refs (slot_refs H) s) \<and> hds u = (hds s)(p := None) \<and>
    (\<forall>j. handle_of u j k = None) \<and> (\<forall>j m. m \<noteq> k \<longrightarrow> handle_of u j m = handle_of s j m))"
proof -
  from assms(2,6) obtain d where d: "assoc s i = Some d" "owns s d k p" and r: "ready p s"
    by (auto simp: open_handle_def handle_of_owns)
  from assms(3,4) show ?thesis
    by (intro ensures_mono [OF Close_open [OF assms(1) d(1) assms(6) d(2) r assms(5)]])
      (auto simp: closed_lookups, auto simp: closed_def)
qed

lemma close_result_witness:
  "ensures (Close sample_lib sample_tcl 0 [StrObj ''close'', IntObj 1] (session sample_H)) (\<lambda>(rc, u). rc = TCL_OK \<and>
     world u = [''close''] \<and> refs u (StrObj ''p'') = 0 \<and> handle_of u 0 1 = None \<and> handle_of u 0 2 = Some 2)"
proof -
  have refs: "slot_refs sample_H = [StrObj ''p'', StrObj ''a'']"
    by (simp add: slot_refs_def sample_H_def)
  show ?thesis
    by (rule ensures_mono [OF close_result [of "session sample_H" sample_tcl 0 "[StrObj ''close'', IntObj 1]" 1 sample_H 7 1 sample_lib]])
      (auto simp: wf_session sample_H_wf session_open refs sample_lib_def decr_refs_def simp del: One_nat_def)
qed

text \<open>
  C14. Closing one handle takes the compiled programs of every handle of the interpreter with it:
  the other handle stays open, but the number of its program is no longer known.
\<close>

lemma close_forgets_other_programs:
  assumes "wf_st s" and "open_handle T i (objv ! 1) s p" and "length objv = 2"
    and "program_of s i m = Some pd" and "pd_hd pd \<noteq> p"
  shows "ensures (Close L T i objv s) (\<lambda>(rc, u). hds u (pd_hd pd) = hds s (pd_hd pd) \<and> hds u (pd_hd pd) \<noteq> None \<and>
    program_of u i m = None)"
proof -
  from assms(2) obtain k d where d: "Tcl_GetIntFromObj T (objv ! 1) = Inr k" "assoc s i = Some d" "owns s d k p" "ready p s"
    by (auto simp: open_handle_def handle_of_owns)
  have "hds s (pd_hd pd) \<noteq> None"
    using wf_prog_live [OF assms(1)] assms(4) by (auto simp: program_of_has)
  then show ?thesis
    using assms(5) by (intro ensures_mono [OF Close_open [OF assms(1) d(2,1,3,4) assms(3)]])
      (auto simp: closed_lookups(3) [OF _ d(2)] closed_hds)
qed

lemma close_forgets_other_programs_witness:
  "ensures (Close sample_lib sample_tcl 0 [StrObj ''close'', IntObj 2] (session sample_H)) (\<lambda>(rc, u).
     hds u 1 = Some sample_H \<and> program_of u 0 1 = None)"
proof -
  have "open_handle sample_tcl 0 (IntObj 2) (session sample_H) 2"
    by (auto simp: open_handle_def ready_def)
  then show ?thesis
    by (intro ensures_mono [OF close_forgets_other_programs [of "session sample_H" sample_tcl 0 "[StrObj ''close'', IntObj 2]" 2 1
          "\<lparr>compiled = 5, pd_hd = 1\<rparr>" sample_lib]])
      (auto simp: wf_session sample_H_wf)
qed

section \<open>Programs\<close>

text \<open>
  C15. A program that libdtrace compiles is registered under a number that no interpreter had in
  use; the number is the result, it leads to the program and to the handle it was compiled with,
  and no handle is touched.
\<close>

lemma compile_registers:
  assumes "wf_st s" and "3 \<le> length objv" and "open_handle T i (objv ! 1) s p"
    and "hds s p = Some H" and "hdl H = Some h"
    and "dtrace_program_strcompile L h (Tcl_GetString T (objv ! 2)) (map (Tcl_GetString T) (drop 3 objv)) (world s) = (Some prog, w)"
    and "next_free_pid s < INT_MAX"
  shows "ensures (Compile L T i objv s) (\<lambda>(rc, u). rc = TCL_OK \<and> wf_st u \<and> result u i = IntObj (next_free_pid s) \<and>
    program_of u i (next_free_pid s) = Some \<lparr>compiled = prog, pd_hd = p\<rparr> \<and>
    (\<forall>d pd. \<not> has_prog s d (next_free_pid s) pd) \<and> owns u = owns s \<and> hds u = hds s \<and> world u = w)"
  by (rule Compile_ok) (fact assms)+

lemma compile_registers_witness:
  "ensures (Compile sample_lib sample_tcl 0 [StrObj ''compile'', IntObj 1, StrObj ''BEGIN''] (session sample_H)) (\<lambda>(rc, u).
     rc = TCL_OK \<and> result u 0 = IntObj 2 \<and> program_of u 0 2 = Some \<lparr>compiled = 5, pd_hd = 1\<rparr> \<and> world u = [''BEGIN''])"
  by (rule ensures_mono [OF compile_registers [where p = 1 and H = sample_H and h = 7 and prog = 5 and w = "[''BEGIN'']"]])
    (auto simp: wf_session sample_H_wf session_open sample_lib_def INT_MAX_def simp del: One_nat_def)

text \<open>
  C16. \<^verbatim>\<open>::dtrace::exec\<close> and \<^verbatim>\<open>::dtrace::info\<close> hand libdtrace the program and the handle it was
  compiled with, and return the four counts it reports as a dictionary of the keys
  \<^verbatim>\<open>aggregates\<close>, \<^verbatim>\<open>recgens\<close>, \<^verbatim>\<open>matches\<close> and \<^verbatim>\<open>speculations\<close>, in this order, each read as a
  C integer; nothing but the result and the world changes. An \<^verbatim>\<open>exec\<close> that fails is an error with
  the code \<^verbatim>\<open>DTRACE EXEC\<close>; its message is appended to the result.
\<close>

lemma exec_info_result:
  assumes "wf_st s" and "length objv = 2" and "Tcl_GetIntFromObj T (objv ! 1) = Inr k" and "program_of s i k = Some pd"
    and "hds s (pd_hd pd) = Some H" and "hdl H = Some h" and "hd_interp H \<noteq> None"
    and "dtrace_program_exec L h (compiled pd) (world s) = ((rc, info), w)"
    and "dtrace_program_info L h (compiled pd) (world s) = (info', w')"
  shows "Exec L T i objv s = (if rc = - 1
      then Done (TCL_ERROR, s\<lparr>world := w, error_code := (error_code s)(i := [''DTRACE'', ''EXEC'']),
        result := (result s)(i := StrObj (Tcl_GetString T (result s i) @ Tcl_GetString T (objv ! 0) @ '' failed enable the probe''))\<rparr>)
      else Done (TCL_OK, s\<lparr>world := w, result := (result s)(i := ListObj
        [StrObj ''aggregates'', IntObj (as_int (dpi_aggregates info)), StrObj ''recgens'', IntObj (as_int (dpi_recgens info)),
         StrObj ''matches'', IntObj (as_int (dpi_matches info)), StrObj ''speculations'', IntObj (as_int (dpi_speculations info))])\<rparr>)) \<and>
    Info L T i objv s = Done (TCL_OK, s\<lparr>world := w', result := (result s)(i := ListObj
        [StrObj ''aggregates'', IntObj (as_int (dpi_aggregates info')), StrObj ''recgens'', IntObj (as_int (dpi_recgens info')),
         StrObj ''matches'', IntObj (as_int (dpi_matches info')), StrObj ''speculations'', IntObj (as_int (dpi_speculations info'))])\<rparr>)"
proof -
  have "ready (pd_hd pd) s" using assms(5-7) by (auto simp: ready_def)
  from checked_program_open [OF assms(1,3,4) this] assms(5,6)
  have eq: "\<And>f. checked_program T i objv (objv ! 1) s f = f pd H h s" by (metis option.inject)
  show ?thesis
    unfolding Exec_def Info_def Exec_or_Info_def eq using assms
    by (simp add: info_list_def fail_def COMMAND_def ERROR_CLASS_def result_ops_defs put_world_def)
qed

lemma exec_info_result_witness:
  "Exec sample_lib sample_tcl 0 [StrObj ''exec'', IntObj 1] (session sample_H) =
     Done (TCL_OK, set_result 0 (ListObj [StrObj ''aggregates'', IntObj 1, StrObj ''recgens'', IntObj 2,
       StrObj ''matches'', IntObj 3, StrObj ''speculations'', IntObj (- 1)]) (session sample_H))"
proof -
  have "set_result 0 ob (session sample_H) = (session sample_H)\<lparr>world := [], result := (result (session sample_H))(0 := ob)\<rparr>" for ob
    by (simp add: set_result_def session_def)
  then show ?thesis
    using exec_info_result [of "session sample_H" "[StrObj ''exec'', IntObj 1]" sample_tcl 1 0 "\<lparr>compiled = 5, pd_hd = 1\<rparr>"
      sample_H 7 sample_lib 0 "\<lparr>dpi_aggregates = 1, dpi_recgens = 2, dpi_matches = 3, dpi_speculations = 4294967295\<rparr>" "[]"]
    by (simp add: wf_session sample_H_wf sample_lib_def as_int_def)
qed

text \<open>
  C17. \<^verbatim>\<open>::dtrace::list\<close> calls the procedure once for every probe of every statement of the program,
  in order, with the probe's description and the argument; statements that follow one with the
  same description are skipped. This is for a procedure that, whatever words follow it, succeeds
  and leaves the extension's own data alone, and for a libdtrace that goes through a list of
  statements, and for each of them through a list of probes, without a failure of its own. Then
  the command succeeds, and the extension's data, its references included, are as they were; the
  results of the interpreters are as the procedure leaves them.
\<close>

lemma list_calls:
  assumes "wf_st s" and "length objv = 4" and "Tcl_GetIntFromObj T (objv ! 1) = Inr k" and "program_of s i k = Some pd"
    and "hds s (pd_hd pd) = Some H" and "hdl H = Some h" and "hd_interp H = Some j" and "acts T j {objv ! 2} f"
    and "dtrace_stmt_iter L h (compiled pd) (world s) = deliver es rc w"
    and "\<And>d v. dtrace_probe_iter L h d v = deliver (probes d) 0 v"
  shows "ensures (List_cmd L T i objv s) (\<lambda>(code, u). code = TCL_OK \<and> ledger u = ledger s \<and> world u =
    fold (\<lambda>d. f [objv ! 2, formatProbeDesc H d, objv ! 3]) (concat (map (probes \<circ> dted_probe) (run_heads None es))) w) \<and>
    map ecb_addr (run_heads None es) = remdups_adj (map ecb_addr es)"
  using List_calls [OF assms] run_heads_remdups [of es] by (simp add: list_effect_def goes_def)

lemma list_calls_witness:
  "ensures (List_cmd sample_lib sample_tcl 0 [StrObj ''list'', IntObj 1, StrObj ''show'', StrObj ''x''] (session sample_H))
     (\<lambda>(code, u). code = TCL_OK \<and> hds u = hds (session sample_H) \<and> world u = [''show''])"
  using list_calls [of "session sample_H" "[StrObj ''list'', IntObj 1, StrObj ''show'', StrObj ''x'']" sample_tcl 1 0
      "\<lparr>compiled = 5, pd_hd = 1\<rparr>" sample_H 7 0 script_effect sample_lib
      "[\<lparr>ecb_addr = 1, dted_probe = sample_desc ''read''\<rparr>, \<lparr>ecb_addr = 1, dted_probe = sample_desc ''read''\<rparr>]" 0 "[]" "\<lambda>d. [d]"]
  by (auto simp: wf_session sample_H_wf sample_acts sample_lib_def script_effect_def text_of_def elim!: ensures_mono
      dest!: ledger_core core_eqD(4))

text \<open>
  C18. A list callback that fails takes the whole process down: libdtrace stops at the failure
  and reports it, and the extension calls \<^verbatim>\<open>Tcl_Panic\<close> about an unmatched statement.
\<close>

lemma list_failure_panics:
  assumes "prev \<noteq> Some (ecb_addr e)" and "dtrace_probe_iter L h (dted_probe e) (world s) = iter_until_failure pd w"
    and "hds s p = Some H" and "hd_interp H = Some i"
    and "EvalObjv T i [proc, formatProbeDesc H pd, args] (incr_refs [proc, formatProbeDesc H pd, args] (put_world w s)) = Done (rc, t)"
    and "rc \<noteq> TCL_OK" and "hds t p = Some H'" and "hd_interp H' = Some j"
  shows "\<exists>msg. listStatement L T p h proc args e (prev, s) = Panic msg"
  by (rule listStatement_aborts) (fact assms)+

lemma list_failure_panics_witness:
  "\<exists>msg. listStatement (sample_lib\<lparr>dtrace_probe_iter := (\<lambda>h pd w. iter_until_failure pd w)\<rparr>)
     (sample_tcl\<lparr>EvalObjv := (\<lambda>i objv s. Done (TCL_ERROR, s))\<rparr>) 1 7 (StrObj ''show'') (StrObj ''x'')
     \<lparr>ecb_addr = 1, dted_probe = sample_desc ''read''\<rparr> (None, session sample_H) = Panic msg"
  by (rule list_failure_panics [where H = sample_H and H' = sample_H and i = 0 and j = 0 and rc = TCL_ERROR
        and t = "incr_refs [StrObj ''show'', formatProbeDesc sample_H (sample_desc ''read''), StrObj ''x''] (put_world [] (session sample_H))"
        and pd = "sample_desc ''read''" and w = "[]"])
    simp_all

section \<open>Tracing\<close>

text \<open>
  C19. \<^verbatim>\<open>::dtrace::go\<close> with well-formed callback pairs succeeds if libdtrace starts the trace:
  every slot then holds the procedure and the argument of the last pair that names it, the first
  word of the pair's list and the second, or what it held before; a reference is taken to every
  procedure and argument; the trace is started, and then every grabbed process is let run, once
  each and in the order they were grabbed. Nothing else changes.
\<close>

lemma go_registers_and_continues:
  assumes "wf_st s" and "2 \<le> length objv" and "even (length objv)" and "open_handle T i (objv ! 1) s p"
    and "hds s p = Some H" and "hdl H = Some h"
    and "map (callback_spec T) (pairs_of (drop 2 objv)) = map Some specs"
    and "dtrace_go L h (world s) = (rc, w)" and "rc \<noteq> - 1"
  shows "Go L T i objv s = Done (TCL_OK, s\<lparr>
    hds := (hds s)(p \<mapsto> H\<lparr>cb_procs := filled specs fst (cb_procs H), cb_args := filled specs snd (cb_args H)\<rparr>),
    refs := (\<lambda>ob. refs s ob + int (count_list (spec_objs specs) ob)),
    world := fold (dtrace_proc_continue L h) (grabbed H) w\<rparr>)"
  using Go_ok [OF assms] by (simp add: register_all_filled put_world_def incr_refs_def put_hd_def)

lemma sample_filled:
  "filled [(2, StrObj ''q'', StrObj ''b'')] fst (cb_procs sample_H) = [Some (StrObj ''p''), None, Some (StrObj ''q''), None, None]"
  "filled [(2, StrObj ''q'', StrObj ''b'')] snd (cb_args sample_H) = [Some (StrObj ''a''), None, Some (StrObj ''b''), None, None]"
  by (simp_all del: sample_H_slots) (simp_all add: sample_H_def)

lemma go_registers_and_continues_witness:
  "Go sample_lib sample_tcl 0 [StrObj ''go'', IntObj 1, StrObj ''drop'', ListObj [StrObj ''q'', StrObj ''b'']] (session sample_H) =
     Done (TCL_OK, (session sample_H)\<lparr>
       hds := (hds (session sample_H))(1 \<mapsto> sample_H\<lparr>
         cb_procs := [Some (StrObj ''p''), None, Some (StrObj ''q''), None, None],
         cb_args := [Some (StrObj ''a''), None, Some (StrObj ''b''), None, None]\<rparr>),
       refs := (\<lambda>ob. 1 + int (count_list [StrObj ''q'', StrObj ''b''] ob)), world := [''go'', ''continue'']\<rparr>)"
proof -
  have spec: "callback_spec sample_tcl (StrObj ''drop'', ListObj [StrObj ''q'', StrObj ''b'']) = Some (2, StrObj ''q'', StrObj ''b'')"
    by (simp add: callback_spec_def sample_tcl_def text_of_def callbackNames_def Tcl_ListObjGetElements_def CALLBACKS_COUNT_def)
  show ?thesis
    using go_registers_and_continues [of "session sample_H" "[StrObj ''go'', IntObj 1, StrObj ''drop'', ListObj [StrObj ''q'', StrObj ''b'']]"
        sample_tcl 0 1 sample_H 7 "[(2, StrObj ''q'', StrObj ''b'')]" sample_lib 0 "[''go'']"]
    unfolding sample_filled by (simp add: wf_session sample_H_wf session_open spec sample_lib_def del: One_nat_def)
qed

text \<open>
  C20. At the first pair that is not a callback name with a list of two words the command fails:
  the trace is not started, but what the pairs before it registered stays registered, procedure
  and argument each in its slot, with their references. The error code is \<^verbatim>\<open>DTRACE USAGE\<close>, and
  no other handle and nothing of libdtrace is touched.
\<close>

lemma go_bad_pair:
  assumes "wf_st s" and "2 \<le> length objv" and "even (length objv)" and "open_handle T i (objv ! 1) s p"
    and "hds s p = Some H" and "index_in_range T"
    and "pairs_of (drop 2 objv) = good @ pair # rest" and "map (callback_spec T) good = map Some specs"
    and "callback_spec T pair = None"
  shows "ensures (Go L T i objv s) (\<lambda>(rc, u). rc = TCL_ERROR \<and> hds u = (hds s)(p \<mapsto>
      H\<lparr>cb_procs := filled specs fst (cb_procs H), cb_args := filled specs snd (cb_args H)\<rparr>) \<and> world u = world s \<and>
    refs u = (\<lambda>ob. refs s ob + int (count_list (spec_objs specs) ob)) \<and> error_code u i = [''DTRACE'', ''USAGE''])"
  using Go_bad_pair [OF assms, of L] by (auto simp: register_all_filled incr_refs_def ERROR_CLASS_def elim: ensures_mono)

lemma go_bad_pair_witness:
  "ensures (Go sample_lib sample_tcl 0 [StrObj ''go'', IntObj 1, StrObj ''drop'', ListObj [StrObj ''q'', StrObj ''b''],
       StrObj ''error'', ListObj [StrObj ''q'']] (session sample_H))
     (\<lambda>(rc, u). rc = TCL_ERROR \<and> world u = [] \<and> hds u 1 = Some (sample_H\<lparr>
       cb_procs := [Some (StrObj ''p''), None, Some (StrObj ''q''), None, None],
       cb_args := [Some (StrObj ''a''), None, Some (StrObj ''b''), None, None]\<rparr>))"
proof -
  have spec: "callback_spec sample_tcl (StrObj ''drop'', ListObj [StrObj ''q'', StrObj ''b'']) = Some (2, StrObj ''q'', StrObj ''b'')"
    "callback_spec sample_tcl (StrObj ''error'', ListObj [StrObj ''q'']) = None"
    by (simp_all add: callback_spec_def sample_tcl_def text_of_def callbackNames_def Tcl_ListObjGetElements_def CALLBACKS_COUNT_def)
  show ?thesis
    by (rule ensures_mono [OF go_bad_pair [where s = "session sample_H" and p = 1 and H = sample_H
          and good = "[(StrObj ''drop'', ListObj [StrObj ''q'', StrObj ''b''])]" and pair = "(StrObj ''error'', ListObj [StrObj ''q''])"
          and rest = "[]" and specs = "[(2, StrObj ''q'', StrObj ''b'')]"]])
      (use sample_filled in \<open>auto simp: wf_session sample_H_wf session_open spec sample_index simp del: One_nat_def filled_simps sample_H_slots\<close>)
qed



text \<open>
  C22. A callback whose script fails, whatever it has done to the state, is reported in the
  background of the interpreter, under the name of the callback, and libdtrace gets the failure
  code of that kind of event; the references held during the call are given back. The handle must
  still be there; C23 is about the other case.
\<close>

lemma callback_failure_reported:
  assumes "hds s p = Some H" and "hd_interp H = Some i" and "slot_of ev = Some cb" and "cb_procs H ! cb_index cb = Some proc"
    and "cb_args H ! cb_index cb = Some arg" and "described ev"
    and "EvalObjv T i (proc # event_words L H (world s) arg ev) (incr_refs (proc # event_words L H (world s) arg ev) s) = Done (rc, t)"
    and "rc \<noteq> TCL_OK" and "hds t p = Some H'" and "hd_interp H' = Some j"
  shows "handle_event L T p ev s = Done (error_ret ev, t\<lparr>
    bg_errors := bg_errors t @ [(j, newline @ ''    (running '' @ callbackNames ! cb_index cb @ '' callback)'')],
    refs := (\<lambda>ob. refs t ob - int (count_list (proc # event_words L H (world s) arg ev) ob))\<rparr>)"
  unfolding handle_event_calls [OF assms(1,3-6)] CallbackEval_error [OF assms(1,2,7-10)]
  by (simp add: background_error_def decr_refs_def)

lemma callback_failure_reported_witness:
  "\<exists>t. handle_event sample_lib (sample_tcl\<lparr>EvalObjv := (\<lambda>i objv s. Done (TCL_ERROR, set_result i (StrObj ''no such variable'') s))\<rparr>) 1
      (Ev_chew sample_data) (session sample_H) = Done (DTRACE_CONSUME_ERROR, t) \<and> result t 0 = StrObj ''no such variable'' \<and>
      bg_errors t = [(0, newline @ ''    (running probe_desc callback)'')] \<and> refs t = refs (session sample_H)"
proof -
  let ?T = "sample_tcl\<lparr>EvalObjv := (\<lambda>i objv s. Done (TCL_ERROR, set_result i (StrObj ''no such variable'') s))\<rparr>"
  let ?objv = "StrObj ''p'' # event_words sample_lib sample_H [] (StrObj ''a'') (Ev_chew sample_data)"
  let ?t = "set_result 0 (StrObj ''no such variable'') (incr_refs ?objv (session sample_H))"
  have "handle_event sample_lib ?T 1 (Ev_chew sample_data) (session sample_H) = Done (DTRACE_CONSUME_ERROR, ?t\<lparr>
      bg_errors := bg_errors ?t @ [(0, newline @ ''    (running '' @ callbackNames ! cb_index cb_probe_desc @ '' callback)'')],
      refs := (\<lambda>ob. refs ?t ob - int (count_list ?objv ob))\<rparr>)"
    using callback_failure_reported [of "session sample_H" 1 sample_H 0 "Ev_chew sample_data" cb_probe_desc "StrObj ''p''" "StrObj ''a''"
        ?T sample_lib TCL_ERROR ?t sample_H 0]
    by simp
  then show ?thesis
    by (simp add: callbackNames_def incr_refs_def set_result_def session_def)
qed

text \<open>
  C23. A callback may close its own handle. If it then fails, the report of the failure follows
  the pointer to the freed structure.
\<close>

lemma callback_closes_handle:
  assumes "hds s p = Some H" and "hd_interp H = Some i" and "slot_of ev = Some cb" and "cb_procs H ! cb_index cb = Some proc"
    and "cb_args H ! cb_index cb = Some arg" and "described ev"
    and "EvalObjv T i (proc # event_words L H (world s) arg ev) (incr_refs (proc # event_words L H (world s) arg ev) s) = Done (rc, t)"
    and "rc \<noteq> TCL_OK" and "hds t p = None"
  shows "handle_event L T p ev s = Fault ''use of a freed handle_data''"
  unfolding handle_event_calls [OF assms(1,3-6)] by (rule CallbackEval_closed) (fact assms)+

lemma callback_closes_handle_witness:
  "handle_event sample_lib (sample_tcl\<lparr>EvalObjv := (\<lambda>i objv s. Done (TCL_ERROR, s\<lparr>hds := (hds s)(1 := None)\<rparr>))\<rparr>) 1
     (Ev_chew sample_data) (session sample_H) = Fault ''use of a freed handle_data''"
proof -
  let ?T = "sample_tcl\<lparr>EvalObjv := (\<lambda>i objv s. Done (TCL_ERROR, s\<lparr>hds := (hds s)(1 := None)\<rparr>))\<rparr>"
  let ?objv = "StrObj ''p'' # event_words sample_lib sample_H [] (StrObj ''a'') (Ev_chew sample_data)"
  let ?s = "incr_refs ?objv (session sample_H)"
  show ?thesis
    using callback_closes_handle [of "session sample_H" 1 sample_H 0 "Ev_chew sample_data" cb_probe_desc "StrObj ''p''" "StrObj ''a''"
        ?T sample_lib TCL_ERROR "?s\<lparr>hds := (hds ?s)(1 := None)\<rparr>"]
    by simp
qed

end
