(* ===== verification/Data_Properties.thy ===== *)
theory Data_Properties
  imports Sample
begin

text \<open>
  The properties of the data the extension converts and keeps: aggregations, grabbed processes,
  options, probe descriptions and printed text.
\<close>

section \<open>Aggregations\<close>

text \<open>
  C24. When libdtrace prints an aggregation as rows of one or more key records and a value record,
  with white space records anywhere between them, \<^verbatim>\<open>::dtrace::aggregations\<close> returns exactly the
  rows: for each the list of its keys and its value, stripped of spaces, in the order they were
  printed. No tuple is left over for the next call. This is for a handle on which no tuple is left
  over from before, and for texts that, once stripped, are neither empty nor 128 characters or
  longer; C31 says what becomes of the others, stacks among them.
\<close>

lemma aggregations_parsed:
  assumes "wf_st s" and "length objv = 2" and "open_handle T i (objv ! 1) s p"
    and "hds s p = Some H" and "hdl H = Some h" and "agg_tuple H = None"
    and "dtrace_aggregate_print L h (world s) = deliver (map Ev_buffered bs) rc (world s)" and "rc \<noteq> - 1"
    and "rows_ok rows" and "filter (\<lambda>b. \<not> agg_blank b) bs = printed rows"
  shows "ensures (Aggregations L T i objv s) (\<lambda>(code, u). code = TCL_OK \<and>
    u = set_result i (ListObj (concat (map (\<lambda>(ks, v). [ListObj (map agg_text ks), agg_text v]) rows)))
          (put_hd p (H\<lparr>agg_list := HandedOver\<rparr>) s))"
  using Aggregations_ok [OF assms] by (simp add: collected_def)

lemma sample_rows: "rows_ok [sample_row]" "agg_blank (sample_buf None t)" "\<not> agg_blank (fst sample_row ! 0)"
  "\<not> agg_blank (snd sample_row)" "agg_text (fst sample_row ! 0) = StrObj ''init''" "agg_text (snd sample_row) = StrObj ''42''"
  by (simp_all add: rows_ok_def sample_row_def sample_buf_def agg_key_def agg_value_def agg_blank_def clean_def
      strip_def rstrip_def DTRACEACT_ISAGG_def TUPLE_STRLEN_def agg_text_def)

lemma aggregations_parsed_witness:
  "ensures (Aggregations sample_lib sample_tcl 0 [StrObj ''aggregations'', IntObj 1] (session sample_H)) (\<lambda>(code, u).
     code = TCL_OK \<and> result u 0 = ListObj [ListObj [StrObj ''init''], StrObj ''42''])"
proof -
  have pr: "printed [sample_row] = [fst sample_row ! 0, snd sample_row]"
    by (simp add: printed_def sample_row_def)
  have row: "(case sample_row of (ks, v) \<Rightarrow> [ListObj (map agg_text ks), agg_text v]) = [ListObj [StrObj ''init''], StrObj ''42'']"
    using sample_rows(5,6) by (simp add: sample_row_def)
  show ?thesis
    by (rule ensures_mono [OF aggregations_parsed [where s = "session sample_H" and p = 1 and H = sample_H and h = 7
          and bs = "sample_buf None ''  '' # printed [sample_row]" and rc = 0 and rows = "[sample_row]"]])
      (auto simp: wf_session sample_H_wf session_open sample_lib_def pr sample_rows row simp del: One_nat_def)
qed

text \<open>
  C25. A row of an aggregation that libdtrace prints outside of \<^verbatim>\<open>::dtrace::aggregations\<close>, as a
  program with \<^verbatim>\<open>printa\<close> makes it do while data is processed, goes to the list of the last
  \<^verbatim>\<open>::dtrace::aggregations\<close> on the handle. If there was none, the append to a NULL list is
  undefined. If the list was given to the interpreter, it is up to the interpreter: if nobody else
  has it and it is still the interpreter's result, the row is added to that result; if the object
  is shared, Tcl aborts the process; and if it was released, the append is undefined.
\<close>

lemma printa_outside_aggregations:
  assumes "hds s p = Some H" and "agg_tuple H = None" and "ks \<noteq> []" and "list_all agg_key ks" and "agg_value v"
  shows "(agg_list H = NullList \<longrightarrow> \<not> ensures (run_lib L T p (deliver (map Ev_buffered (ks @ [v])) rc (world s)) s) Q) \<and>
    (agg_list H = HandedOver \<longrightarrow>
      (result s j = ListObj l \<longrightarrow>
        (\<forall>ob u xs. result u j = ListObj xs \<longrightarrow> append_handed T p ob u = Done ((result u)(j := ListObj (xs @ [ob])))) \<longrightarrow>
        run_lib L T p (deliver (map Ev_buffered (ks @ [v])) rc (world s)) s = Done (rc,
          s\<lparr>result := (result s)(j := ListObj (l @ [ListObj (map agg_text ks), agg_text v]))\<rparr>)) \<and>
      ((\<forall>ob u. append_handed T p ob u = Panic msg) \<longrightarrow> run_lib L T p (deliver (map Ev_buffered (ks @ [v])) rc (world s)) s = Panic msg) \<and>
      ((\<forall>ob u. append_handed T p ob u = Fault msg) \<longrightarrow> run_lib L T p (deliver (map Ev_buffered (ks @ [v])) rc (world s)) s = Fault msg))"
proof -
  let ?H = "H\<lparr>agg_tuple := Some (map agg_text ks)\<rparr>"
  let ?s = "put_hd p ?H s"
  have eq: "run_lib L T p (deliver (map Ev_buffered (ks @ [v])) rc (world s)) s = feed L T p [v] rc ?s"
    using gather_row [OF assms(3,4,1,2), of L T "[v]" rc] by (simp add: feed_def)
  have H: "hds ?s p = Some ?H" "agg_tuple ?H = Some (map agg_text ks)" by simp_all
  note v = value_uncollected [OF assms(5) H, of L T rc]
  have "result ?s = result s" by (simp add: put_hd_def)
  moreover have "H\<lparr>agg_tuple := None\<rparr> = H" using assms(2) by (cases H) simp
  moreover have "put_hd p H (put_results r ?s) = s\<lparr>result := r\<rparr>" for r
    using assms(1) by (simp add: put_hd_def put_results_def fun_upd_idem)
  ultimately show ?thesis
    unfolding eq using v by simp
qed

lemma printa_outside_aggregations_witness:
  "run_lib sample_lib (sample_tcl\<lparr>append_handed := (\<lambda>p ob u. Done ((result u)(0 := ListObj ((case result u 0 of ListObj xs \<Rightarrow> xs | _ \<Rightarrow> []) @ [ob]))))\<rparr>)
      1 (deliver (map Ev_buffered (fst sample_row @ [snd sample_row])) 0 [])
      ((session (sample_H\<lparr>agg_list := HandedOver\<rparr>))\<lparr>result := (\<lambda>i. ListObj [StrObj ''x''])\<rparr>) =
    Done (0, (session (sample_H\<lparr>agg_list := HandedOver\<rparr>))\<lparr>result :=
      (\<lambda>i. ListObj [StrObj ''x''])(0 := ListObj [StrObj ''x'', ListObj [StrObj ''init''], StrObj ''42''])\<rparr>)"
proof -
  let ?H = "sample_H\<lparr>agg_list := HandedOver\<rparr>"
  let ?T = "sample_tcl\<lparr>append_handed := (\<lambda>p ob u. Done ((result u)(0 := ListObj ((case result u 0 of ListObj xs \<Rightarrow> xs | _ \<Rightarrow> []) @ [ob]))))\<rparr>"
  let ?s = "(session ?H)\<lparr>result := (\<lambda>i. ListObj [StrObj ''x''])\<rparr>"
  have row: "fst sample_row = [fst sample_row ! 0]" "list_all agg_key (fst sample_row)" "agg_value (snd sample_row)"
    using sample_rows(1) by (simp_all add: rows_ok_def case_prod_beta) (simp add: sample_row_def)
  have keys: "map agg_text (fst sample_row) = [StrObj ''init'']"
    using sample_rows(5) by (subst row(1)) simp
  have "run_lib sample_lib ?T 1 (deliver (map Ev_buffered (fst sample_row @ [snd sample_row])) 0 (world ?s)) ?s = Done (0,
      ?s\<lparr>result := (result ?s)(0 := ListObj ([StrObj ''x''] @ [ListObj (map agg_text (fst sample_row)), agg_text (snd sample_row)]))\<rparr>)"
    by (rule printa_outside_aggregations [where H = ?H, THEN conjunct2, rule_format, THEN conjunct1, rule_format])
      (use row in \<open>auto simp: sample_row_def\<close>)
  then show ?thesis by (simp add: keys sample_rows)
qed

section \<open>Processes\<close>

text \<open>
  C26. \<^verbatim>\<open>::dtrace::grab\<close> gives libdtrace the low 32 bits of the number as a signed process
  identifier; the process libdtrace returns is added at the end of the handle's processes, and
  nothing else of the handle, and no other handle, changes.
\<close>

lemma grab_appends:
  assumes "wf_st s" and "length objv = 3" and "open_handle T i (objv ! 1) s p"
    and "hds s p = Some H" and "hdl H = Some h" and "Tcl_GetLongFromObj T (objv ! 2) = Inr lpid"
    and "dtrace_proc_grab L h (as_int lpid) (world s) = (Some proc, w)" and "proc_count H < INT_MAX"
  shows "ensures (Grab L T i objv s) (\<lambda>(rc, u). rc = TCL_OK \<and>
    (\<exists>H'. u = put_hd p H' (put_world w s) \<and> same_but_vector H H' \<and> wf_hd H' \<and> grabbed H' = grabbed H @ [proc]))"
proof -
  from checked_open [OF assms(1,3)] assms(4,5) have eq: "\<And>f. checked T i objv (objv ! 1) s f = f p H h s"
    by (metis option.inject)
  have "wf_st (put_world w s)" "hds (put_world w s) p = Some H" using assms(1,4) by simp_all
  from record_process_total [OF this assms(8), of proc] show ?thesis
    unfolding Grab_def eq using assms(2,4,6,7) by (auto elim!: ensures_mono simp: recorded_def)
qed

lemma grab_appends_witness:
  "ensures (Grab sample_lib sample_tcl 0 [StrObj ''grab'', IntObj 1, IntObj 42] (session sample_H)) (\<lambda>(rc, u).
     rc = TCL_OK \<and> map_option grabbed (hds u 1) = Some [3, 3])"
  by (rule ensures_mono [OF grab_appends [where s = "session sample_H" and p = 1 and H = sample_H and h = 7
        and lpid = 42 and proc = 3 and w = "[''grab'']"]])
    (auto simp: wf_session sample_H_wf session_open sample_lib_def Tcl_GetLongFromObj_def INT_MAX_def simp del: One_nat_def)

text \<open>
  Launching gives libdtrace the words after the handle as the command line, the first of
  them as the file, and adds the process to the handle in the same way.
\<close>

lemma launch_appends:
  assumes "wf_st s" and "3 \<le> length objv" and "open_handle T i (objv ! 1) s p"
    and "hds s p = Some H" and "hdl H = Some h" and "proc_count H < INT_MAX"
    and "dtrace_proc_create L h (Tcl_GetString T (objv ! 2)) (map (Tcl_GetString T) (drop 2 objv)) (world s) = (Some proc, w)"
  shows "ensures (Launch L T i objv s) (\<lambda>(rc, u). rc = TCL_OK \<and>
    (\<exists>H'. u = put_hd p H' (put_world w s) \<and> same_but_vector H H' \<and> wf_hd H' \<and> grabbed H' = grabbed H @ [proc]))"
proof -
  from checked_open [OF assms(1,3)] assms(4,5) have eq: "\<And>f. checked T i objv (objv ! 1) s f = f p H h s"
    by (metis option.inject)
  have "wf_st (put_world w s)" "hds (put_world w s) p = Some H" using assms(1,4) by simp_all
  from record_process_total [OF this assms(6), of proc] show ?thesis
    unfolding Launch_def eq Let_def using assms(2,4,7) by (auto elim!: ensures_mono simp: recorded_def)
qed

text \<open>
  C27. The growing vector is a list: starting from a new handle, any sequence of at most
  \<^verbatim>\<open>INT_MAX\<close> processes can be stored, with no store outside the block and no overflow of the
  capacity, and reading the cells in order gives the sequence back.
\<close>

lemma process_vector_is_list:
  assumes "int (length procs) \<le> INT_MAX"
  shows "ensures (push_all push_process procs zero_hd) (\<lambda>H. grabbed H = procs \<and> proc_count H = int (length procs) \<and>
    (\<forall>j < length procs. read_process (int j) H = Done (procs ! j)))"
proof -
  have "vec_wf zero_hd" "grabbed zero_hd = []"
    using wf_hd_zero by (simp_all add: wf_hd_def grabbed_def zero_hd_def cells_of_def)
  moreover have "length procs \<le> nat INT_MAX" using assms by simp
  ultimately have "ensures (push_all push_process procs zero_hd) (\<lambda>H. vec_wf H \<and> grabbed H = procs)"
    using procs.push_all_spec [of zero_hd procs] by simp
  moreover have "proc_count H = int (length (grabbed H))" if "vec_wf H" for H
    using length_grabbed [OF that] that by (simp add: vec_wf_def)
  ultimately show ?thesis
    using read_process_spec by (auto elim!: ensures_mono)
qed

lemma process_vector_is_list_witness:
  "ensures (push_all push_process [4, 5, 6] zero_hd) (\<lambda>H. grabbed H = [4, 5, 6] \<and> read_process 2 H = Done 6)"
  by (rule ensures_mono [OF process_vector_is_list [of "[4, 5, 6]"]])
    (auto simp: INT_MAX_def dest: spec [where x = "2 :: nat"])

section \<open>Options\<close>

text \<open>
  C28. The extension's own option can be set and read back through \<^verbatim>\<open>::dtrace::configure\<close>:
  what is read is 0 if it was set to 0, and 1 whatever else it was set to.
\<close>

lemma flag_roundtrip:
  assumes "wf_st s" and "open_handle T i ob s p"
  shows "ensures (seq (Configure L T i [cmd, ob, StrObj ''-foldpdesc'', StrObj v] s)
      (\<lambda>(rc, t). Configure L T i [cmd, ob, StrObj ''-foldpdesc''] t))
    (\<lambda>(rc, u). rc = TCL_OK \<and> result u i = StrObj (if v = ''0'' then ''0'' else ''1''))"
  by (rule Configure_flag_roundtrip) (fact assms)+

lemma flag_roundtrip_witness:
  "ensures (seq (Configure sample_lib sample_tcl 0 [StrObj ''c'', IntObj 1, StrObj ''-foldpdesc'', StrObj ''0''] (session sample_H))
      (\<lambda>(rc, t). Configure sample_lib sample_tcl 0 [StrObj ''c'', IntObj 1, StrObj ''-foldpdesc''] t))
    (\<lambda>(rc, u). rc = TCL_OK \<and> result u 0 = StrObj ''0'')"
  by (rule ensures_mono [OF flag_roundtrip [OF wf_session [OF sample_H_wf] session_open]]) auto

text \<open>
  Whatever \<^verbatim>\<open>::dtrace::configure\<close> is asked, and whether or not it fails, it changes no
  table, no counter and no other handle, and of its own handle at most the flag.
\<close>

lemma configure_frame:
  assumes "wf_st s" and "Tcl_GetIntFromObj T (objv ! 1) = Inr k"
  shows "allows (Configure L T i objv s) (\<lambda>(rc, u). dds u = dds s \<and> assoc u = assoc s \<and>
    next_free_id u = next_free_id s \<and> next_free_pid u = next_free_pid s \<and>
    (\<forall>q. hds u q = hds s q \<or>
       handle_of s i k = Some q \<and> (\<exists>H n. hds s q = Some H \<and> hds u q = Some (H\<lparr>foldpdesc := n\<rparr>))))"
  using Configure_frame [OF assms, of L i] by (simp add: only_flag_def)

text \<open>
  C29. A value of libdtrace is reported exactly when its decimal text has at most eleven
  characters: it is printed into a buffer of twelve. A larger value is cut after eleven digits,
  so the result reads as a different number, and no error tells.
\<close>

lemma option_reported:
  assumes "wf_st s" and "open_handle T i ob s p" and "hds s p = Some H" and "hdl H = Some h"
    and "opname \<noteq> []" and "\<not> internal_option opname"
    and "dtrace_getopt L h (tl opname) (world s) = (Some optval, w)" and "optval \<noteq> DTRACEOPT_UNSET L"
  shows "\<exists>v. Configure L T i [cmd, ob, StrObj opname] s = Done (TCL_OK, set_result i (StrObj v) (put_world w s)) \<and>
    (v = dec_int optval \<longleftrightarrow> - (10 ^ 10) < optval \<and> optval < 10 ^ 11) \<and>
    (10 ^ 11 \<le> optval \<longrightarrow> dec_value v \<noteq> nat optval)"
proof -
  from checked_open [OF assms(1,2)] assms(3,4) have eq: "\<And>objv f. checked T i objv ob s f = f p H h s"
    by (metis option.inject)
  from get_option_value [OF assms(3,4,6,5,7,8)] option_text_exact [of optval] option_text_cut [of optval] show ?thesis
    by (intro exI [of _ "snprintf 12 (dec_int optval)"]) (simp add: Configure_def eq)
qed

lemma option_reported_witness:
  "\<exists>v. Configure sample_lib sample_tcl 0 [StrObj ''c'', IntObj 1, StrObj ''-aggsize''] (session sample_H) =
     Done (TCL_OK, set_result 0 (StrObj v) (put_world [] (session sample_H))) \<and> dec_value v \<noteq> 1099511627776"
proof -
  have "\<exists>v. Configure sample_lib sample_tcl 0 [StrObj ''c'', IntObj 1, StrObj ''-aggsize''] (session sample_H) =
      Done (TCL_OK, set_result 0 (StrObj v) (put_world [] (session sample_H))) \<and>
      (v = dec_int 1099511627776 \<longleftrightarrow> - (10 ^ 10) < (1099511627776 :: int) \<and> (1099511627776 :: int) < 10 ^ 11) \<and>
      (10 ^ 11 \<le> (1099511627776 :: int) \<longrightarrow> dec_value v \<noteq> nat 1099511627776)"
    by (rule option_reported [where p = 1 and H = sample_H and h = 7])
      (simp_all add: wf_session sample_H_wf session_open session_open_Suc sample_lib_def internal_option_def)
  then show ?thesis by auto
qed

section \<open>Text\<close>

text \<open>
  C30. A folded probe description can be taken apart again: as long as no part holds a colon and
  the whole has less than 128 characters, splitting the text at its colons gives the provider,
  the module, the function and the name.
\<close>

lemma folded_description_splits:
  assumes "foldpdesc H \<noteq> 0" and "colon_free pdesc" and "desc_length pdesc < 128"
  shows "\<exists>txt. formatProbeDesc H pdesc = StrObj txt \<and>
    split_at (CHR '':'') txt = [dtpd_provider pdesc, dtpd_mod pdesc, dtpd_func pdesc, dtpd_name pdesc]"
  using formatProbeDesc_fold [OF assms(1,3)] split_folded [OF assms(2)] by simp

lemma folded_description_splits_witness:
  "\<exists>txt. formatProbeDesc sample_H (sample_desc ''read'') = StrObj txt \<and>
    split_at (CHR '':'') txt = [''syscall'', ''kernel'', ''read'', ''entry'']"
  using folded_description_splits [of sample_H "sample_desc ''read''"]
  by (simp add: sample_desc_def colon_free_def desc_length_def)

text \<open>
  C31. \<^verbatim>\<open>cutWhiteSpace\<close> is total and correct exactly on the texts whose part within the
  first 128 characters after the leading spaces, stripped, is neither empty nor 128 characters
  long; there it gives that part. On an empty text or one of spaces it reads \<^verbatim>\<open>size\<close> before
  any assignment, and on a full buffer it writes one past the end.
\<close>

lemma cutWhiteSpace_exact:
  "cutWhiteSpace cs = (case length (rstrip (take TUPLE_STRLEN (dropWhile is_space cs))) of
     0 \<Rightarrow> Fault ''size is used uninitialised''
   | Suc n \<Rightarrow> if Suc n = TUPLE_STRLEN then Fault ''store past buf''
              else Done (StrObj (rstrip (take TUPLE_STRLEN (dropWhile is_space cs)))))"
  unfolding cutWhiteSpace_eq by (simp add: Let_def split: nat.split)

end
