(* ===== verification/Darwin_Arch.thy ===== *)
theory Darwin_Arch
  imports Prelude
begin

text \<open>
  \<^verbatim>\<open>darwin/arch.h\<close>, the names and byte orders of the processor types, and the two rounding
  macros of \<^verbatim>\<open>darwin/darwin_shim.h\<close>. The codes of the processor types come from a header of
  the operating system: they are the record \<open>cpu_types\<close>, a parameter.
\<close>

unbundle bit_operations_syntax

section \<open>Processor types\<close>

record cpu_types =
  CPU_TYPE_I386 :: int
  CPU_TYPE_X86_64 :: int
  CPU_TYPE_POWERPC :: int
  CPU_TYPE_POWERPC64 :: int

definition I386_STRING :: string where "I386_STRING = ''i386''"
definition X86_64_STRING :: string where "X86_64_STRING = ''x86_64''"
definition POWERPC_STRING :: string where "POWERPC_STRING = ''ppc''"
definition POWERPC64_STRING :: string where "POWERPC64_STRING = ''ppc64''"

definition string_for_arch :: "cpu_types \<Rightarrow> int \<Rightarrow> string option" where
  "string_for_arch M arch =
     (if arch = CPU_TYPE_I386 M then Some I386_STRING
      else if arch = CPU_TYPE_X86_64 M then Some X86_64_STRING
      else if arch = CPU_TYPE_POWERPC M then Some POWERPC_STRING
      else if arch = CPU_TYPE_POWERPC64 M then Some POWERPC64_STRING
      else None)"

definition arch_for_string :: "cpu_types \<Rightarrow> string \<Rightarrow> int" where
  "arch_for_string M str =
     (if str = I386_STRING then CPU_TYPE_I386 M
      else if str = X86_64_STRING then CPU_TYPE_X86_64 M
      else if str = POWERPC_STRING then CPU_TYPE_POWERPC M
      else if str = POWERPC64_STRING then CPU_TYPE_POWERPC64 M
      else 0)"

definition needs_swapping :: "cpu_types \<Rightarrow> int \<Rightarrow> int \<Rightarrow> int" where
  "needs_swapping M a b =
     (if a = CPU_TYPE_I386 M \<or> a = CPU_TYPE_X86_64 M then
        (if b = CPU_TYPE_POWERPC M \<or> b = CPU_TYPE_POWERPC64 M then 1 else 0)
      else if a = CPU_TYPE_POWERPC M \<or> a = CPU_TYPE_POWERPC64 M then
        (if b = CPU_TYPE_I386 M \<or> b = CPU_TYPE_X86_64 M then 1 else 0)
      else 0)"

text \<open>What the header of the system promises: the four codes differ, and none is zero.\<close>

definition distinct_types :: "cpu_types \<Rightarrow> bool" where
  "distinct_types M \<longleftrightarrow>
     distinct [0, CPU_TYPE_I386 M, CPU_TYPE_X86_64 M, CPU_TYPE_POWERPC M, CPU_TYPE_POWERPC64 M]"

definition arch_names :: "cpu_types \<Rightarrow> (int \<times> string) list" where
  "arch_names M = [(CPU_TYPE_I386 M, I386_STRING), (CPU_TYPE_X86_64 M, X86_64_STRING),
     (CPU_TYPE_POWERPC M, POWERPC_STRING), (CPU_TYPE_POWERPC64 M, POWERPC64_STRING)]"

text \<open>The reference: every known type has a byte order.\<close>

datatype byte_order = Little | Big

definition byte_order_of :: "cpu_types \<Rightarrow> int \<Rightarrow> byte_order option" where
  "byte_order_of M a =
     (if a \<in> {CPU_TYPE_I386 M, CPU_TYPE_X86_64 M} then Some Little
      else if a \<in> {CPU_TYPE_POWERPC M, CPU_TYPE_POWERPC64 M} then Some Big
      else None)"

lemma names_distinct: "distinct [I386_STRING, X86_64_STRING, POWERPC_STRING, POWERPC64_STRING]"
  by (simp add: I386_STRING_def X86_64_STRING_def POWERPC_STRING_def POWERPC64_STRING_def)

definition little :: "cpu_types \<Rightarrow> int \<Rightarrow> bool" where
  "little M a \<longleftrightarrow> a = CPU_TYPE_I386 M \<or> a = CPU_TYPE_X86_64 M"

definition big :: "cpu_types \<Rightarrow> int \<Rightarrow> bool" where
  "big M a \<longleftrightarrow> a = CPU_TYPE_POWERPC M \<or> a = CPU_TYPE_POWERPC64 M"

lemma not_both: "distinct_types M \<Longrightarrow> \<not> (little M a \<and> big M a)"
  by (auto simp: distinct_types_def little_def big_def)

lemma byte_order_cases: "byte_order_of M a = (if little M a then Some Little else if big M a then Some Big else None)"
  by (simp add: byte_order_of_def little_def big_def)

lemma needs_swapping_cases:
  "needs_swapping M a b = (if little M a then of_bool (big M b) else if big M a then of_bool (little M b) else 0)"
  by (simp add: needs_swapping_def little_def big_def)

section \<open>Rounding\<close>

text \<open>On unsigned operands of any width: all operators wrap.\<close>

definition S_ROUND :: "'a::len word \<Rightarrow> 'a word \<Rightarrow> 'a word" where
  "S_ROUND x a = (x + ((if a \<noteq> 0 then a else 1) - 1)) AND NOT ((if a \<noteq> 0 then a else 1) - 1)"

definition P2ROUNDUP :: "'a::len word \<Rightarrow> 'a word \<Rightarrow> 'a word" where
  "P2ROUNDUP x align = - (- x AND - align)"

lemma and_not_mask: "x AND NOT (mask n) = x - take_bit n (x :: 'a::len word)"
proof -
  have "x - take_bit n x = x AND NOT (take_bit n x)"
    by (rule disjunctive_diff_eq_and_not) (auto simp: bit_eq_iff bit_simps)
  also have "\<dots> = x AND NOT (mask n)"
    by (auto simp: bit_eq_iff bit_simps)
  finally show ?thesis ..
qed

lemma take_bit_add_exp_int: "m \<le> n \<Longrightarrow> take_bit m (k + 2 ^ n) = take_bit m (k :: int)"
  by (subst take_bit_add [symmetric]) simp

lemma take_bit_add_exp: "take_bit n (y + 2 ^ n) = take_bit n (y :: 'a::len word)"
  by transfer (simp add: take_bit_add_exp_int)

lemma take_bit_minus_word: "take_bit n (- x) = mask n - take_bit n (x + mask n :: 'a::len word)"
proof -
  have "take_bit n (x + mask n) = take_bit n (x - 1)"
    using take_bit_add_exp [of n "x - 1"] by (simp add: mask_eq_exp_minus_1 algebra_simps)
  moreover have "take_bit n (- x) = mask n - take_bit n (x - 1)"
    by (simp add: minus_eq_not_minus_1 take_bit_not_eq_mask_diff)
  ultimately show ?thesis by simp
qed

lemma S_ROUND_exp:
  assumes "k < LENGTH('a)"
  shows "S_ROUND x (2 ^ k) = (x + mask k :: 'a::len word) AND NOT (mask k)"
  using assms by (simp add: S_ROUND_def mask_eq_exp_minus_1)

text \<open>For a power of two within the width the two macros agree on every operand.\<close>

lemma round_agree:
  assumes "k < LENGTH('a)"
  shows "S_ROUND x (2 ^ k) = P2ROUNDUP x (2 ^ k :: 'a::len word)"
proof -
  have "S_ROUND x (2 ^ k) = x + (mask k - take_bit k (x + mask k))"
    using assms by (simp add: S_ROUND_exp and_not_mask)
  also have "\<dots> = P2ROUNDUP x (2 ^ k)"
    by (simp add: P2ROUNDUP_def minus_exp_eq_not_mask and_not_mask take_bit_minus_word)
  finally show ?thesis .
qed

lemma unat_and_not_mask: "unat (y AND NOT (mask k)) = unat (y :: 'a::len word) div 2 ^ k * 2 ^ k"
proof -
  have t: "unat (take_bit k y) = unat y mod 2 ^ k"
    by (simp add: unsigned_take_bit_eq flip: take_bit_eq_mod)
  then have "take_bit k y \<le> y"
    by (simp add: word_le_nat_alt)
  then have "unat (y - take_bit k y) = unat y - unat y mod 2 ^ k"
    by (simp add: unat_sub t)
  then show ?thesis
    by (simp add: and_not_mask minus_mod_eq_div_mult)
qed

text \<open>Where the sum does not wrap, the result is the least multiple that is not below \<open>x\<close>.\<close>

lemma round_up_value:
  assumes k: "k < LENGTH('a)" and fits: "unat x + (2 ^ k - 1) < 2 ^ LENGTH('a)"
  shows "unat (P2ROUNDUP x (2 ^ k :: 'a::len word)) = (unat x + (2 ^ k - 1)) div 2 ^ k * 2 ^ k"
proof -
  have "unat (mask k :: 'a word) = 2 ^ k - 1"
    using k uint_mask_eq [where 'a = 'a, of k]
    by (simp add: unat_eq_nat_uint mask_eq_exp_minus_1 nat_diff_distrib nat_power_eq)
  with fits have "unat (x + mask k) = unat x + (2 ^ k - 1)"
    by (simp add: unat_word_ariths)
  then show ?thesis
    using k by (simp add: round_agree [symmetric] S_ROUND_exp unat_and_not_mask)
qed

section \<open>Properties\<close>

text \<open>The codes of the system's header.\<close>

definition darwin_types :: cpu_types where
  "darwin_types = \<lparr>CPU_TYPE_I386 = 7, CPU_TYPE_X86_64 = 16777223, CPU_TYPE_POWERPC = 18, CPU_TYPE_POWERPC64 = 16777234\<rparr>"

lemma darwin_distinct: "distinct_types darwin_types"
  by (simp add: distinct_types_def darwin_types_def)

lemma names_iff:
  assumes "distinct_types M"
  shows "string_for_arch M a = Some n \<longleftrightarrow> arch_for_string M n = a \<and> a \<noteq> 0"
proof -
  have s: "string_for_arch M a = Some n \<longleftrightarrow> (a, n) \<in> set (arch_names M)"
    using assms by (auto simp: string_for_arch_def arch_names_def distinct_types_def)
  have "arch_for_string M n = a \<and> a \<noteq> 0 \<longleftrightarrow> (a, n) \<in> set (arch_names M)"
  proof (cases "n \<in> set [I386_STRING, X86_64_STRING, POWERPC_STRING, POWERPC64_STRING]")
    case True
    then have "n = I386_STRING \<or> n = X86_64_STRING \<or> n = POWERPC_STRING \<or> n = POWERPC64_STRING" by simp
    with assms names_distinct show ?thesis
      by (elim disjE) (auto simp: arch_for_string_def arch_names_def distinct_types_def)
  next
    case False
    then show ?thesis by (auto simp: arch_for_string_def arch_names_def)
  qed
  with s show ?thesis by simp
qed

lemma swapping_iff:
  assumes "distinct_types M"
  shows "needs_swapping M a b = (case (byte_order_of M a, byte_order_of M b) of
      (Some x, Some y) \<Rightarrow> if x = y then 0 else 1 | _ \<Rightarrow> 0)"
  using not_both [OF assms, of a] not_both [OF assms, of b] by (auto simp: needs_swapping_cases byte_order_cases)

text \<open>
  C35. Names and codes of processor types translate into each other: a type that has a name is
  found again under it, and a name that is found, that is one that does not give the code 0,
  is the name of its type. Data needs swapping exactly between two known types of different
  byte order; so \<^verbatim>\<open>needs_swapping\<close> is symmetric, and 0 for a type with itself.
\<close>

lemma arch_names_roundtrip:
  assumes "distinct_types M"
  shows "(string_for_arch M a = Some n \<longleftrightarrow> arch_for_string M n = a \<and> a \<noteq> 0) \<and>
    needs_swapping M a b = (case (byte_order_of M a, byte_order_of M b) of
      (Some x, Some y) \<Rightarrow> if x = y then 0 else 1 | _ \<Rightarrow> 0) \<and>
    needs_swapping M a b = needs_swapping M b a \<and> needs_swapping M a a = 0"
  using names_iff [OF assms, of a n] swapping_iff [OF assms] by (auto split: option.splits)

lemma arch_names_roundtrip_witness:
  "string_for_arch darwin_types 16777223 = Some ''x86_64'' \<and> needs_swapping darwin_types 16777223 18 = 1"
  using arch_names_roundtrip [OF darwin_distinct, of 16777223 "''x86_64''" 18]
  by (simp add: arch_for_string_def byte_order_of_def darwin_types_def I386_STRING_def X86_64_STRING_def)

text \<open>
  For an alignment that is a power of two the two rounding macros agree on every operand,
  and where the sum does not wrap they give the least multiple of the alignment that is not
  below the operand.
\<close>

lemma rounding_macros:
  assumes "k < LENGTH('a)" and "unat x + (2 ^ k - 1) < 2 ^ LENGTH('a)"
  shows "S_ROUND x (2 ^ k) = P2ROUNDUP x (2 ^ k :: 'a::len word) \<and>
    2 ^ k dvd unat (P2ROUNDUP x (2 ^ k)) \<and> unat x \<le> unat (P2ROUNDUP x (2 ^ k)) \<and>
    (\<forall>m. 2 ^ k dvd m \<longrightarrow> unat x \<le> m \<longrightarrow> unat (P2ROUNDUP x (2 ^ k)) \<le> m)"
proof -
  let ?a = "2 ^ k :: nat" and ?n = "unat x"
  have v: "unat (P2ROUNDUP x (2 ^ k)) = (?n + (?a - 1)) div ?a * ?a"
    by (rule round_up_value [OF assms])
  have r: "(?n + (?a - 1)) div ?a * ?a + (?n + (?a - 1)) mod ?a = ?n + (?a - 1)" "(?n + (?a - 1)) mod ?a < ?a" "0 < ?a"
    by (rule div_mult_mod_eq) simp_all
  have "S_ROUND x (2 ^ k) = P2ROUNDUP x (2 ^ k)" by (rule round_agree [OF assms(1)])
  moreover have "2 ^ k dvd unat (P2ROUNDUP x (2 ^ k))" by (simp add: v)
  moreover have "unat x \<le> unat (P2ROUNDUP x (2 ^ k))" using r v by linarith
  moreover have "\<forall>m. 2 ^ k dvd m \<longrightarrow> unat x \<le> m \<longrightarrow> unat (P2ROUNDUP x (2 ^ k)) \<le> m"
  proof (intro allI impI)
    fix m
    assume "2 ^ k dvd m" and "unat x \<le> m"
    then obtain q where m: "m = q * ?a" by (auto simp: dvd_def mult.commute)
    have "(q + 1) * ?a = q * ?a + ?a" by simp
    with \<open>unat x \<le> m\<close> m r(3) have "?n + (?a - 1) < (q + 1) * ?a" by linarith
    then have "(?n + (?a - 1)) div ?a < q + 1" using r(3) by (simp add: div_less_iff_less_mult)
    then show "unat (P2ROUNDUP x (2 ^ k)) \<le> m" by (simp add: v m)
  qed
  ultimately show ?thesis by blast
qed

end
