(* ===== verification/Darwin_Bitmap.thy ===== *)
theory Darwin_Bitmap
  imports Prelude
begin

text \<open>
  The bitmap macros of \<^verbatim>\<open>darwin/bitmap.h\<close>: a bitmap is a vector of \<^verbatim>\<open>ulong_t\<close>, the width
  of which is the width of the list's words. \<open>sh\<close> is \<^verbatim>\<open>BT_ULSHIFT\<close>, 6 where \<^verbatim>\<open>_LP64\<close> is
  defined and 5 elsewhere; the macros whose name ends in 32 have definitions of their own. A word outside the vector
  is undefined to access.
\<close>

unbundle bit_operations_syntax

section \<open>The macros\<close>

definition BT_NBIPUL :: "nat \<Rightarrow> nat" where
  "BT_NBIPUL sh = push_bit sh 1"

definition BT_ULMASK :: "nat \<Rightarrow> nat" where
  "BT_ULMASK sh = BT_NBIPUL sh - 1"

text \<open>\<^verbatim>\<open>1UL\<close> has 64 bits at most: the words are converted to that width and back.\<close>

definition BT_BIW :: "nat \<Rightarrow> nat \<Rightarrow> 64 word" where
  "BT_BIW sh bitindex = push_bit (bitindex AND BT_ULMASK sh) 1"

definition BT_WIM :: "nat \<Rightarrow> 'a::len word list \<Rightarrow> nat \<Rightarrow> ('a word \<Rightarrow> 'b exec) \<Rightarrow> 'b exec" where
  "BT_WIM sh bitmap bitindex f =
     (let n = drop_bit sh bitindex
      in if n < length bitmap then f (bitmap ! n) else Fault ''access past the bitmap'')"

definition BT_BITOUL :: "nat \<Rightarrow> nat \<Rightarrow> nat" where
  "BT_BITOUL sh nbits = (nbits + BT_NBIPUL sh - 1) div BT_NBIPUL sh"

definition BT_SIZEOFMAP :: "nat \<Rightarrow> 'a::len itself \<Rightarrow> nat \<Rightarrow> nat" where
  "BT_SIZEOFMAP sh ulong_t nbits = BT_BITOUL sh nbits * (LENGTH('a) div 8)"

definition BT_TEST :: "nat \<Rightarrow> 'a::len word list \<Rightarrow> nat \<Rightarrow> int exec" where
  "BT_TEST sh bitmap bitindex =
     BT_WIM sh bitmap bitindex (\<lambda>w. Done (if (ucast w AND BT_BIW sh bitindex) \<noteq> 0 then 1 else 0))"

definition BT_SET :: "nat \<Rightarrow> 'a::len word list \<Rightarrow> nat \<Rightarrow> 'a word list exec" where
  "BT_SET sh bitmap bitindex =
     BT_WIM sh bitmap bitindex (\<lambda>w.
       Done (bitmap[drop_bit sh bitindex := ucast (ucast w OR BT_BIW sh bitindex)]))"

definition BT_CLEAR :: "nat \<Rightarrow> 'a::len word list \<Rightarrow> nat \<Rightarrow> 'a word list exec" where
  "BT_CLEAR sh bitmap bitindex =
     BT_WIM sh bitmap bitindex (\<lambda>w.
       Done (bitmap[drop_bit sh bitindex := ucast (ucast w AND NOT (BT_BIW sh bitindex))]))"

text \<open>
  The macros for vectors of \<^verbatim>\<open>uint_t\<close>, which \<^verbatim>\<open>_LP64\<close> adds: words of 32 bits with their own
  shift, while the bit is still made from a 64 bit \<^verbatim>\<open>1UL\<close>.
\<close>

definition BT_ULSHIFT32 :: nat where
  "BT_ULSHIFT32 = 5"

definition BT_NBIPUL32 :: nat where
  "BT_NBIPUL32 = push_bit BT_ULSHIFT32 1"

definition BT_ULMASK32 :: nat where
  "BT_ULMASK32 = BT_NBIPUL32 - 1"

definition BT_WIM32 :: "32 word list \<Rightarrow> nat \<Rightarrow> (32 word \<Rightarrow> 'b exec) \<Rightarrow> 'b exec" where
  "BT_WIM32 bitmap bitindex f =
     (let n = drop_bit BT_ULSHIFT32 bitindex
      in if n < length bitmap then f (bitmap ! n) else Fault ''access past the bitmap'')"

definition BT_BIW32 :: "nat \<Rightarrow> 64 word" where
  "BT_BIW32 bitindex = push_bit (bitindex AND BT_ULMASK32) 1"

definition BT_BITOUL32 :: "nat \<Rightarrow> nat" where
  "BT_BITOUL32 nbits = (nbits + BT_NBIPUL32 - 1) div BT_NBIPUL32"

definition BT_SIZEOFMAP32 :: "nat \<Rightarrow> nat" where
  "BT_SIZEOFMAP32 nbits = BT_BITOUL32 nbits * 4"

definition BT_TEST32 :: "32 word list \<Rightarrow> nat \<Rightarrow> int exec" where
  "BT_TEST32 bitmap bitindex =
     BT_WIM32 bitmap bitindex (\<lambda>w. Done (if (ucast w AND BT_BIW32 bitindex) \<noteq> 0 then 1 else 0))"

definition BT_SET32 :: "32 word list \<Rightarrow> nat \<Rightarrow> 32 word list exec" where
  "BT_SET32 bitmap bitindex =
     BT_WIM32 bitmap bitindex (\<lambda>w.
       Done (bitmap[drop_bit BT_ULSHIFT32 bitindex := ucast (ucast w OR BT_BIW32 bitindex)]))"

definition BT_CLEAR32 :: "32 word list \<Rightarrow> nat \<Rightarrow> 32 word list exec" where
  "BT_CLEAR32 bitmap bitindex =
     BT_WIM32 bitmap bitindex (\<lambda>w.
       Done (bitmap[drop_bit BT_ULSHIFT32 bitindex := ucast (ucast w AND NOT (BT_BIW32 bitindex))]))"

text \<open>\<^verbatim>\<open>BITX\<close>: the bits of \<open>u\<close> from \<open>l\<close> up to \<open>h\<close>.\<close>

definition BITX :: "64 word \<Rightarrow> nat \<Rightarrow> nat \<Rightarrow> 64 word" where
  "BITX u h l = drop_bit l u AND (push_bit (h - l + 1) 1 - 1)"

section \<open>The contract: a set of bit indices\<close>

locale bit_vector =
  fixes capacity :: "'m \<Rightarrow> nat"
    and test :: "'m \<Rightarrow> nat \<Rightarrow> int exec"
    and insert_bit :: "'m \<Rightarrow> nat \<Rightarrow> 'm exec"
    and remove_bit :: "'m \<Rightarrow> nat \<Rightarrow> 'm exec"
  assumes test_bool: "i < capacity m \<Longrightarrow> test m i = Done 0 \<or> test m i = Done 1"
    and insert_spec: "i < capacity m \<Longrightarrow> ensures (insert_bit m i) (\<lambda>m'. capacity m' = capacity m \<and>
      (\<forall>j < capacity m. test m' j = (if j = i then Done 1 else test m j)))"
    and remove_spec: "i < capacity m \<Longrightarrow> ensures (remove_bit m i) (\<lambda>m'. capacity m' = capacity m \<and>
      (\<forall>j < capacity m. test m' j = (if j = i then Done 0 else test m j)))"
begin

definition members :: "'m \<Rightarrow> nat set" where
  "members m = {i. i < capacity m \<and> test m i = Done 1}"

lemma members_insert:
  "i < capacity m \<Longrightarrow> ensures (insert_bit m i) (\<lambda>m'. capacity m' = capacity m \<and> members m' = insert i (members m))"
  by (rule ensures_mono [OF insert_spec]) (auto simp: members_def)

lemma members_remove:
  "i < capacity m \<Longrightarrow> ensures (remove_bit m i) (\<lambda>m'. capacity m' = capacity m \<and> members m' = members m - {i})"
  by (rule ensures_mono [OF remove_spec]) (auto simp: members_def split: if_splits)

primrec insert_all :: "nat list \<Rightarrow> 'm \<Rightarrow> 'm exec" where
  "insert_all [] m = Done m"
| "insert_all (i # is) m = seq (insert_bit m i) (insert_all is)"

lemma members_insert_all:
  "set is \<subseteq> {..<capacity m} \<Longrightarrow>
    ensures (insert_all is m) (\<lambda>m'. capacity m' = capacity m \<and> members m' = set is \<union> members m)"
proof (induction "is" arbitrary: m)
  case Nil
  then show ?case by simp
next
  case (Cons i rest)
  then show ?case
    by (auto intro!: ensures_mono [OF members_insert] ensures_mono [OF Cons.IH])
qed

end

section \<open>The macros keep it where the words are as wide as the shift says\<close>

lemma BT_NBIPUL_exp [simp]: "BT_NBIPUL sh = 2 ^ sh"
  by (simp add: BT_NBIPUL_def)

lemma bit_index_mod: "bitindex AND BT_ULMASK sh = bitindex mod 2 ^ sh"
  unfolding take_bit_eq_mod [symmetric] take_bit_eq_mask by (simp add: BT_ULMASK_def mask_eq_exp_minus_1)

lemma bit_BT_BIW: "n < 64 \<Longrightarrow> bit (BT_BIW sh i) n \<longleftrightarrow> n = i mod 2 ^ sh"
  by (auto simp: BT_BIW_def bit_index_mod bit_simps)

text \<open>\<open>fits sh TYPE('a)\<close>: the shift belongs to words of that type.\<close>

definition fits :: "nat \<Rightarrow> 'a::len itself \<Rightarrow> bool" where
  "fits sh ulong_t \<longleftrightarrow> 2 ^ sh = LENGTH('a) \<and> LENGTH('a) \<le> 64"

definition bits_of :: "'a::len word list \<Rightarrow> nat" where
  "bits_of bitmap = length bitmap * LENGTH('a)"

definition bit_at :: "nat \<Rightarrow> 'a::len word list \<Rightarrow> nat \<Rightarrow> bool" where
  "bit_at sh bitmap i \<longleftrightarrow> bit (bitmap ! (i div 2 ^ sh)) (i mod 2 ^ sh)"

lemma in_range:
  assumes "fits sh TYPE('a::len)" and "i < bits_of (bitmap :: 'a word list)"
  shows "drop_bit sh i < length bitmap" "i mod 2 ^ sh < LENGTH('a)" "i mod 2 ^ sh < 64"
proof -
  from assms show "drop_bit sh i < length bitmap"
    by (simp add: drop_bit_eq_div fits_def bits_of_def less_mult_imp_div_less)
  have "i mod 2 ^ sh < 2 ^ sh" by simp
  with assms(1) show "i mod 2 ^ sh < LENGTH('a)" by (simp add: fits_def)
  with assms(1) show "i mod 2 ^ sh < 64" unfolding fits_def by linarith
qed

lemma and_BT_BIW:
  assumes "i mod 2 ^ sh < 64"
  shows "(w AND BT_BIW sh i) \<noteq> 0 \<longleftrightarrow> bit w (i mod 2 ^ sh)"
proof -
  have "(w AND BT_BIW sh i) \<noteq> 0 \<longleftrightarrow> (\<exists>n < 64. bit w n \<and> bit (BT_BIW sh i) n)"
    by (auto simp: bit_eq_iff bit_simps bit_imp_le_length)
  with assms show ?thesis by (auto simp: bit_BT_BIW)
qed

lemma BT_TEST_bit:
  assumes "fits sh TYPE('a::len)" and "i < bits_of (bitmap :: 'a word list)"
  shows "BT_TEST sh bitmap i = Done (if bit_at sh bitmap i then 1 else 0)"
  using in_range [OF assms] assms(1)
  by (auto simp: BT_TEST_def BT_WIM_def and_BT_BIW bit_at_def drop_bit_eq_div bit_ucast_iff)

lemma same_index: "i div 2 ^ sh = j div 2 ^ sh \<Longrightarrow> j mod 2 ^ sh = i mod 2 ^ sh \<Longrightarrow> j = (i :: nat)"
  by (metis div_mult_mod_eq)

lemma BT_SET_bit:
  assumes f: "fits sh TYPE('a::len)" and i: "i < bits_of (bitmap :: 'a word list)"
  shows "ensures (BT_SET sh bitmap i) (\<lambda>m. bits_of m = bits_of bitmap \<and>
    (\<forall>j < bits_of bitmap. bit_at sh m j \<longleftrightarrow> j = i \<or> bit_at sh bitmap j))"
  using in_range [OF f i] in_range [OF f, of _ bitmap] f
  by (auto dest: same_index simp: BT_SET_def BT_WIM_def Let_def bits_of_def bit_at_def drop_bit_eq_div nth_list_update bit_ucast_iff
      bit_or_iff bit_BT_BIW)

lemma BT_CLEAR_bit:
  assumes f: "fits sh TYPE('a::len)" and i: "i < bits_of (bitmap :: 'a word list)"
  shows "ensures (BT_CLEAR sh bitmap i) (\<lambda>m. bits_of m = bits_of bitmap \<and>
    (\<forall>j < bits_of bitmap. bit_at sh m j \<longleftrightarrow> j \<noteq> i \<and> bit_at sh bitmap j))"
  using in_range [OF f i] in_range [OF f, of _ bitmap] f
  by (auto dest: same_index simp: BT_CLEAR_def BT_WIM_def Let_def bits_of_def bit_at_def drop_bit_eq_div nth_list_update bit_ucast_iff
      bit_and_iff bit_not_iff bit_BT_BIW)

lemma bit_vector_laws:
  assumes f: "fits sh TYPE('a::len)" and i: "i < bits_of (m :: 'a word list)"
  shows "BT_TEST sh m i = Done 0 \<or> BT_TEST sh m i = Done 1"
    and "ensures (BT_SET sh m i) (\<lambda>m'. bits_of m' = bits_of m \<and>
      (\<forall>j < bits_of m. BT_TEST sh m' j = (if j = i then Done 1 else BT_TEST sh m j)))"
    and "ensures (BT_CLEAR sh m i) (\<lambda>m'. bits_of m' = bits_of m \<and>
      (\<forall>j < bits_of m. BT_TEST sh m' j = (if j = i then Done 0 else BT_TEST sh m j)))"
  using BT_TEST_bit [OF f] i
  by (auto intro!: ensures_mono [OF BT_SET_bit [OF f i]] ensures_mono [OF BT_CLEAR_bit [OF f i]])

text \<open>The two configurations of Solaris: words of 64 bits with shift 6, of 32 bits with shift 5.\<close>

lemma fits_LP64: "fits 6 TYPE(64)"
  by (simp add: fits_def)

lemma fits_ILP32: "fits 5 TYPE(32)"
  by (simp add: fits_def)

interpretation lp64: bit_vector bits_of "BT_TEST 6" "BT_SET 6" "BT_CLEAR 6 :: 64 word list \<Rightarrow> nat \<Rightarrow> 64 word list exec"
  by unfold_locales (fact bit_vector_laws [OF fits_LP64])+

interpretation ilp32: bit_vector bits_of "BT_TEST 5" "BT_SET 5" "BT_CLEAR 5 :: 32 word list \<Rightarrow> nat \<Rightarrow> 32 word list exec"
  by unfold_locales (fact bit_vector_laws [OF fits_ILP32])+

text \<open>The macros of \<^verbatim>\<open>_LP64\<close> for vectors of 32-bit words are those of the other configuration.\<close>

lemma macros32:
  "BT_TEST32 = BT_TEST 5" "BT_SET32 = BT_SET 5" "BT_CLEAR32 = BT_CLEAR 5" "BT_BITOUL32 = BT_BITOUL 5"
  by (intro ext; simp add: BT_TEST32_def BT_TEST_def BT_SET32_def BT_SET_def BT_CLEAR32_def BT_CLEAR_def
      BT_WIM32_def BT_WIM_def BT_BIW32_def BT_BIW_def BT_ULMASK32_def BT_ULMASK_def BT_NBIPUL32_def
      BT_BITOUL32_def BT_BITOUL_def BT_ULSHIFT32_def push_bit_eq_mult)+

interpretation uints: bit_vector bits_of BT_TEST32 BT_SET32 BT_CLEAR32
  unfolding macros32 by (rule ilp32.bit_vector_axioms)

section \<open>One bitmap in both views\<close>

text \<open>The words of 64 bits as a machine with the low half first shows them to the 32-bit macros.\<close>

primrec halves :: "64 word list \<Rightarrow> 32 word list" where
  "halves [] = []"
| "halves (w # ws) = ucast w # ucast (drop_bit 32 w) # halves ws"

lemma length_halves [simp]: "length (halves bm) = 2 * length bm"
  by (induction bm) simp_all

lemma bits_of_halves [simp]: "bits_of (halves bm) = bits_of bm"
  by (simp add: bits_of_def)

lemma halves_nth: "n < length bm \<Longrightarrow> halves bm ! (2 * n) = ucast (bm ! n) \<and> halves bm ! Suc (2 * n) = ucast (drop_bit 32 (bm ! n))"
  by (induction bm arbitrary: n) (auto simp: nth_Cons' numeral_2_eq_2 gr0_conv_Suc)

lemma split32: "i = 32 * k + m \<Longrightarrow> m < 32 \<Longrightarrow> i div 32 = k \<and> i mod 32 = (m :: nat)"
  by simp

lemma halves_bit_at:
  assumes "i < bits_of bm"
  shows "bit_at 5 (halves bm) i \<longleftrightarrow> bit_at 6 bm i"
proof -
  have n: "i div 64 < length bm" using assms by (simp add: bits_of_def less_mult_imp_div_less)
  consider "i mod 64 < 32" "i div 32 = 2 * (i div 64)" "i mod 32 = i mod 64"
    | "32 \<le> i mod 64" "i div 32 = Suc (2 * (i div 64))" "i mod 32 = i mod 64 - 32"
  proof -
    define q r where "q = i div 64" and "r = i mod 64"
    then have i: "i = 32 * (2 * q) + r" and r: "r < 64" by simp_all
    have "r < 32 \<Longrightarrow> i div 32 = 2 * q \<and> i mod 32 = r" by (rule split32 [OF i])
    moreover have "32 \<le> r \<Longrightarrow> i div 32 = Suc (2 * q) \<and> i mod 32 = r - 32"
      by (rule split32) (use i r in simp_all)
    ultimately show thesis using that unfolding q_def r_def by linarith
  qed
  then show ?thesis
  proof cases
    case 1
    then show ?thesis using halves_nth [OF n] by (simp add: bit_at_def bit_simps)
  next
    case 2
    moreover have "i mod 64 < 64" by simp
    then have "i mod 64 - 32 < 32" by linarith
    ultimately show ?thesis using halves_nth [OF n] by (simp add: bit_at_def bit_simps)
  qed
qed

lemma bits_ext:
  assumes "length xs = length ys" and "\<forall>j < bits_of xs. bit_at 5 xs j \<longleftrightarrow> bit_at 5 ys j"
  shows "xs = (ys :: 32 word list)"
proof (rule nth_equalityI [OF assms(1)], rule bit_word_eqI)
  fix i n assume i: "i < length xs" and n: "n < LENGTH(32)"
  then have "i * 32 + n < bits_of xs" by (simp add: bits_of_def)
  with assms(2) have "bit_at 5 xs (i * 32 + n) \<longleftrightarrow> bit_at 5 ys (i * 32 + n)" by blast
  with n show "bit (xs ! i) n \<longleftrightarrow> bit (ys ! i) n" by (simp add: bit_at_def)
qed

text \<open>So it does not matter which macros test and set a bit.\<close>

lemma halves_test: "i < bits_of bm \<Longrightarrow> BT_TEST32 (halves bm) i = BT_TEST 6 bm i"
  by (simp add: macros32 BT_TEST_bit [OF fits_ILP32] BT_TEST_bit [OF fits_LP64] halves_bit_at)

lemma halves_set:
  assumes "i < bits_of bm"
  shows "ensures (BT_SET 6 bm i) (\<lambda>bm'. BT_SET32 (halves bm) i = Done (halves bm'))"
proof -
  from BT_SET_bit [OF fits_LP64 assms] obtain bm' where bm': "BT_SET 6 bm i = Done bm'" "bits_of bm' = bits_of bm"
    "\<forall>j < bits_of bm. bit_at 6 bm' j \<longleftrightarrow> j = i \<or> bit_at 6 bm j" by (auto simp: ensures_iff)
  from BT_SET_bit [OF fits_ILP32, of i "halves bm"] assms obtain hs where hs: "BT_SET 5 (halves bm) i = Done hs"
    "bits_of hs = bits_of bm" "\<forall>j < bits_of bm. bit_at 5 hs j \<longleftrightarrow> j = i \<or> bit_at 5 (halves bm) j" by (auto simp: ensures_iff)
  have "hs = halves bm'"
  proof (rule bits_ext)
    show "length hs = length (halves bm')" using hs(2) bm'(2) by (simp add: bits_of_def)
    show "\<forall>j < bits_of hs. bit_at 5 hs j \<longleftrightarrow> bit_at 5 (halves bm') j"
      using hs(2,3) bm'(2,3) halves_bit_at [of _ bm] halves_bit_at [of _ bm'] by simp
  qed
  with bm'(1) hs(1) show ?thesis by (simp add: macros32)
qed

section \<open>Sizes and fields\<close>

text \<open>A vector of \<open>BT_BITOUL n\<close> words holds \<open>n\<close> bits, one word less does not.\<close>

lemma BT_BITOUL_enough:
  assumes "fits sh TYPE('a::len)" and "length (bitmap :: 'a word list) = BT_BITOUL sh n"
  shows "n \<le> bits_of bitmap" and "bits_of bitmap < n + 2 ^ sh"
proof -
  let ?w = "2 ^ sh :: nat"
  have eq: "bits_of bitmap = (n + ?w - 1) div ?w * ?w"
    using assms by (simp add: bits_of_def BT_BITOUL_def fits_def)
  have "(n + ?w - 1) div ?w * ?w + (n + ?w - 1) mod ?w = n + ?w - 1" and "(n + ?w - 1) mod ?w < ?w"
    by (rule div_mult_mod_eq) simp
  then show "n \<le> bits_of bitmap" "bits_of bitmap < n + 2 ^ sh"
    unfolding eq by linarith+
qed

lemma BITX_bit:
  assumes "l \<le> h" and "h < 64" and "h - l < 63"
  shows "bit (BITX u h l) n \<longleftrightarrow> n \<le> h - l \<and> bit u (l + n)"
proof -
  have "push_bit (h - l + 1) 1 - 1 = (mask (Suc (h - l)) :: 64 word)"
    by (simp add: mask_eq_exp_minus_1 push_bit_eq_mult)
  then show ?thesis
    using assms by (auto simp: BITX_def bit_simps less_Suc_eq_le dest: bit_imp_le_length)
qed

text \<open>
  The header of \<^verbatim>\<open>darwin_shim.h\<close> makes \<^verbatim>\<open>ulong_t\<close> 32 bits wide everywhere. With the shift
  of \<^verbatim>\<open>_LP64\<close> the upper half of every 64 indices then falls outside its word: setting such a bit
  changes nothing.
\<close>

lemma BT_SET_shim_lost:
  assumes "i div 64 < length (bitmap :: 32 word list)" and "32 \<le> i mod 64"
  shows "BT_SET 6 bitmap i = Done bitmap" and "BT_TEST 6 bitmap i = Done 0"
proof -
  have m: "i mod 2 ^ 6 < 64" by simp
  have "(ucast (ucast w OR BT_BIW 6 i) :: 32 word) = w" for w :: "32 word"
  proof (rule bit_word_eqI)
    fix n assume "n < LENGTH(32)"
    then show "bit (ucast (ucast w OR BT_BIW 6 i) :: 32 word) n = bit w n"
      using assms(2) by (simp add: bit_ucast_iff bit_or_iff bit_BT_BIW)
  qed
  then show "BT_SET 6 bitmap i = Done bitmap"
    using assms(1) by (simp add: BT_SET_def BT_WIM_def drop_bit_eq_div Let_def)
  have "\<not> bit (ucast (bitmap ! (i div 64)) :: 64 word) (i mod 2 ^ 6)"
    using assms(2) by (auto simp: bit_simps dest: bit_imp_le_length)
  then show "BT_TEST 6 bitmap i = Done 0"
    using assms(1) and_BT_BIW [OF m, of "ucast (bitmap ! (i div 64))"]
    by (simp add: BT_TEST_def BT_WIM_def drop_bit_eq_div Let_def)
qed

section \<open>What is set is what is found\<close>

lemma bitmap_holds:
  assumes "set is \<subseteq> {..<n}"
  shows "ensures (lp64.insert_all is (replicate (BT_BITOUL 6 n) 0))
    (\<lambda>bitmap. n \<le> bits_of bitmap \<and> (\<forall>i < n. BT_TEST 6 bitmap i = Done (if i \<in> set is then 1 else 0) \<and>
      BT_TEST32 (halves bitmap) i = Done (if i \<in> set is then 1 else 0)))"
proof -
  let ?m = "replicate (BT_BITOUL 6 n) 0 :: 64 word list"
  have n: "n \<le> bits_of ?m" by (rule BT_BITOUL_enough(1) [OF fits_LP64]) simp
  with assms have "set is \<subseteq> {..<bits_of ?m}" by auto
  then have ins: "ensures (lp64.insert_all is ?m) (\<lambda>bm. bits_of bm = bits_of ?m \<and> lp64.members bm = set is \<union> lp64.members ?m)"
    by (rule lp64.members_insert_all)
  have zero: "lp64.members ?m = {}"
    using in_range(1) [OF fits_LP64, of _ ?m]
    by (auto simp: lp64.members_def BT_TEST_bit [OF fits_LP64] bit_at_def drop_bit_eq_div)
  show ?thesis
  proof (rule ensures_mono [OF ins], intro conjI allI impI)
    fix bm
    assume "bits_of bm = bits_of ?m \<and> lp64.members bm = set is \<union> lp64.members ?m"
    with n show "n \<le> bits_of bm" by simp
  next
    fix bm i
    assume bm: "bits_of bm = bits_of ?m \<and> lp64.members bm = set is \<union> lp64.members ?m" and "i < n"
    with n have "i < bits_of bm" by simp
    moreover have "i \<in> lp64.members bm \<longleftrightarrow> i \<in> set is" using bm zero by simp
    ultimately show "BT_TEST 6 bm i = Done (if i \<in> set is then 1 else 0)" "BT_TEST32 (halves bm) i = Done (if i \<in> set is then 1 else 0)"
      using bit_vector_laws(1) [OF fits_LP64, of i bm] halves_test [of i bm] by (auto simp: lp64.members_def)
  qed
qed

text \<open>
  With the 32-bit \<^verbatim>\<open>ulong_t\<close> of \<^verbatim>\<open>darwin_shim.h\<close> and the shift that \<^verbatim>\<open>_LP64\<close> selects,
  the upper 32 of every 64 indices can never be set: \<^verbatim>\<open>BT_SET\<close> changes nothing and
  \<^verbatim>\<open>BT_TEST\<close> stays 0.
\<close>

lemma shim_width_loses_bits:
  assumes "i div 64 < length (bitmap :: 32 word list)" and "32 \<le> i mod 64"
  shows "seq (BT_SET 6 bitmap i) (\<lambda>bm. BT_TEST 6 bm i) = Done 0"
  using BT_SET_shim_lost [OF assms] by simp

end
