(* ===== verification/Darwin_Atomic.thy ===== *)
theory Darwin_Atomic
  imports Darwin_Bitmap
begin

unbundle bit_operations_syntax

text \<open>
  The atomic macros of \<^verbatim>\<open>darwin/bitmap.h\<close>. The operations they call are those of
  \<^verbatim>\<open>sys/atomic.h\<close>, a parameter: each acts on one word in one step, whatever other threads do.
  Bits that are claimed and released with the exclusive macros are locks.
\<close>

section \<open>The macros\<close>

record atomics =
  atomic_or_long :: "64 word \<Rightarrow> 64 word \<Rightarrow> 64 word"
  atomic_and_long :: "64 word \<Rightarrow> 64 word \<Rightarrow> 64 word"
  atomic_set_long_excl :: "64 word \<Rightarrow> nat \<Rightarrow> int \<times> 64 word"
  atomic_clear_long_excl :: "64 word \<Rightarrow> nat \<Rightarrow> int \<times> 64 word"

text \<open>What the manual of \<^verbatim>\<open>sys/atomic.h\<close> promises.\<close>

definition atomics_ok :: "atomics \<Rightarrow> bool" where
  "atomics_ok A \<longleftrightarrow> (\<forall>w v. atomic_or_long A w v = w OR v) \<and> (\<forall>w v. atomic_and_long A w v = w AND v) \<and>
     (\<forall>w n. n < 64 \<longrightarrow> atomic_set_long_excl A w n = (if bit w n then (- 1, w) else (0, set_bit n w))) \<and>
     (\<forall>w n. n < 64 \<longrightarrow> atomic_clear_long_excl A w n = (if bit w n then (0, unset_bit n w) else (- 1, w)))"

definition BT_ATOMIC_SET :: "atomics \<Rightarrow> nat \<Rightarrow> 64 word list \<Rightarrow> nat \<Rightarrow> 64 word list exec" where
  "BT_ATOMIC_SET A sh bitmap bitindex =
     BT_WIM sh bitmap bitindex (\<lambda>w.
       Done (bitmap[drop_bit sh bitindex := atomic_or_long A w (BT_BIW sh bitindex)]))"

definition BT_ATOMIC_CLEAR :: "atomics \<Rightarrow> nat \<Rightarrow> 64 word list \<Rightarrow> nat \<Rightarrow> 64 word list exec" where
  "BT_ATOMIC_CLEAR A sh bitmap bitindex =
     BT_WIM sh bitmap bitindex (\<lambda>w.
       Done (bitmap[drop_bit sh bitindex := atomic_and_long A w (NOT (BT_BIW sh bitindex))]))"

definition BT_ATOMIC_SET_EXCL :: "atomics \<Rightarrow> nat \<Rightarrow> 64 word list \<Rightarrow> nat \<Rightarrow> (int \<times> 64 word list) exec" where
  "BT_ATOMIC_SET_EXCL A sh bitmap bitindex =
     BT_WIM sh bitmap bitindex (\<lambda>w.
       case atomic_set_long_excl A w (bitindex mod BT_NBIPUL sh) of
         (result, v) \<Rightarrow> Done (result, bitmap[drop_bit sh bitindex := v]))"

definition BT_ATOMIC_CLEAR_EXCL :: "atomics \<Rightarrow> nat \<Rightarrow> 64 word list \<Rightarrow> nat \<Rightarrow> (int \<times> 64 word list) exec" where
  "BT_ATOMIC_CLEAR_EXCL A sh bitmap bitindex =
     BT_WIM sh bitmap bitindex (\<lambda>w.
       case atomic_clear_long_excl A w (bitindex mod BT_NBIPUL sh) of
         (result, v) \<Rightarrow> Done (result, bitmap[drop_bit sh bitindex := v]))"

section \<open>By one thread they are the plain macros\<close>

lemma atomic_plain:
  assumes "atomics_ok A"
  shows "BT_ATOMIC_SET A sh bitmap i = BT_SET sh bitmap i" and "BT_ATOMIC_CLEAR A sh bitmap i = BT_CLEAR sh bitmap i"
  using assms by (simp_all add: BT_ATOMIC_SET_def BT_SET_def BT_ATOMIC_CLEAR_def BT_CLEAR_def atomics_ok_def)

lemma index_lt: "i mod 64 < (64 :: nat)"
  by simp

lemma bit_at_update:
  "i div 64 < length bm \<Longrightarrow> bit_at 6 (bm[i div 64 := v]) j = (if j div 64 = i div 64 then bit v (j mod 64) else bit_at 6 bm j)"
  by (simp add: bit_at_def nth_list_update)

lemma word_of_index: "i < bits_of (bm :: 64 word list) \<Longrightarrow> i div 64 < length bm"
  by (simp add: bits_of_def less_mult_imp_div_less)

lemma excl_bits:
  fixes bm :: "64 word list"
  assumes "i div 64 < length bm"
  shows "bit_at 6 (bm[i div 64 := set_bit (i mod 64) (bm ! (i div 64))]) j \<longleftrightarrow> j = i \<or> bit_at 6 bm j"
    and "bit_at 6 (bm[i div 64 := unset_bit (i mod 64) (bm ! (i div 64))]) j \<longleftrightarrow> j \<noteq> i \<and> bit_at 6 bm j"
proof -
  let ?w = "bm ! (i div 64)"
  have set: "bit (set_bit m w) n \<longleftrightarrow> n = m \<or> bit w n" "bit (unset_bit m w) n \<longleftrightarrow> n \<noteq> m \<and> bit w n"
    if "n < 64" for w :: "64 word" and m n
    using that by (auto simp: bit_set_bit_iff bit_unset_bit_iff)
  note new = set [OF index_lt [of j], where m = "i mod 64" and w = ?w]
  show "bit_at 6 (bm[i div 64 := set_bit (i mod 64) ?w]) j \<longleftrightarrow> j = i \<or> bit_at 6 bm j"
    "bit_at 6 (bm[i div 64 := unset_bit (i mod 64) ?w]) j \<longleftrightarrow> j \<noteq> i \<and> bit_at 6 bm j"
  proof (atomize (full), cases "j div 64 = i div 64")
    case True
    then have "j = i \<longleftrightarrow> j mod 64 = i mod 64" by (metis div_mult_mod_eq)
    moreover have "bit_at 6 bm j = bit ?w (j mod 64)" using True by (simp add: bit_at_def)
    ultimately show "(bit_at 6 (bm[i div 64 := set_bit (i mod 64) ?w]) j \<longleftrightarrow> j = i \<or> bit_at 6 bm j) \<and>
        (bit_at 6 (bm[i div 64 := unset_bit (i mod 64) ?w]) j \<longleftrightarrow> j \<noteq> i \<and> bit_at 6 bm j)"
      unfolding bit_at_update [OF assms] new using True by argo
  next
    case False
    then have "j \<noteq> i" by blast
    with False show "(bit_at 6 (bm[i div 64 := set_bit (i mod 64) ?w]) j \<longleftrightarrow> j = i \<or> bit_at 6 bm j) \<and>
        (bit_at 6 (bm[i div 64 := unset_bit (i mod 64) ?w]) j \<longleftrightarrow> j \<noteq> i \<and> bit_at 6 bm j)"
      unfolding bit_at_update [OF assms] by argo
  qed
qed

lemma set_excl_bit:
  assumes A: "atomics_ok A" and i: "i < bits_of bm"
  shows "ensures (BT_ATOMIC_SET_EXCL A 6 bm i) (\<lambda>(result, m). bits_of m = bits_of bm \<and>
    result = (if bit_at 6 bm i then - 1 else 0) \<and> (\<forall>j < bits_of bm. bit_at 6 m j \<longleftrightarrow> j = i \<or> bit_at 6 bm j))"
proof -
  have "atomic_set_long_excl A (bm ! (i div 64)) (i mod 64) =
      (if bit_at 6 bm i then (- 1, bm ! (i div 64)) else (0, set_bit (i mod 64) (bm ! (i div 64))))"
    using A index_lt [of i] by (simp add: atomics_ok_def bit_at_def)
  then show ?thesis
    using word_of_index [OF i] excl_bits(1) [OF word_of_index [OF i]]
    by (simp add: BT_ATOMIC_SET_EXCL_def BT_WIM_def Let_def drop_bit_eq_div bits_of_def) auto
qed

lemma clear_excl_bit:
  assumes A: "atomics_ok A" and i: "i < bits_of bm"
  shows "ensures (BT_ATOMIC_CLEAR_EXCL A 6 bm i) (\<lambda>(result, m). bits_of m = bits_of bm \<and>
    result = (if bit_at 6 bm i then 0 else - 1) \<and> (\<forall>j < bits_of bm. bit_at 6 m j \<longleftrightarrow> j \<noteq> i \<and> bit_at 6 bm j))"
proof -
  have "atomic_clear_long_excl A (bm ! (i div 64)) (i mod 64) =
      (if bit_at 6 bm i then (0, unset_bit (i mod 64) (bm ! (i div 64))) else (- 1, bm ! (i div 64)))"
    using A index_lt [of i] by (simp add: atomics_ok_def bit_at_def)
  then show ?thesis
    using word_of_index [OF i] excl_bits(2) [OF word_of_index [OF i]]
    by (simp add: BT_ATOMIC_CLEAR_EXCL_def BT_WIM_def Let_def drop_bit_eq_div bits_of_def) auto
qed

section \<open>Locks\<close>

text \<open>A schedule says which thread acts next on which bit; the log adds the results.\<close>

datatype lock_action = Claim nat | Release nat

primrec perform :: "atomics \<Rightarrow> lock_action \<Rightarrow> 64 word list \<Rightarrow> (int \<times> 64 word list) exec" where
  "perform A (Claim i) bitmap = BT_ATOMIC_SET_EXCL A 6 bitmap i"
| "perform A (Release i) bitmap = BT_ATOMIC_CLEAR_EXCL A 6 bitmap i"

primrec target :: "lock_action \<Rightarrow> nat" where
  "target (Claim i) = i"
| "target (Release i) = i"

fun run_actions :: "atomics \<Rightarrow> (nat \<times> lock_action) list \<Rightarrow> 64 word list \<Rightarrow> (((nat \<times> lock_action) \<times> int) list \<times> 64 word list) exec" where
  "run_actions A [] bitmap = Done ([], bitmap)"
| "run_actions A ((thread, a) # rest) bitmap =
     seq (perform A a bitmap) (\<lambda>(result, m).
       seq (run_actions A rest m) (\<lambda>(log, m'). Done (((thread, a), result) # log, m')))"

definition won :: "((nat \<times> lock_action) \<times> int) list \<Rightarrow> lock_action \<Rightarrow> int" where
  "won log a = int (length (filter (\<lambda>((thread, b), result). b = a \<and> result = 0) log))"

lemma perform_step:
  assumes "atomics_ok A" and "target a < bits_of bm"
  shows "ensures (perform A a bm) (\<lambda>(r, m). bits_of m = bits_of bm \<and>
    (\<forall>i < bits_of bm. of_bool (a = Claim i \<and> r = 0) - of_bool (a = Release i \<and> r = 0) =
      (of_bool (bit_at 6 m i) - of_bool (bit_at 6 bm i) :: int)))"
  using assms(2) by (cases a) (auto intro!: ensures_mono [OF set_excl_bit [OF assms(1)]] ensures_mono [OF clear_excl_bit [OF assms(1)]])

text \<open>
  Whatever the schedule, each bit has been won as often as it has been given back, plus one if it
  is set now and was not: between two wins of a bit somebody has released it, and nobody releases
  a bit that is not held.
\<close>

lemma bits_are_locks:
  assumes A: "atomics_ok A" and "\<forall>(thread, a) \<in> set sched. target a < bits_of bm"
  shows "ensures (run_actions A sched bm) (\<lambda>(log, m). map fst log = sched \<and> bits_of m = bits_of bm \<and>
    (\<forall>i < bits_of bm. won log (Claim i) - won log (Release i) = of_bool (bit_at 6 m i) - of_bool (bit_at 6 bm i)))"
  using assms(2)
proof (induction sched arbitrary: bm)
  case Nil
  then show ?case by (simp add: won_def)
next
  case (Cons ta rest)
  obtain thread a where ta: "ta = (thread, a)" by force
  with Cons.prems have a: "target a < bits_of bm" by simp
  from perform_step [OF A a] obtain r m where r: "perform A a bm = Done (r, m)" and m: "bits_of m = bits_of bm"
    "\<forall>i < bits_of bm. of_bool (a = Claim i \<and> r = 0) - of_bool (a = Release i \<and> r = 0) =
      (of_bool (bit_at 6 m i) - of_bool (bit_at 6 bm i) :: int)" by (auto simp: ensures_iff)
  from Cons.prems m(1) have "\<forall>(thread, a) \<in> set rest. target a < bits_of m" by auto
  from Cons.IH [OF this] obtain log m' where rest: "run_actions A rest m = Done (log, m')" "map fst log = rest"
    "bits_of m' = bits_of m" "\<forall>i < bits_of m. won log (Claim i) - won log (Release i) = of_bool (bit_at 6 m' i) - of_bool (bit_at 6 m i)"
    by (auto simp: ensures_iff)
  have "won (((thread, a), r) # log) b = of_bool (a = b \<and> r = 0) + won log b" for b by (simp add: won_def)
  with r rest m show ?case by (fastforce simp: ta)
qed

section \<open>Properties\<close>

text \<open>
  C36. A bitmap of 64-bit words is a set of indices: a map of \<^verbatim>\<open>BT_BITOUL(n)\<close> zero words
  holds every index below \<open>n\<close>, and after any sequence of \<^verbatim>\<open>BT_SET\<close> calls within it
  \<^verbatim>\<open>BT_TEST\<close> is 1 exactly for the indices that were set. So is \<^verbatim>\<open>BT_TEST32\<close> on the same
  memory, where the low half of a word comes first. From then on threads may use its bits as locks:
  under any schedule of \<^verbatim>\<open>BT_ATOMIC_SET_EXCL\<close> and \<^verbatim>\<open>BT_ATOMIC_CLEAR_EXCL\<close> each bit is won
  as often as it is given back, plus one if it ends up taken and was not taken before.
\<close>

lemma bitmap_is_set:
  assumes "set is \<subseteq> {..<n}" and "atomics_ok A" and "\<forall>(thread, a) \<in> set sched. target a < n"
  shows "ensures (lp64.insert_all is (replicate (BT_BITOUL 6 n) 0))
    (\<lambda>bitmap. (\<forall>i < n. BT_TEST 6 bitmap i = Done (if i \<in> set is then 1 else 0) \<and>
        BT_TEST32 (halves bitmap) i = Done (if i \<in> set is then 1 else 0)) \<and>
      ensures (run_actions A sched bitmap) (\<lambda>(log, m). map fst log = sched \<and>
        (\<forall>i < n. won log (Claim i) - won log (Release i) = of_bool (BT_TEST 6 m i = Done 1) - of_bool (i \<in> set is))))"
proof (rule ensures_mono [OF bitmap_holds [OF assms(1)]], intro conjI)
  fix bm :: "64 word list"
  assume bm: "n \<le> bits_of bm \<and> (\<forall>i < n. BT_TEST 6 bm i = Done (if i \<in> set is then 1 else 0) \<and>
    BT_TEST32 (halves bm) i = Done (if i \<in> set is then 1 else 0))"
  then show "\<forall>i < n. BT_TEST 6 bm i = Done (if i \<in> set is then 1 else 0) \<and>
    BT_TEST32 (halves bm) i = Done (if i \<in> set is then 1 else 0)" ..
  have test: "bit_at 6 m i \<longleftrightarrow> BT_TEST 6 m i = Done 1" if "bits_of m = bits_of bm" "i < n" for m :: "64 word list" and i
    using BT_TEST_bit [OF fits_LP64, of i m] that bm by simp
  from assms(3) bm have "\<forall>(thread, a) \<in> set sched. target a < bits_of bm" by fastforce
  from bits_are_locks [OF assms(2) this]
  show "ensures (run_actions A sched bm) (\<lambda>(log, m). map fst log = sched \<and>
      (\<forall>i < n. won log (Claim i) - won log (Release i) = of_bool (BT_TEST 6 m i = Done 1) - of_bool (i \<in> set is)))"
  proof (rule ensures_mono, clarify)
    fix log and m :: "64 word list"
    assume w: "bits_of m = bits_of bm" "\<forall>i < bits_of bm. won log (Claim i) - won log (Release i) =
      of_bool (bit_at 6 m i) - of_bool (bit_at 6 bm i)"
    have "won log (Claim i) - won log (Release i) = of_bool (BT_TEST 6 m i = Done 1) - of_bool (i \<in> set is)" if "i < n" for i
    proof -
      have "bit_at 6 bm i \<longleftrightarrow> i \<in> set is" using test [OF refl that] bm that by simp
      moreover have "i < bits_of bm" using bm that by simp
      ultimately show ?thesis using w(2) test [OF w(1) that] by simp
    qed
    then show "map fst log = map fst log \<and> (\<forall>i < n. won log (Claim i) - won log (Release i) =
      of_bool (BT_TEST 6 m i = Done 1) - of_bool (i \<in> set is))" by simp
  qed
qed

text \<open>Atomic operations as they are on one processor.\<close>

definition sample_atomics :: atomics where
  "sample_atomics = \<lparr>atomic_or_long = (OR), atomic_and_long = (AND),
     atomic_set_long_excl = (\<lambda>w n. if bit w n then (- 1, w) else (0, set_bit n w)),
     atomic_clear_long_excl = (\<lambda>w n. if bit w n then (0, unset_bit n w) else (- 1, w))\<rparr>"

lemma bitmap_is_set_witness:
  "ensures (lp64.insert_all [3, 70] (replicate (BT_BITOUL 6 100) 0))
    (\<lambda>bitmap. BT_TEST 6 bitmap 70 = Done 1 \<and> BT_TEST 6 bitmap 71 = Done 0 \<and> BT_TEST32 (halves bitmap) 70 = Done 1 \<and>
      ensures (run_actions sample_atomics [(1, Claim 5), (2, Claim 5), (1, Release 5), (2, Claim 70)] bitmap)
        (\<lambda>(log, m). won log (Claim 70) - won log (Release 70) = of_bool (BT_TEST 6 m 70 = Done 1) - 1))"
proof -
  have "atomics_ok sample_atomics" by (simp add: atomics_ok_def sample_atomics_def)
  from bitmap_is_set [of "[3, 70]" 100, OF _ this, of "[(1, Claim 5), (2, Claim 5), (1, Release 5), (2, Claim 70)]"]
  show ?thesis by (rule ensures_mono) (auto elim!: ensures_mono dest: spec [of _ 70] simp del: One_nat_def)
qed

end
