(* ===== verification/Darwin_Layout.thy ===== *)
theory Darwin_Layout
  imports Prelude
begin

text \<open>
  The binary layout of the ELF structures: the types of \<^verbatim>\<open>darwin/elftypes.h\<close>, which depend
  on the data model of the compiler, the structures of \<^verbatim>\<open>darwin/elf.h\<close> and
  \<^verbatim>\<open>darwin/link.h\<close> field by field, and the rule by which a C compiler places the fields.
\<close>

section \<open>Types\<close>

datatype ctype = UChar | UShort | SInt | UInt | SLong | ULong | SLongLong | ULongLong

text \<open>
  What differs between the compilers: the width of \<^verbatim>\<open>long\<close>, the alignment of a
  \<^verbatim>\<open>long long\<close> in a structure, and the macros the header tests.
\<close>

record abi =
  long_size :: nat
  longlong_align :: nat
  def_LP64 :: bool
  def_I32LPx :: bool
  def_LONGLONG_TYPE :: bool

primrec csize :: "abi \<Rightarrow> ctype \<Rightarrow> nat" where
  "csize A UChar = 1"
| "csize A UShort = 2"
| "csize A SInt = 4"
| "csize A UInt = 4"
| "csize A SLong = long_size A"
| "csize A ULong = long_size A"
| "csize A SLongLong = 8"
| "csize A ULongLong = 8"

definition calign :: "abi \<Rightarrow> ctype \<Rightarrow> nat" where
  "calign A c = (if c \<in> {SLongLong, ULongLong} then longlong_align A else csize A c)"

datatype elf_type =
  Elf32_Addr | Elf32_Half | Elf32_Off | Elf32_Sword | Elf32_Word | Elf32_Lword
| Elf64_Addr | Elf64_Half | Elf64_Off | Elf64_Sword | Elf64_Sxword | Elf64_Word | Elf64_Xword | Elf64_Lword

definition elf32_typedef :: "abi \<Rightarrow> ctype \<Rightarrow> ctype \<Rightarrow> ctype option" where
  "elf32_typedef A narrow wide = Some (if def_LP64 A \<or> def_I32LPx A then narrow else wide)"

definition elf64_typedef :: "abi \<Rightarrow> ctype \<Rightarrow> ctype \<Rightarrow> ctype option" where
  "elf64_typedef A long longlong =
     (if def_LP64 A then Some long else if def_LONGLONG_TYPE A then Some longlong else None)"

text \<open>The typedefs, \<open>None\<close> where the header defines no such type.\<close>

primrec typedef_of :: "abi \<Rightarrow> elf_type \<Rightarrow> ctype option" where
  "typedef_of A Elf32_Addr = elf32_typedef A UInt ULong"
| "typedef_of A Elf32_Half = elf32_typedef A UShort UShort"
| "typedef_of A Elf32_Off = elf32_typedef A UInt ULong"
| "typedef_of A Elf32_Sword = elf32_typedef A SInt SLong"
| "typedef_of A Elf32_Word = elf32_typedef A UInt ULong"
| "typedef_of A Elf64_Addr = elf64_typedef A ULong ULongLong"
| "typedef_of A Elf64_Half = elf64_typedef A UShort UShort"
| "typedef_of A Elf64_Off = elf64_typedef A ULong ULongLong"
| "typedef_of A Elf64_Sword = elf64_typedef A SInt SInt"
| "typedef_of A Elf64_Sxword = elf64_typedef A SLong SLongLong"
| "typedef_of A Elf64_Word = elf64_typedef A UInt UInt"
| "typedef_of A Elf64_Xword = elf64_typedef A ULong ULongLong"
| "typedef_of A Elf64_Lword = elf64_typedef A ULong ULongLong"
| "typedef_of A Elf32_Lword = elf64_typedef A ULong ULongLong"

text \<open>The sizes the file format fixes; there is no constant for the two types of move entries.\<close>

primrec FSZ :: "elf_type \<Rightarrow> nat option" where
  "FSZ Elf32_Addr = Some 4"
| "FSZ Elf32_Half = Some 2"
| "FSZ Elf32_Off = Some 4"
| "FSZ Elf32_Sword = Some 4"
| "FSZ Elf32_Word = Some 4"
| "FSZ Elf64_Addr = Some 8"
| "FSZ Elf64_Half = Some 2"
| "FSZ Elf64_Off = Some 8"
| "FSZ Elf64_Sword = Some 4"
| "FSZ Elf64_Word = Some 4"
| "FSZ Elf64_Sxword = Some 8"
| "FSZ Elf64_Xword = Some 8"
| "FSZ Elf32_Lword = None"
| "FSZ Elf64_Lword = None"

section \<open>Structures\<close>

text \<open>
  A field has one of these types, or it is an array of bytes (\<^verbatim>\<open>unsigned char\<close> is an array
  of one), or a union of some of these types.
\<close>

datatype cfield = Typed elf_type | Bytes nat | OneOf "elf_type list"

definition Elf32_Ehdr :: "(string \<times> cfield) list" where
  "Elf32_Ehdr = [(''e_ident'', Bytes 16), (''e_type'', Typed Elf32_Half), (''e_machine'', Typed Elf32_Half),
     (''e_version'', Typed Elf32_Word), (''e_entry'', Typed Elf32_Addr), (''e_phoff'', Typed Elf32_Off), (''e_shoff'', Typed Elf32_Off),
     (''e_flags'', Typed Elf32_Word), (''e_ehsize'', Typed Elf32_Half), (''e_phentsize'', Typed Elf32_Half), (''e_phnum'', Typed Elf32_Half),
     (''e_shentsize'', Typed Elf32_Half), (''e_shnum'', Typed Elf32_Half), (''e_shstrndx'', Typed Elf32_Half)]"

definition Elf64_Ehdr :: "(string \<times> cfield) list" where
  "Elf64_Ehdr = [(''e_ident'', Bytes 16), (''e_type'', Typed Elf64_Half), (''e_machine'', Typed Elf64_Half),
     (''e_version'', Typed Elf64_Word), (''e_entry'', Typed Elf64_Addr), (''e_phoff'', Typed Elf64_Off), (''e_shoff'', Typed Elf64_Off),
     (''e_flags'', Typed Elf64_Word), (''e_ehsize'', Typed Elf64_Half), (''e_phentsize'', Typed Elf64_Half), (''e_phnum'', Typed Elf64_Half),
     (''e_shentsize'', Typed Elf64_Half), (''e_shnum'', Typed Elf64_Half), (''e_shstrndx'', Typed Elf64_Half)]"

definition Elf32_Phdr :: "(string \<times> cfield) list" where
  "Elf32_Phdr = [(''p_type'', Typed Elf32_Word), (''p_offset'', Typed Elf32_Off), (''p_vaddr'', Typed Elf32_Addr),
     (''p_paddr'', Typed Elf32_Addr), (''p_filesz'', Typed Elf32_Word), (''p_memsz'', Typed Elf32_Word), (''p_flags'', Typed Elf32_Word),
     (''p_align'', Typed Elf32_Word)]"

definition Elf64_Phdr :: "(string \<times> cfield) list" where
  "Elf64_Phdr = [(''p_type'', Typed Elf64_Word), (''p_flags'', Typed Elf64_Word), (''p_offset'', Typed Elf64_Off),
     (''p_vaddr'', Typed Elf64_Addr), (''p_paddr'', Typed Elf64_Addr), (''p_filesz'', Typed Elf64_Xword), (''p_memsz'', Typed Elf64_Xword),
     (''p_align'', Typed Elf64_Xword)]"

definition Elf32_Shdr :: "(string \<times> cfield) list" where
  "Elf32_Shdr = [(''sh_name'', Typed Elf32_Word), (''sh_type'', Typed Elf32_Word), (''sh_flags'', Typed Elf32_Word),
     (''sh_addr'', Typed Elf32_Addr), (''sh_offset'', Typed Elf32_Off), (''sh_size'', Typed Elf32_Word), (''sh_link'', Typed Elf32_Word),
     (''sh_info'', Typed Elf32_Word), (''sh_addralign'', Typed Elf32_Word), (''sh_entsize'', Typed Elf32_Word)]"

definition Elf64_Shdr :: "(string \<times> cfield) list" where
  "Elf64_Shdr = [(''sh_name'', Typed Elf64_Word), (''sh_type'', Typed Elf64_Word), (''sh_flags'', Typed Elf64_Xword),
     (''sh_addr'', Typed Elf64_Addr), (''sh_offset'', Typed Elf64_Off), (''sh_size'', Typed Elf64_Xword), (''sh_link'', Typed Elf64_Word),
     (''sh_info'', Typed Elf64_Word), (''sh_addralign'', Typed Elf64_Xword), (''sh_entsize'', Typed Elf64_Xword)]"

definition Elf32_Sym :: "(string \<times> cfield) list" where
  "Elf32_Sym = [(''st_name'', Typed Elf32_Word), (''st_value'', Typed Elf32_Addr), (''st_size'', Typed Elf32_Word),
     (''st_info'', Bytes 1), (''st_other'', Bytes 1), (''st_shndx'', Typed Elf32_Half)]"

definition Elf64_Sym :: "(string \<times> cfield) list" where
  "Elf64_Sym = [(''st_name'', Typed Elf64_Word), (''st_info'', Bytes 1), (''st_other'', Bytes 1),
     (''st_shndx'', Typed Elf64_Half), (''st_value'', Typed Elf64_Addr), (''st_size'', Typed Elf64_Xword)]"

definition Elf32_Rel :: "(string \<times> cfield) list" where
  "Elf32_Rel = [(''r_offset'', Typed Elf32_Addr), (''r_info'', Typed Elf32_Word)]"

definition Elf32_Rela :: "(string \<times> cfield) list" where
  "Elf32_Rela = [(''r_offset'', Typed Elf32_Addr), (''r_info'', Typed Elf32_Word), (''r_addend'', Typed Elf32_Sword)]"

definition Elf64_Rel :: "(string \<times> cfield) list" where
  "Elf64_Rel = [(''r_offset'', Typed Elf64_Addr), (''r_info'', Typed Elf64_Xword)]"

definition Elf64_Rela :: "(string \<times> cfield) list" where
  "Elf64_Rela = [(''r_offset'', Typed Elf64_Addr), (''r_info'', Typed Elf64_Xword), (''r_addend'', Typed Elf64_Sxword)]"

definition Elf32_Nhdr :: "(string \<times> cfield) list" where
  "Elf32_Nhdr = [(''n_namesz'', Typed Elf32_Word), (''n_descsz'', Typed Elf32_Word), (''n_type'', Typed Elf32_Word)]"

definition Elf64_Nhdr :: "(string \<times> cfield) list" where
  "Elf64_Nhdr = [(''n_namesz'', Typed Elf64_Word), (''n_descsz'', Typed Elf64_Word), (''n_type'', Typed Elf64_Word)]"

definition Elf32_Move :: "(string \<times> cfield) list" where
  "Elf32_Move = [(''m_value'', Typed Elf32_Lword), (''m_info'', Typed Elf32_Word), (''m_poffset'', Typed Elf32_Word),
     (''m_repeat'', Typed Elf32_Half), (''m_stride'', Typed Elf32_Half)]"

definition Elf64_Move :: "(string \<times> cfield) list" where
  "Elf64_Move = [(''m_value'', Typed Elf64_Lword), (''m_info'', Typed Elf64_Xword), (''m_poffset'', Typed Elf64_Xword),
     (''m_repeat'', Typed Elf64_Half), (''m_stride'', Typed Elf64_Half)]"

definition Elf32_Cap :: "(string \<times> cfield) list" where
  "Elf32_Cap = [(''c_tag'', Typed Elf32_Word), (''c_un'', OneOf [Elf32_Word, Elf32_Addr])]"

definition Elf64_Cap :: "(string \<times> cfield) list" where
  "Elf64_Cap = [(''c_tag'', Typed Elf64_Xword), (''c_un'', OneOf [Elf64_Xword, Elf64_Addr])]"

text \<open>The structures of the runtime linker.\<close>

definition Elf32_Dyn :: "(string \<times> cfield) list" where
  "Elf32_Dyn = [(''d_tag'', Typed Elf32_Sword), (''d_un'', OneOf [Elf32_Word, Elf32_Addr, Elf32_Off])]"

definition Elf64_Dyn :: "(string \<times> cfield) list" where
  "Elf64_Dyn = [(''d_tag'', Typed Elf64_Xword), (''d_un'', OneOf [Elf64_Xword, Elf64_Addr])]"

definition Elf32_Verdef :: "(string \<times> cfield) list" where
  "Elf32_Verdef = [(''vd_version'', Typed Elf32_Half), (''vd_flags'', Typed Elf32_Half), (''vd_ndx'', Typed Elf32_Half),
     (''vd_cnt'', Typed Elf32_Half), (''vd_hash'', Typed Elf32_Word), (''vd_aux'', Typed Elf32_Word), (''vd_next'', Typed Elf32_Word)]"

definition Elf32_Verdaux :: "(string \<times> cfield) list" where
  "Elf32_Verdaux = [(''vda_name'', Typed Elf32_Word), (''vda_next'', Typed Elf32_Word)]"

definition Elf32_Verneed :: "(string \<times> cfield) list" where
  "Elf32_Verneed = [(''vn_version'', Typed Elf32_Half), (''vn_cnt'', Typed Elf32_Half), (''vn_file'', Typed Elf32_Word),
     (''vn_aux'', Typed Elf32_Word), (''vn_next'', Typed Elf32_Word)]"

definition Elf32_Vernaux :: "(string \<times> cfield) list" where
  "Elf32_Vernaux = [(''vna_hash'', Typed Elf32_Word), (''vna_flags'', Typed Elf32_Half), (''vna_other'', Typed Elf32_Half),
     (''vna_name'', Typed Elf32_Word), (''vna_next'', Typed Elf32_Word)]"

definition Elf32_Versym :: elf_type where
  "Elf32_Versym = Elf32_Half"

definition Elf32_Syminfo :: "(string \<times> cfield) list" where
  "Elf32_Syminfo = [(''si_boundto'', Typed Elf32_Half), (''si_flags'', Typed Elf32_Half)]"

definition Elf64_Verdef :: "(string \<times> cfield) list" where
  "Elf64_Verdef = [(''vd_version'', Typed Elf64_Half), (''vd_flags'', Typed Elf64_Half), (''vd_ndx'', Typed Elf64_Half),
     (''vd_cnt'', Typed Elf64_Half), (''vd_hash'', Typed Elf64_Word), (''vd_aux'', Typed Elf64_Word), (''vd_next'', Typed Elf64_Word)]"

definition Elf64_Verdaux :: "(string \<times> cfield) list" where
  "Elf64_Verdaux = [(''vda_name'', Typed Elf64_Word), (''vda_next'', Typed Elf64_Word)]"

definition Elf64_Verneed :: "(string \<times> cfield) list" where
  "Elf64_Verneed = [(''vn_version'', Typed Elf64_Half), (''vn_cnt'', Typed Elf64_Half), (''vn_file'', Typed Elf64_Word),
     (''vn_aux'', Typed Elf64_Word), (''vn_next'', Typed Elf64_Word)]"

definition Elf64_Vernaux :: "(string \<times> cfield) list" where
  "Elf64_Vernaux = [(''vna_hash'', Typed Elf64_Word), (''vna_flags'', Typed Elf64_Half), (''vna_other'', Typed Elf64_Half),
     (''vna_name'', Typed Elf64_Word), (''vna_next'', Typed Elf64_Word)]"

definition Elf64_Versym :: elf_type where
  "Elf64_Versym = Elf64_Half"

definition Elf64_Syminfo :: "(string \<times> cfield) list" where
  "Elf64_Syminfo = [(''si_boundto'', Typed Elf64_Half), (''si_flags'', Typed Elf64_Half)]"

definition Elf32_Boot :: "(string \<times> cfield) list" where
  "Elf32_Boot = [(''eb_tag'', Typed Elf32_Sword), (''eb_un'', OneOf [Elf32_Word, Elf32_Addr, Elf32_Off])]"

definition Elf64_Boot :: "(string \<times> cfield) list" where
  "Elf64_Boot = [(''eb_tag'', Typed Elf64_Xword), (''eb_un'', OneOf [Elf64_Xword, Elf64_Addr, Elf64_Off])]"

section \<open>Placing fields\<close>

definition align_up :: "nat \<Rightarrow> nat \<Rightarrow> nat" where
  "align_up a n = (n + a - 1) div a * a"

definition max_of :: "nat list \<Rightarrow> nat" where
  "max_of ns = foldr max ns 1"

text \<open>Size and alignment of a field, if its types are defined.\<close>

fun field_dims :: "abi \<Rightarrow> cfield \<Rightarrow> (nat \<times> nat) option" where
  "field_dims A (Typed t) = map_option (\<lambda>c. (csize A c, calign A c)) (typedef_of A t)"
| "field_dims A (Bytes n) = Some (n, 1)"
| "field_dims A (OneOf ts) =
     map_option (\<lambda>cs. let a = max_of (map (calign A) cs) in (align_up a (max_of (map (csize A) cs)), a))
       (those (map (typedef_of A) ts))"

definition dims :: "abi \<Rightarrow> (string \<times> cfield) list \<Rightarrow> (nat \<times> nat) list option" where
  "dims A fs = those (map (\<lambda>(_, f). field_dims A f) fs)"

text \<open>\<open>place n ds\<close>: offset and size of each field, from the offset \<open>n\<close> on, and where the last one ends.\<close>

fun place :: "nat \<Rightarrow> (nat \<times> nat) list \<Rightarrow> (nat \<times> nat) list" where
  "place n [] = []"
| "place n ((z, a) # ds) = (align_up a n, z) # place (align_up a n + z) ds"

fun place_end :: "nat \<Rightarrow> (nat \<times> nat) list \<Rightarrow> nat" where
  "place_end n [] = n"
| "place_end n ((z, a) # ds) = place_end (align_up a n + z) ds"

definition struct_align :: "(nat \<times> nat) list \<Rightarrow> nat" where
  "struct_align ds = max_of (map snd ds)"

definition laid_out :: "(nat \<times> nat) list \<Rightarrow> (nat \<times> nat) list \<times> nat" where
  "laid_out ds = (place 0 ds, align_up (struct_align ds) (place_end 0 ds))"

definition struct_of :: "abi \<Rightarrow> (string \<times> cfield) list \<Rightarrow> ((nat \<times> nat) list \<times> nat) option" where
  "struct_of A fs = map_option laid_out (dims A fs)"

definition sizeof :: "abi \<Rightarrow> (string \<times> cfield) list \<Rightarrow> nat option" where
  "sizeof A fs = map_option snd (struct_of A fs)"

definition padding_free :: "abi \<Rightarrow> (string \<times> cfield) list \<Rightarrow> bool" where
  "padding_free A fs \<longleftrightarrow>
     (case struct_of A fs of None \<Rightarrow> False | Some (xs, z) \<Rightarrow> sum_list (map snd xs) = z)"

text \<open>The data models: 32-bit with \<^verbatim>\<open>long long\<close>, and 64-bit.\<close>

definition abi_ilp32 :: "nat \<Rightarrow> abi" where
  "abi_ilp32 lla = \<lparr>long_size = 4, longlong_align = lla, def_LP64 = False, def_I32LPx = False, def_LONGLONG_TYPE = True\<rparr>"

definition abi_lp64 :: abi where
  "abi_lp64 = \<lparr>long_size = 8, longlong_align = 8, def_LP64 = True, def_I32LPx = False, def_LONGLONG_TYPE = True\<rparr>"

definition structures :: "((string \<times> cfield) list \<times> nat) list" where
  "structures =
     [(Elf32_Ehdr, 52), (Elf64_Ehdr, 64), (Elf32_Phdr, 32), (Elf64_Phdr, 56), (Elf32_Shdr, 40), (Elf64_Shdr, 64),
      (Elf32_Sym, 16), (Elf64_Sym, 24), (Elf32_Rel, 8), (Elf32_Rela, 12), (Elf64_Rel, 16), (Elf64_Rela, 24),
      (Elf32_Nhdr, 12), (Elf64_Nhdr, 12), (Elf32_Cap, 8), (Elf64_Cap, 16), (Elf32_Dyn, 8), (Elf64_Dyn, 16),
      (Elf32_Verdef, 20), (Elf64_Verdef, 20), (Elf32_Verdaux, 8), (Elf64_Verdaux, 8), (Elf32_Verneed, 16),
      (Elf64_Verneed, 16), (Elf32_Vernaux, 16), (Elf64_Vernaux, 16), (Elf32_Syminfo, 4), (Elf64_Syminfo, 4),
      (Elf32_Boot, 8), (Elf64_Boot, 16)]"

lemmas structure_defs = Elf32_Ehdr_def Elf64_Ehdr_def Elf32_Phdr_def Elf64_Phdr_def Elf32_Shdr_def Elf64_Shdr_def
  Elf32_Sym_def Elf64_Sym_def Elf32_Rel_def Elf32_Rela_def Elf64_Rel_def Elf64_Rela_def Elf32_Nhdr_def Elf64_Nhdr_def
  Elf32_Cap_def Elf64_Cap_def Elf32_Dyn_def Elf64_Dyn_def Elf32_Verdef_def Elf64_Verdef_def Elf32_Verdaux_def
  Elf64_Verdaux_def Elf32_Verneed_def Elf64_Verneed_def Elf32_Vernaux_def Elf64_Vernaux_def Elf32_Syminfo_def
  Elf64_Syminfo_def Elf32_Boot_def Elf64_Boot_def Elf32_Move_def Elf64_Move_def

section \<open>What the placement guarantees\<close>

definition sane_abi :: "abi \<Rightarrow> bool" where
  "sane_abi A \<longleftrightarrow> 0 < long_size A \<and> 0 < longlong_align A"

lemma calign_pos: "sane_abi A \<Longrightarrow> 0 < calign A c"
  by (cases c) (auto simp: calign_def sane_abi_def)

lemma align_up_ge:
  assumes "0 < a"
  shows "n \<le> align_up a n"
proof -
  have "(n + a - 1) mod a \<le> a - 1" using mod_less_divisor [OF assms, of "n + a - 1"] by linarith
  with assms div_mult_mod_eq [of "n + a - 1" a] show ?thesis unfolding align_up_def by linarith
qed

lemma align_up_dvd: "a dvd align_up a n"
  by (simp add: align_up_def)

lemma max_of_pos: "0 < max_of ns"
  by (induction ns) (auto simp: max_of_def)

lemma field_dims_pos: "sane_abi A \<Longrightarrow> field_dims A f = Some (z, a) \<Longrightarrow> 0 < a"
  by (cases f) (auto simp: calign_pos max_of_pos Let_def)

lemma those_map: "those (map f xs) = Some ys \<Longrightarrow> list_all2 (\<lambda>x y. f x = Some y) xs ys"
  by (induction xs arbitrary: ys) (auto split: option.splits)

lemma dims_pos:
  assumes "sane_abi A" and "dims A fs = Some ds"
  shows "\<forall>(z, a) \<in> set ds. 0 < a"
proof -
  have "\<exists>f. field_dims A f = Some (z, a)" if "(z, a) \<in> set ds" for z a
    using those_map [OF assms(2) [unfolded dims_def]] that
    by (auto simp: list_all2_conv_all_nth in_set_conv_nth split: prod.splits) (metis prod.collapse)
  then show ?thesis using field_dims_pos [OF assms(1)] by blast
qed

lemma place_ge: "\<forall>(z, a) \<in> set ds. 0 < a \<Longrightarrow>
    n \<le> place_end n ds \<and> (\<forall>(p, z) \<in> set (place n ds). n \<le> p \<and> p + z \<le> place_end n ds)"
proof (induction n ds rule: place.induct)
  case (1 n)
  then show ?case by simp
next
  case (2 n z a ds)
  then have n: "n \<le> align_up a n" by (simp add: align_up_ge)
  from 2 have IH: "align_up a n + z \<le> place_end (align_up a n + z) ds \<and>
      (\<forall>(p, z') \<in> set (place (align_up a n + z) ds). align_up a n + z \<le> p \<and> p + z' \<le> place_end (align_up a n + z) ds)"
    by simp
  have "n \<le> p \<and> p + z' \<le> place_end (align_up a n + z) ds" if "(p, z') \<in> set (place (align_up a n + z) ds)" for p z'
    using IH that n by fastforce
  with IH n show ?case by auto
qed

lemma place_sorted: "\<forall>(z, a) \<in> set ds. 0 < a \<Longrightarrow>
    sorted_wrt (\<lambda>(p1, z1) (p2, z2). p1 + z1 \<le> p2) (place n ds)"
proof (induction n ds rule: place.induct)
  case (1 n)
  then show ?case by simp
next
  case (2 n z a ds)
  from 2(2) have "\<forall>(z, a) \<in> set ds. 0 < a" by simp
  from place_ge [OF this, of "align_up a n + z"] 2(1) [OF this] show ?case by auto
qed

lemma place_aligned: "list_all2 (\<lambda>(z, a) (p, z'). z' = z \<and> a dvd p) ds (place n ds)"
  by (induction n ds rule: place.induct) (auto simp: align_up_dvd)

text \<open>
  The placement of the fields is sound for every structure and every data model: each field
  stands at a multiple of its alignment, no two fields overlap, they lie in the order of their
  declaration inside of the structure, and the size of the structure is a multiple of its
  alignment, so that the elements of an array are aligned as well.
\<close>

lemma laid_out_sound:
  assumes pos: "\<forall>(z, a) \<in> set ds. 0 < a" and "laid_out ds = (xs, sz)"
  shows "list_all2 (\<lambda>(z, a) (p, z'). z' = z \<and> a dvd p) ds xs \<and>
    sorted_wrt (\<lambda>(p1, z1) (p2, z2). p1 + z1 \<le> p2) xs \<and> (\<forall>(p, z) \<in> set xs. p + z \<le> sz) \<and>
    struct_align ds dvd sz"
proof -
  from assms(2) have xs: "xs = place 0 ds" and sz: "sz = align_up (struct_align ds) (place_end 0 ds)"
    by (simp_all add: laid_out_def)
  have "place_end 0 ds \<le> sz"
    unfolding sz struct_align_def by (rule align_up_ge [OF max_of_pos])
  with place_ge [OF pos] have "\<forall>(p, z) \<in> set xs. p + z \<le> sz" unfolding xs by fastforce
  with place_sorted [OF pos] place_aligned show ?thesis
    unfolding xs by (simp add: sz align_up_dvd)
qed

lemma layout_sound:
  assumes "sane_abi A" and "dims A fs = Some ds" and "struct_of A fs = Some (xs, sz)"
  shows "list_all2 (\<lambda>(z, a) (p, z'). z' = z \<and> a dvd p) ds xs \<and>
    sorted_wrt (\<lambda>(p1, z1) (p2, z2). p1 + z1 \<le> p2) xs \<and> (\<forall>(p, z) \<in> set xs. p + z \<le> sz) \<and>
    struct_align ds dvd sz"
  using laid_out_sound [OF dims_pos [OF assms(1,2)], of xs sz] assms(2,3) by (simp add: struct_of_def)

section \<open>Sizes\<close>

text \<open>
  The typedefs give every type of the file format its fixed size exactly when the macros
  match the compiler: \<^verbatim>\<open>_LP64\<close> is defined and \<^verbatim>\<open>long\<close> has eight bytes, or it is
  not, \<^verbatim>\<open>_LONGLONG_TYPE\<close> is, and \<^verbatim>\<open>long\<close> has four bytes unless \<^verbatim>\<open>_I32LPx\<close> is defined.
\<close>

lemma format_sizes:
  "(\<forall>t n. FSZ t = Some n \<longrightarrow> map_option (csize A) (typedef_of A t) = Some n) \<longleftrightarrow>
     (if def_LP64 A then long_size A = 8
      else def_LONGLONG_TYPE A \<and> (def_I32LPx A \<or> long_size A = 4))" (is "?sizes \<longleftrightarrow> ?macros")
proof
  assume ?sizes
  then have s: "map_option (csize A) (typedef_of A t) = Some n" if "FSZ t = Some n" for t n
    using that by blast
  from s [of Elf64_Addr 8] s [of Elf32_Word 4]
  have "map_option (csize A) (typedef_of A Elf64_Addr) = Some 8" "map_option (csize A) (typedef_of A Elf32_Word) = Some 4"
    by (simp_all del: typedef_of.simps)
  then show ?macros by (auto simp: elf32_typedef_def elf64_typedef_def split: if_splits)
next
  assume m: ?macros
  have "FSZ t = Some n \<longrightarrow> map_option (csize A) (typedef_of A t) = Some n" for t n
    using m by (cases t) (auto simp: elf32_typedef_def elf64_typedef_def split: if_splits)
  then show ?sizes by blast
qed

lemma structures_lp64: "list_all (\<lambda>(fs, z). sizeof abi_lp64 fs = Some z \<and> padding_free abi_lp64 fs) structures"
  by code_simp

lemma structures_same:
  "list_all (\<lambda>(fs, z). struct_of (abi_ilp32 4) fs = struct_of abi_lp64 fs) structures"
  "list_all (\<lambda>(fs, z). struct_of (abi_ilp32 8) fs = struct_of abi_lp64 fs) structures"
  by code_simp+

lemma versions_same: "list_all (\<lambda>(f, g). struct_of abi_lp64 f = struct_of abi_lp64 g)
    [(Elf32_Verdef, Elf64_Verdef), (Elf32_Verdaux, Elf64_Verdaux), (Elf32_Verneed, Elf64_Verneed),
     (Elf32_Vernaux, Elf64_Vernaux), (Elf32_Syminfo, Elf64_Syminfo)]"
  by code_simp

lemma move_sizes:
  "sizeof abi_lp64 Elf32_Move = Some 24" "sizeof abi_lp64 Elf64_Move = Some 32"
  "sizeof (abi_ilp32 4) Elf32_Move = Some 20" "sizeof (abi_ilp32 4) Elf64_Move = Some 28"
  "sizeof (abi_ilp32 8) Elf32_Move = Some 24" "sizeof (abi_ilp32 8) Elf64_Move = Some 32"
  by code_simp+

end
