(* ===== verification/Darwin_Elf.thy ===== *)
theory Darwin_Elf
  imports Prelude
begin

text \<open>
  The packed fields of ELF objects in \<^verbatim>\<open>darwin/elf.h\<close>: the macros that compose and
  decompose the symbol, relocation and move information. Their contract, a pair of fields that
  fills a word exactly, is the locale \<open>packed_pair\<close>.
\<close>

unbundle bit_operations_syntax

section \<open>The macros\<close>

text \<open>
  \<^verbatim>\<open>st_info\<close> is an unsigned char; the macros compute in the C type \<^verbatim>\<open>int\<close>.
  \<open>st_info_of\<close> is the store of the composed value into the field.
\<close>

definition ELF32_ST_BIND :: "8 word \<Rightarrow> 32 word" where
  "ELF32_ST_BIND info = drop_bit 4 (ucast info)"

definition ELF32_ST_TYPE :: "8 word \<Rightarrow> 32 word" where
  "ELF32_ST_TYPE info = ucast info AND 0xf"

definition ELF32_ST_INFO :: "32 word \<Rightarrow> 32 word \<Rightarrow> 32 word" where
  "ELF32_ST_INFO bind type = push_bit 4 bind + (type AND 0xf)"

definition ELF64_ST_BIND :: "8 word \<Rightarrow> 32 word" where
  "ELF64_ST_BIND info = drop_bit 4 (ucast info)"

definition ELF64_ST_TYPE :: "8 word \<Rightarrow> 32 word" where
  "ELF64_ST_TYPE info = ucast info AND 0xf"

definition ELF64_ST_INFO :: "32 word \<Rightarrow> 32 word \<Rightarrow> 32 word" where
  "ELF64_ST_INFO bind type = push_bit 4 bind + (type AND 0xf)"

definition st_info_of :: "32 word \<Rightarrow> 8 word" where
  "st_info_of v = ucast v"

definition ELF32_ST_VISIBILITY :: "8 word \<Rightarrow> 32 word" where
  "ELF32_ST_VISIBILITY other = ucast other AND 0x3"

text \<open>Relocations: 24 and 8 bits, 32 and 32 bits.\<close>

definition ELF32_R_SYM :: "32 word \<Rightarrow> 32 word" where
  "ELF32_R_SYM info = drop_bit 8 info"

definition ELF32_R_TYPE :: "32 word \<Rightarrow> 8 word" where
  "ELF32_R_TYPE info = ucast info"

definition ELF32_R_INFO :: "32 word \<Rightarrow> 8 word \<Rightarrow> 32 word" where
  "ELF32_R_INFO symbol type = push_bit 8 symbol + ucast type"

definition ELF64_R_SYM :: "64 word \<Rightarrow> 64 word" where
  "ELF64_R_SYM info = drop_bit 32 info"

definition ELF64_R_TYPE :: "64 word \<Rightarrow> 32 word" where
  "ELF64_R_TYPE info = ucast info"

definition ELF64_R_INFO :: "64 word \<Rightarrow> 32 word \<Rightarrow> 64 word" where
  "ELF64_R_INFO symbol type = push_bit 32 symbol + ucast type"

text \<open>The type of SPARC V9 is itself composed, of 24 bits of data and an 8 bit identifier.\<close>

definition ELF64_R_TYPE_DATA :: "64 word \<Rightarrow> 64 word" where
  "ELF64_R_TYPE_DATA info = drop_bit 40 (push_bit 32 info)"

definition ELF64_R_TYPE_ID :: "64 word \<Rightarrow> 64 word" where
  "ELF64_R_TYPE_ID info = drop_bit 56 (push_bit 56 info)"

definition ELF64_R_TYPE_INFO :: "64 word \<Rightarrow> 64 word \<Rightarrow> 64 word" where
  "ELF64_R_TYPE_INFO data type = push_bit 8 data + type"

text \<open>Move entries.\<close>

definition ELF32_M_SYM :: "32 word \<Rightarrow> 32 word" where
  "ELF32_M_SYM info = drop_bit 8 info"

definition ELF32_M_SIZE :: "32 word \<Rightarrow> 8 word" where
  "ELF32_M_SIZE info = ucast info"

definition ELF32_M_INFO :: "32 word \<Rightarrow> 8 word \<Rightarrow> 32 word" where
  "ELF32_M_INFO symbol sz = push_bit 8 symbol + ucast sz"

definition ELF64_M_SYM :: "64 word \<Rightarrow> 64 word" where
  "ELF64_M_SYM info = drop_bit 8 info"

definition ELF64_M_SIZE :: "64 word \<Rightarrow> 8 word" where
  "ELF64_M_SIZE info = ucast info"

definition ELF64_M_INFO :: "64 word \<Rightarrow> 8 word \<Rightarrow> 64 word" where
  "ELF64_M_INFO symbol sz = push_bit 8 symbol + ucast sz"

section \<open>The contract: two fields fill a word\<close>

locale packed_pair =
  fixes pack :: "'a \<Rightarrow> 'b \<Rightarrow> 'w"
    and high :: "'w \<Rightarrow> 'a"
    and low :: "'w \<Rightarrow> 'b"
    and fits_high :: "'a \<Rightarrow> bool"
    and fits_low :: "'b \<Rightarrow> bool"
  assumes high_pack: "fits_high x \<Longrightarrow> fits_low y \<Longrightarrow> high (pack x y) = x"
    and low_pack: "fits_high x \<Longrightarrow> fits_low y \<Longrightarrow> low (pack x y) = y"
    and pack_parts: "pack (high w) (low w) = w"
    and parts_fit: "fits_high (high w)" "fits_low (low w)"
begin

lemma pack_inject:
  "fits_high x \<Longrightarrow> fits_low y \<Longrightarrow> fits_high x' \<Longrightarrow> fits_low y' \<Longrightarrow> pack x y = pack x' y' \<longleftrightarrow> x = x' \<and> y = y'"
  by (metis high_pack low_pack)

lemma pack_bij: "bij_betw (\<lambda>(x, y). pack x y) {(x, y). fits_high x \<and> fits_low y} UNIV"
  unfolding bij_betw_def
proof
  show "inj_on (\<lambda>(x, y). pack x y) {(x, y). fits_high x \<and> fits_low y}"
    by (auto simp: inj_on_def pack_inject)
  have "w \<in> (\<lambda>(x, y). pack x y) ` {(x, y). fits_high x \<and> fits_low y}" for w
    by (rule image_eqI [of _ _ "(high w, low w)"]) (simp_all add: pack_parts parts_fit)
  then show "(\<lambda>(x, y). pack x y) ` {(x, y). fits_high x \<and> fits_low y} = UNIV" by blast
qed

end

section \<open>Shifts and sums\<close>

lemma push_add_take: "push_bit k a + take_bit k b = push_bit k a OR take_bit k (b :: 'a::len word)"
  by (rule disjunctive_add_eq_or) (auto simp: bit_eq_iff bit_simps)

lemma drop_packed: "drop_bit k (push_bit k a + take_bit k b) = take_bit (LENGTH('a) - k) (a :: 'a::len word)"
  unfolding push_add_take by (rule bit_word_eqI) (auto simp: bit_simps)

lemma take_packed: "take_bit k (push_bit k a + take_bit k b) = take_bit k (b :: 'a::len word)"
  unfolding push_add_take by (rule bit_word_eqI) (auto simp: bit_simps)

lemma repacked: "push_bit k (drop_bit k w) + take_bit k w = (w :: 'a::len word)"
  unfolding push_add_take by (rule bit_word_eqI) (auto simp: bit_simps)

lemma ucast_ucast_take: "LENGTH('b) \<le> LENGTH('a) \<Longrightarrow> ucast (ucast w :: 'b::len word) = take_bit LENGTH('b) (w :: 'a::len word)"
  by (rule bit_word_eqI) (auto simp: bit_simps)

lemma ucast_take:
  fixes y :: "'b::len word"
  shows "LENGTH('b) \<le> LENGTH('a) \<Longrightarrow> (ucast y :: 'a::len word) = take_bit LENGTH('b) (ucast y)"
  by (rule bit_word_eqI) (auto simp: bit_simps dest: bit_imp_le_length)

lemma ucast_up_down: "LENGTH('b) \<le> LENGTH('a) \<Longrightarrow> ucast (ucast z :: 'a::len word) = (z :: 'b::len word)"
  by (rule bit_word_eqI) (auto simp: bit_simps)

lemma take_bit_fits:
  assumes "k < LENGTH('a)"
  shows "take_bit k w = w \<longleftrightarrow> w < (2 ^ k :: 'a::len word)"
proof -
  have "uint (2 ^ k :: 'a word) = 2 ^ k"
    using assms by (intro uint_2p) (simp add: word_greater_zero_iff)
  moreover have "take_bit k w = w \<longleftrightarrow> uint w mod 2 ^ k = uint w"
    unfolding word_eq_iff_unsigned [where ?'a = int] unsigned_take_bit_eq by (simp add: take_bit_eq_mod)
  moreover have "uint w mod 2 ^ k = uint w \<longleftrightarrow> uint w < 2 ^ k"
  proof
    assume "uint w mod 2 ^ k = uint w"
    moreover have "uint w mod 2 ^ k < 2 ^ k" by (rule pos_mod_bound) simp
    ultimately show "uint w < 2 ^ k" by simp
  qed simp
  ultimately show ?thesis
    by (simp add: word_less_def)
qed

section \<open>Every macro family keeps the contract\<close>

lemma packed_word_byte:
  fixes w x :: "'a::len word" and y :: "'b::len word"
  assumes b: "LENGTH('b) < LENGTH('a)"
  defines "k \<equiv> LENGTH('b)"
  shows "x < 2 ^ (LENGTH('a) - k) \<Longrightarrow> drop_bit k (push_bit k x + ucast y) = x"
    and "ucast (push_bit k x + ucast y) = y"
    and "push_bit k (drop_bit k w) + ucast (ucast w :: 'b word) = w"
    and "drop_bit k w < 2 ^ (LENGTH('a) - k)"
proof -
  have y: "(ucast y :: 'a word) = take_bit k (ucast y)"
    using b ucast_take [of y, where 'a = 'a] by (simp add: k_def)
  have n: "LENGTH('a) - k < LENGTH('a)" by (simp add: k_def)
  show "drop_bit k (push_bit k x + ucast y) = x" if "x < 2 ^ (LENGTH('a) - k)"
    using that take_bit_fits [OF n, of x] by (subst y) (simp add: drop_packed)
  have "take_bit k (push_bit k x + ucast y) = (ucast y :: 'a word)"
    using take_packed [of k x "ucast y"] unfolding y [symmetric] .
  then have "ucast (ucast (push_bit k x + ucast y) :: 'b word) = (ucast y :: 'a word)"
    using b by (simp add: ucast_ucast_take k_def)
  then show "ucast (push_bit k x + ucast y) = y"
    using b by (metis less_imp_le ucast_up_down)
  show "push_bit k (drop_bit k w) + ucast (ucast w :: 'b word) = w"
    using b by (simp add: ucast_ucast_take repacked k_def)
  have "take_bit (LENGTH('a) - k) (drop_bit k w) = drop_bit k w"
    by (rule bit_word_eqI) (auto simp: bit_simps dest: bit_imp_le_length)
  then show "drop_bit k w < 2 ^ (LENGTH('a) - k)"
    using take_bit_fits [OF n, of "drop_bit k w"] by simp
qed

lemmas packed_32_8 = packed_word_byte [where 'a = 32 and 'b = 8, simplified]
lemmas packed_64_8 = packed_word_byte [where 'a = 64 and 'b = 8, simplified]
lemmas packed_64_32 = packed_word_byte [where 'a = 64 and 'b = 32, simplified]

interpretation r32: packed_pair ELF32_R_INFO ELF32_R_SYM ELF32_R_TYPE "\<lambda>x. x < 2 ^ 24" "\<lambda>_. True"
  by unfold_locales (simp_all add: ELF32_R_INFO_def ELF32_R_SYM_def ELF32_R_TYPE_def packed_32_8)

interpretation m32: packed_pair ELF32_M_INFO ELF32_M_SYM ELF32_M_SIZE "\<lambda>x. x < 2 ^ 24" "\<lambda>_. True"
  by unfold_locales (simp_all add: ELF32_M_INFO_def ELF32_M_SYM_def ELF32_M_SIZE_def packed_32_8)

interpretation m64: packed_pair ELF64_M_INFO ELF64_M_SYM ELF64_M_SIZE "\<lambda>x. x < 2 ^ 56" "\<lambda>_. True"
  by unfold_locales (simp_all add: ELF64_M_INFO_def ELF64_M_SYM_def ELF64_M_SIZE_def packed_64_8)

interpretation r64: packed_pair ELF64_R_INFO ELF64_R_SYM ELF64_R_TYPE "\<lambda>x. x < 2 ^ 32" "\<lambda>_. True"
  by unfold_locales (simp_all add: ELF64_R_INFO_def ELF64_R_SYM_def ELF64_R_TYPE_def packed_64_32)

text \<open>The identifier and the data of a SPARC V9 type, within its 32 bits.\<close>

lemma ELF64_R_TYPE_ID_take: "ELF64_R_TYPE_ID info = take_bit 8 info"
  unfolding ELF64_R_TYPE_ID_def by (rule bit_word_eqI) (auto simp: bit_simps)

lemma ELF64_R_TYPE_DATA_take: "ELF64_R_TYPE_DATA info = take_bit 24 (drop_bit 8 info)"
  unfolding ELF64_R_TYPE_DATA_def by (rule bit_word_eqI) (auto simp: bit_simps ac_simps)

lemma R_TYPE_parts:
  assumes "data < 2 ^ 24" and "ty < 2 ^ 8"
  shows "ELF64_R_TYPE_DATA (ELF64_R_TYPE_INFO data ty) = data" and "ELF64_R_TYPE_ID (ELF64_R_TYPE_INFO data ty) = ty"
proof -
  from assms have d: "take_bit 24 data = data" and t: "take_bit 8 ty = ty"
    using take_bit_fits [of 24 data] take_bit_fits [of 8 ty] by simp_all
  have inf: "ELF64_R_TYPE_INFO data ty = push_bit 8 data + take_bit 8 ty"
    by (simp add: ELF64_R_TYPE_INFO_def t)
  have "take_bit 24 (take_bit 56 data) = take_bit 24 data"
    by (rule bit_word_eqI) (auto simp: bit_simps)
  then show "ELF64_R_TYPE_DATA (ELF64_R_TYPE_INFO data ty) = data"
    unfolding ELF64_R_TYPE_DATA_take inf drop_packed by (simp add: d)
  show "ELF64_R_TYPE_ID (ELF64_R_TYPE_INFO data ty) = ty"
    unfolding ELF64_R_TYPE_ID_take inf take_packed by (simp add: t)
qed

text \<open>The symbol information, once it is stored in its byte.\<close>

lemma and_0xf: "w AND 0xf = take_bit 4 (w :: 'a::len word)"
  by (simp add: take_bit_eq_mask mask_eq_exp_minus_1)

interpretation st: packed_pair "\<lambda>bind ty. st_info_of (ELF32_ST_INFO bind ty)" ELF32_ST_BIND ELF32_ST_TYPE
  "\<lambda>x. x < 2 ^ 4" "\<lambda>y. y < 2 ^ 4"
proof unfold_locales
  fix x y :: "32 word" and w :: "8 word"
  have info: "ucast (st_info_of (ELF32_ST_INFO x y)) = take_bit 8 (push_bit 4 x + take_bit 4 y)" for x y
    by (simp add: st_info_of_def ELF32_ST_INFO_def and_0xf ucast_ucast_take [where 'a = 32 and 'b = 8, simplified])
  have lo: "take_bit 4 (take_bit 8 v) = take_bit 4 v" and hi: "drop_bit 4 (take_bit 8 v) = take_bit 4 (drop_bit 4 v)" for v :: "32 word"
    by (rule bit_word_eqI, auto simp: bit_simps)+
  assume "x < 2 ^ 4" and "y < 2 ^ 4"
  then have x: "take_bit 4 x = x" and y: "take_bit 4 y = y"
    using take_bit_fits [of 4 x] take_bit_fits [of 4 y] by simp_all
  have "take_bit 4 (take_bit 28 x) = take_bit 4 x"
    by (rule bit_word_eqI) (auto simp: bit_simps)
  then show "ELF32_ST_BIND (st_info_of (ELF32_ST_INFO x y)) = x"
    by (simp add: ELF32_ST_BIND_def info hi drop_packed x)
  show "ELF32_ST_TYPE (st_info_of (ELF32_ST_INFO x y)) = y"
    unfolding ELF32_ST_TYPE_def and_0xf info lo take_packed by (rule y)
next
  fix w :: "8 word"
  show "st_info_of (ELF32_ST_INFO (ELF32_ST_BIND w) (ELF32_ST_TYPE w)) = w"
    by (simp add: ELF32_ST_BIND_def ELF32_ST_TYPE_def ELF32_ST_INFO_def and_0xf repacked st_info_of_def
        ucast_up_down [where 'a = 32 and 'b = 8, simplified])
  have "take_bit 4 (drop_bit 4 (ucast w)) = (drop_bit 4 (ucast w) :: 32 word)"
    by (rule bit_word_eqI) (auto simp: bit_simps dest: bit_imp_le_length)
  then show "ELF32_ST_BIND w < 2 ^ 4" "ELF32_ST_TYPE w < 2 ^ 4"
    using take_bit_fits [of 4 "ELF32_ST_BIND w"] take_bit_fits [of 4 "ELF32_ST_TYPE w"]
    by (simp_all add: ELF32_ST_BIND_def ELF32_ST_TYPE_def and_0xf)
qed

section \<open>Properties\<close>

text \<open>
  C38. Symbol, relocation and move information: every value of the packed field is composed of
  exactly one pair of parts that fit their widths. From a value composed of parts that fit the
  decomposing macros return these parts; from any value they return parts that fit, and of which
  it is composed. The type of a SPARC V9 relocation, data of 24 bits and an identifier of 8 bits
  that were composed, is decomposed in the same way.
\<close>

lemma packed_fields_bijective:
  assumes "bind < 2 ^ 4" and "ty < 2 ^ 4" and "s24 < 2 ^ 24" and "s32 < 2 ^ 32" and "s56 < 2 ^ 56"
    and "data < 2 ^ 24" and "id8 < 2 ^ 8"
  shows "bij_betw (\<lambda>(bind, ty). st_info_of (ELF32_ST_INFO bind ty)) {(bind, ty). bind < 2 ^ 4 \<and> ty < 2 ^ 4} UNIV \<and>
   bij_betw (\<lambda>(sm, ty). ELF32_R_INFO sm ty) {(sm, ty). sm < 2 ^ 24} UNIV \<and>
   bij_betw (\<lambda>(sm, ty). ELF64_R_INFO sm ty) {(sm, ty). sm < 2 ^ 32} UNIV \<and>
   bij_betw (\<lambda>(sm, sz). ELF32_M_INFO sm sz) {(sm, sz). sm < 2 ^ 24} UNIV \<and>
   bij_betw (\<lambda>(sm, sz). ELF64_M_INFO sm sz) {(sm, sz). sm < 2 ^ 56} UNIV \<and>
   ELF32_ST_BIND (st_info_of (ELF32_ST_INFO bind ty)) = bind \<and> ELF32_ST_TYPE (st_info_of (ELF32_ST_INFO bind ty)) = ty \<and>
   ELF32_R_SYM (ELF32_R_INFO s24 t8) = s24 \<and> ELF32_R_TYPE (ELF32_R_INFO s24 t8) = t8 \<and>
   ELF64_R_SYM (ELF64_R_INFO s32 t32) = s32 \<and> ELF64_R_TYPE (ELF64_R_INFO s32 t32) = t32 \<and>
   ELF32_M_SYM (ELF32_M_INFO s24 t8) = s24 \<and> ELF32_M_SIZE (ELF32_M_INFO s24 t8) = t8 \<and>
   ELF64_M_SYM (ELF64_M_INFO s56 t8) = s56 \<and> ELF64_M_SIZE (ELF64_M_INFO s56 t8) = t8 \<and>
   ELF64_R_TYPE_DATA (ELF64_R_TYPE_INFO data id8) = data \<and> ELF64_R_TYPE_ID (ELF64_R_TYPE_INFO data id8) = id8 \<and>
   ELF32_ST_BIND w8 < 2 ^ 4 \<and> ELF32_ST_TYPE w8 < 2 ^ 4 \<and> st_info_of (ELF32_ST_INFO (ELF32_ST_BIND w8) (ELF32_ST_TYPE w8)) = w8 \<and>
   ELF32_R_SYM w32 < 2 ^ 24 \<and> ELF32_R_INFO (ELF32_R_SYM w32) (ELF32_R_TYPE w32) = w32 \<and>
   ELF64_R_SYM w64 < 2 ^ 32 \<and> ELF64_R_INFO (ELF64_R_SYM w64) (ELF64_R_TYPE w64) = w64 \<and>
   ELF32_M_SYM w32 < 2 ^ 24 \<and> ELF32_M_INFO (ELF32_M_SYM w32) (ELF32_M_SIZE w32) = w32 \<and>
   ELF64_M_SYM w64 < 2 ^ 56 \<and> ELF64_M_INFO (ELF64_M_SYM w64) (ELF64_M_SIZE w64) = w64"
  using st.pack_bij r32.pack_bij r64.pack_bij m32.pack_bij m64.pack_bij st.high_pack [OF assms(1,2)] st.low_pack [OF assms(1,2)]
    R_TYPE_parts [OF assms(6,7)] st.parts_fit r32.parts_fit(1) r64.parts_fit(1) m32.parts_fit(1) m64.parts_fit(1)
  by (simp only: r32.high_pack [OF assms(3) TrueI] r32.low_pack [OF assms(3) TrueI] r64.high_pack [OF assms(4) TrueI]
      r64.low_pack [OF assms(4) TrueI] m32.high_pack [OF assms(3) TrueI] m32.low_pack [OF assms(3) TrueI]
      m64.high_pack [OF assms(5) TrueI] m64.low_pack [OF assms(5) TrueI]
      st.pack_parts r32.pack_parts r64.pack_parts m32.pack_parts m64.pack_parts simp_thms)

lemma packed_fields_bijective_witness:
  "ELF32_R_SYM (ELF32_R_INFO 0x800001 7) = 0x800001 \<and> ELF64_M_SIZE (ELF64_M_INFO 5 0xff) = 0xff \<and>
    ELF64_R_TYPE_DATA (ELF64_R_TYPE_INFO 0x123456 0x4d) = 0x123456"
proof -
  note parts = packed_fields_bijective [where bind = 1 and ty = 2 and ?s24.0 = "0x800001" and ?s32.0 = 3 and ?s56.0 = 5
      and data = "0x123456" and ?id8.0 = "0x4d"]
  show ?thesis
    using parts [where ?t8.0 = 7] parts [where ?t8.0 = "0xff"] by simp
qed

end
