(* ===== verification/Darwin_Gelf.thy ===== *)
theory Darwin_Gelf
  imports Darwin_Layout Darwin_Elf
begin

text \<open>
  The form of ELF data that is common to both classes, \<^verbatim>\<open>darwin/gelf.h\<close>: its types are those
  of the 64-bit class, its macros those of the 64-bit class with one exception, the type of a
  relocation. Whether 32-bit data keeps its meaning in this form is what this theory is about.
\<close>

section \<open>Types and structures\<close>

definition GElf_Addr :: elf_type where "GElf_Addr = Elf64_Addr"
definition GElf_Half :: elf_type where "GElf_Half = Elf64_Half"
definition GElf_Off :: elf_type where "GElf_Off = Elf64_Off"
definition GElf_Sword :: elf_type where "GElf_Sword = Elf64_Sword"
definition GElf_Sxword :: elf_type where "GElf_Sxword = Elf64_Sxword"
definition GElf_Word :: elf_type where "GElf_Word = Elf64_Word"
definition GElf_Xword :: elf_type where "GElf_Xword = Elf64_Xword"

definition GElf_Ehdr :: "(string \<times> cfield) list" where "GElf_Ehdr = Elf64_Ehdr"
definition GElf_Move :: "(string \<times> cfield) list" where "GElf_Move = Elf64_Move"
definition GElf_Phdr :: "(string \<times> cfield) list" where "GElf_Phdr = Elf64_Phdr"
definition GElf_Shdr :: "(string \<times> cfield) list" where "GElf_Shdr = Elf64_Shdr"
definition GElf_Sym :: "(string \<times> cfield) list" where "GElf_Sym = Elf64_Sym"
definition GElf_Syminfo :: "(string \<times> cfield) list" where "GElf_Syminfo = Elf64_Syminfo"
definition GElf_Rela :: "(string \<times> cfield) list" where "GElf_Rela = Elf64_Rela"
definition GElf_Rel :: "(string \<times> cfield) list" where "GElf_Rel = Elf64_Rel"
definition GElf_Dyn :: "(string \<times> cfield) list" where "GElf_Dyn = Elf64_Dyn"
definition GElf_Cap :: "(string \<times> cfield) list" where "GElf_Cap = Elf64_Cap"
definition GElf_Verdef :: "(string \<times> cfield) list" where "GElf_Verdef = Elf64_Verdef"
definition GElf_Verdaux :: "(string \<times> cfield) list" where "GElf_Verdaux = Elf64_Verdaux"
definition GElf_Verneed :: "(string \<times> cfield) list" where "GElf_Verneed = Elf64_Verneed"
definition GElf_Vernaux :: "(string \<times> cfield) list" where "GElf_Vernaux = Elf64_Vernaux"
definition GElf_Versym :: elf_type where "GElf_Versym = Elf64_Versym"

section \<open>Macros\<close>

definition GELF_M_SYM :: "64 word \<Rightarrow> 64 word" where "GELF_M_SYM = ELF64_M_SYM"
definition GELF_M_SIZE :: "64 word \<Rightarrow> 8 word" where "GELF_M_SIZE = ELF64_M_SIZE"

definition GELF_ST_BIND :: "8 word \<Rightarrow> 32 word" where "GELF_ST_BIND = ELF64_ST_BIND"
definition GELF_ST_TYPE :: "8 word \<Rightarrow> 32 word" where "GELF_ST_TYPE = ELF64_ST_TYPE"
definition GELF_ST_INFO :: "32 word \<Rightarrow> 32 word \<Rightarrow> 32 word" where "GELF_ST_INFO = ELF64_ST_INFO"

definition GELF_R_TYPE :: "64 word \<Rightarrow> 64 word" where "GELF_R_TYPE = ELF64_R_TYPE_ID"
definition GELF_R_SYM :: "64 word \<Rightarrow> 64 word" where "GELF_R_SYM = ELF64_R_SYM"
definition GELF_R_INFO :: "64 word \<Rightarrow> 32 word \<Rightarrow> 64 word" where "GELF_R_INFO = ELF64_R_INFO"
definition GELF_R_TYPE_DATA :: "64 word \<Rightarrow> 64 word" where "GELF_R_TYPE_DATA = ELF64_R_TYPE_DATA"
definition GELF_R_TYPE_ID :: "64 word \<Rightarrow> 64 word" where "GELF_R_TYPE_ID = ELF64_R_TYPE_ID"
definition GELF_R_TYPE_INFO :: "64 word \<Rightarrow> 64 word \<Rightarrow> 64 word" where "GELF_R_TYPE_INFO = ELF64_R_TYPE_INFO"

section \<open>What it means that a type holds another\<close>

primrec is_signed :: "ctype \<Rightarrow> bool" where
  "is_signed UChar = False"
| "is_signed UShort = False"
| "is_signed SInt = True"
| "is_signed UInt = False"
| "is_signed SLong = True"
| "is_signed ULong = False"
| "is_signed SLongLong = True"
| "is_signed ULongLong = False"

text \<open>Every value of the type \<open>t\<close> is a value of \<open>u\<close>: not fewer bytes, and the same signedness.\<close>

definition type_holds :: "abi \<Rightarrow> elf_type \<Rightarrow> elf_type \<Rightarrow> bool" where
  "type_holds A t u \<longleftrightarrow> (case (typedef_of A t, typedef_of A u) of
     (Some c, Some d) \<Rightarrow> csize A c \<le> csize A d \<and> is_signed c = is_signed d
   | _ \<Rightarrow> False)"

fun field_holds :: "abi \<Rightarrow> cfield \<Rightarrow> cfield \<Rightarrow> bool" where
  "field_holds A (Typed t) (Typed u) = type_holds A t u"
| "field_holds A (Bytes m) (Bytes n) = (m = n)"
| "field_holds A (OneOf ts) (OneOf us) = list_all2 (type_holds A) ts us"
| "field_holds A _ _ = False"

text \<open>Every field of the structure \<open>f\<close> has a field of the same name in \<open>g\<close> that holds it, and there are no others.\<close>

definition structure_holds :: "abi \<Rightarrow> (string \<times> cfield) list \<Rightarrow> (string \<times> cfield) list \<Rightarrow> bool" where
  "structure_holds A f g \<longleftrightarrow> length f = length g \<and> distinct (map fst f) \<and>
     list_all (\<lambda>(n, c). case map_of g n of None \<Rightarrow> False | Some d \<Rightarrow> field_holds A c d) f"

text \<open>The signedness of the typed members of a field.\<close>

fun signedness :: "abi \<Rightarrow> cfield \<Rightarrow> bool option list" where
  "signedness A (Typed t) = [map_option is_signed (typedef_of A t)]"
| "signedness A (Bytes n) = []"
| "signedness A (OneOf ts) = map (\<lambda>t. map_option is_signed (typedef_of A t)) ts"

definition class_pairs :: "((string \<times> cfield) list \<times> (string \<times> cfield) list) list" where
  "class_pairs =
     [(Elf32_Ehdr, GElf_Ehdr), (Elf32_Move, GElf_Move), (Elf32_Phdr, GElf_Phdr), (Elf32_Shdr, GElf_Shdr),
      (Elf32_Sym, GElf_Sym), (Elf32_Syminfo, GElf_Syminfo), (Elf32_Rela, GElf_Rela), (Elf32_Rel, GElf_Rel),
      (Elf32_Dyn, GElf_Dyn), (Elf32_Cap, GElf_Cap), (Elf32_Verdef, GElf_Verdef), (Elf32_Verdaux, GElf_Verdaux),
      (Elf32_Verneed, GElf_Verneed), (Elf32_Vernaux, GElf_Vernaux)]"

definition class_types :: "(elf_type \<times> elf_type) list" where
  "class_types =
     [(Elf32_Addr, GElf_Addr), (Elf32_Half, GElf_Half), (Elf32_Off, GElf_Off), (Elf32_Sword, GElf_Sword),
      (Elf32_Word, GElf_Word), (Elf32_Sword, GElf_Sxword), (Elf32_Word, GElf_Xword), (Elf32_Versym, GElf_Versym)]"

lemma types_held:
  "list_all (\<lambda>(t, u). type_holds abi_lp64 t u) class_types"
  "list_all (\<lambda>(t, u). type_holds (abi_ilp32 4) t u) class_types"
  "list_all (\<lambda>(t, u). type_holds (abi_ilp32 8) t u) class_types"
  by code_simp+

lemma structures_held:
  "list_all (\<lambda>(f, g). structure_holds abi_lp64 f g \<longleftrightarrow> f \<noteq> Elf32_Dyn) class_pairs"
  "list_all (\<lambda>(f, g). structure_holds (abi_ilp32 4) f g \<longleftrightarrow> f \<noteq> Elf32_Dyn) class_pairs"
  "list_all (\<lambda>(f, g). structure_holds (abi_ilp32 8) f g \<longleftrightarrow> f \<noteq> Elf32_Dyn) class_pairs"
  by code_simp+

lemma dynamic_entry:
  "map_option (signedness A) (map_of Elf32_Dyn ''d_tag'') = Some [Some True]"
  "A \<in> {abi_lp64, abi_ilp32 4, abi_ilp32 8} \<Longrightarrow> map_option (signedness A) (map_of GElf_Dyn ''d_tag'') = Some [Some False]"
  "map_of Elf32_Dyn ''d_un'' = Some (OneOf [Elf32_Word, Elf32_Addr, Elf32_Off])"
  "map_of GElf_Dyn ''d_un'' = Some (OneOf [GElf_Xword, GElf_Addr])"
  by (auto simp: Elf32_Dyn_def GElf_Dyn_def Elf64_Dyn_def GElf_Xword_def GElf_Addr_def elf32_typedef_def elf64_typedef_def
      abi_lp64_def abi_ilp32_def)

lemma union_held:
  assumes "A \<in> {abi_lp64, abi_ilp32 4, abi_ilp32 8}"
  shows "type_holds A Elf32_Word GElf_Xword" and "type_holds A Elf32_Addr GElf_Addr"
  using assms types_held by (auto simp: class_types_def)

section \<open>Relocations\<close>

text \<open>The information of a 32-bit relocation, composed again from its parts in the common form.\<close>

definition common_r_info :: "32 word \<Rightarrow> 64 word" where
  "common_r_info i = GELF_R_INFO (ucast (ELF32_R_SYM i)) (ucast (ELF32_R_TYPE i))"

lemma ucast_below:
  fixes w :: "'a::len word"
  assumes "LENGTH('a) \<le> k" and "k < LENGTH('b)"
  shows "(ucast w :: 'b::len word) < 2 ^ k"
proof -
  have "take_bit k (ucast w) = (ucast w :: 'b word)"
  proof (rule bit_word_eqI)
    show "bit (take_bit k (ucast w) :: 'b word) n \<longleftrightarrow> bit (ucast w :: 'b word) n" for n
      using bit_imp_le_length [of w n] assms by (auto simp: bit_simps)
  qed
  with take_bit_fits [OF assms(2)] show ?thesis by simp
qed

lemma common_r_info_sym: "GELF_R_SYM (common_r_info i) = ucast (ELF32_R_SYM i)"
  unfolding GELF_R_SYM_def common_r_info_def GELF_R_INFO_def
  by (rule r64.high_pack) (rule ucast_below, simp_all)

lemma common_r_info_low: "take_bit 32 (common_r_info i) = ucast (ELF32_R_TYPE i)"
proof -
  have "ELF64_R_TYPE (common_r_info i) = ucast (ELF32_R_TYPE i)"
    unfolding common_r_info_def GELF_R_INFO_def
    by (rule r64.low_pack) (rule ucast_below, simp_all)
  then have "ucast (ELF64_R_TYPE (common_r_info i)) = (ucast (ucast (ELF32_R_TYPE i) :: 32 word) :: 64 word)" by simp
  moreover have "ucast (ucast v :: 32 word) = (ucast v :: 64 word)" for v :: "8 word"
    by (rule bit_word_eqI) (auto simp: bit_simps dest: bit_imp_le_length)
  ultimately show ?thesis
    by (simp add: ELF64_R_TYPE_def ucast_ucast_take)
qed

text \<open>The two parts of a type depend on its 32 bits only, and make it up.\<close>

lemma R_TYPE_ID_low: "ELF64_R_TYPE_ID info = take_bit 8 (take_bit 32 info)"
  unfolding ELF64_R_TYPE_ID_take by (rule bit_word_eqI) (auto simp: bit_simps)

lemma R_TYPE_DATA_low: "ELF64_R_TYPE_DATA info = drop_bit 8 (take_bit 32 info)"
  unfolding ELF64_R_TYPE_DATA_take by (rule bit_word_eqI) (auto simp: bit_simps)

lemma R_TYPE_whole: "ELF64_R_TYPE_INFO (ELF64_R_TYPE_DATA info) (ELF64_R_TYPE_ID info) = take_bit 32 info"
  unfolding ELF64_R_TYPE_INFO_def R_TYPE_DATA_low R_TYPE_ID_low by (rule repacked)

lemma common_r_info_type:
  "GELF_R_TYPE (common_r_info i) = ucast (ELF32_R_TYPE i)" "GELF_R_TYPE_DATA (common_r_info i) = 0"
proof -
  show "GELF_R_TYPE (common_r_info i) = ucast (ELF32_R_TYPE i)"
    unfolding GELF_R_TYPE_def R_TYPE_ID_low common_r_info_low
    by (rule bit_word_eqI) (auto simp: bit_simps dest: bit_imp_le_length)
  show "GELF_R_TYPE_DATA (common_r_info i) = 0"
    unfolding GELF_R_TYPE_DATA_def R_TYPE_DATA_low common_r_info_low
    by (rule bit_word_eqI) (auto simp: bit_simps dest: bit_imp_le_length)
qed

lemma gelf_type_exact: "GELF_R_TYPE info = ucast (ELF64_R_TYPE info) \<longleftrightarrow> ELF64_R_TYPE info < 2 ^ 8"
proof -
  have "GELF_R_TYPE info = ucast (take_bit 8 (ELF64_R_TYPE info))"
    unfolding GELF_R_TYPE_def R_TYPE_ID_low ELF64_R_TYPE_def by (rule bit_word_eqI) (auto simp: bit_simps)
  moreover have "inj (ucast :: 32 word \<Rightarrow> 64 word)"
    by (rule inj_on_inverseI [where g = ucast]) (simp add: ucast_up_down)
  ultimately have "GELF_R_TYPE info = ucast (ELF64_R_TYPE info) \<longleftrightarrow> take_bit 8 (ELF64_R_TYPE info) = ELF64_R_TYPE info"
    by (simp add: inj_eq)
  then show ?thesis by (simp add: take_bit_fits)
qed

section \<open>Moves and symbols\<close>

lemma common_m_info:
  "GELF_M_SYM (ucast (i :: 32 word)) = ucast (ELF32_M_SYM i)" "GELF_M_SIZE (ucast i) = ELF32_M_SIZE i"
  unfolding GELF_M_SYM_def GELF_M_SIZE_def ELF64_M_SYM_def ELF64_M_SIZE_def ELF32_M_SYM_def ELF32_M_SIZE_def
  by (rule bit_word_eqI, auto simp: bit_simps dest: bit_imp_le_length)+

lemma common_st_info:
  "GELF_ST_BIND = ELF32_ST_BIND" "GELF_ST_TYPE = ELF32_ST_TYPE" "GELF_ST_INFO = ELF32_ST_INFO"
  by (simp_all add: fun_eq_iff GELF_ST_BIND_def GELF_ST_TYPE_def GELF_ST_INFO_def ELF64_ST_BIND_def ELF64_ST_TYPE_def
      ELF64_ST_INFO_def ELF32_ST_BIND_def ELF32_ST_TYPE_def ELF32_ST_INFO_def)

section \<open>Properties\<close>

text \<open>
  C37. The form of ELF data that is common to both classes loses nothing of the 32-bit class: in
  every data model each type holds its 32-bit counterpart, and each structure has the same
  fields as its 32-bit counterpart, each wide enough and of the same signedness. The dynamic
  entry is the exception: its tag is signed in the 32-bit class and unsigned in the common form,
  and of the three members of its union, \<^verbatim>\<open>d_val\<close>, \<^verbatim>\<open>d_ptr\<close> and \<^verbatim>\<open>d_off\<close>, the common form has only
  the first two, which hold theirs. The information of a 32-bit relocation, once it is composed by the macros of the
  common form, is decomposed by them into the same symbol and type, with no data; the
  information of a move entry is even the same number, and that of a symbol is read by the same
  macros. Of a 64-bit relocation \<^verbatim>\<open>GELF_R_TYPE\<close> returns the whole type exactly when it is
  below 256; otherwise the rest is what \<^verbatim>\<open>GELF_R_TYPE_DATA\<close> returns.
\<close>

theorem common_form_keeps_both_classes:
  assumes "A \<in> {abi_lp64, abi_ilp32 4, abi_ilp32 8}"
  shows "list_all (\<lambda>(t, u). type_holds A t u) class_types \<and>
    list_all (\<lambda>(f, g). structure_holds A f g \<longleftrightarrow> f \<noteq> Elf32_Dyn) class_pairs \<and>
    map_option (signedness A) (map_of Elf32_Dyn ''d_tag'') = Some [Some True] \<and>
    map_option (signedness A) (map_of GElf_Dyn ''d_tag'') = Some [Some False] \<and>
    map_of Elf32_Dyn ''d_un'' = Some (OneOf [Elf32_Word, Elf32_Addr, Elf32_Off]) \<and>
    map_of GElf_Dyn ''d_un'' = Some (OneOf [GElf_Xword, GElf_Addr]) \<and>
    type_holds A Elf32_Word GElf_Xword \<and> type_holds A Elf32_Addr GElf_Addr \<and>
    GELF_R_SYM (common_r_info i) = ucast (ELF32_R_SYM i) \<and>
    GELF_R_TYPE (common_r_info i) = ucast (ELF32_R_TYPE i) \<and> GELF_R_TYPE_DATA (common_r_info i) = 0 \<and>
    GELF_M_SYM (ucast i) = ucast (ELF32_M_SYM i) \<and> GELF_M_SIZE (ucast i) = ELF32_M_SIZE i \<and>
    GELF_ST_BIND = ELF32_ST_BIND \<and> GELF_ST_TYPE = ELF32_ST_TYPE \<and> GELF_ST_INFO = ELF32_ST_INFO \<and>
    (GELF_R_TYPE j = ucast (ELF64_R_TYPE j) \<longleftrightarrow> ELF64_R_TYPE j < 2 ^ 8) \<and>
    GELF_R_TYPE_INFO (GELF_R_TYPE_DATA j) (GELF_R_TYPE_ID j) = ucast (ELF64_R_TYPE j)"
proof -
  have "GELF_R_TYPE_INFO (GELF_R_TYPE_DATA j) (GELF_R_TYPE_ID j) = ucast (ELF64_R_TYPE j)"
    unfolding GELF_R_TYPE_INFO_def GELF_R_TYPE_DATA_def GELF_R_TYPE_ID_def R_TYPE_whole ELF64_R_TYPE_def
    by (simp add: ucast_ucast_take)
  with assms types_held structures_held show ?thesis
    by (auto simp only: common_r_info_sym common_r_info_type common_m_info common_st_info gelf_type_exact
        dynamic_entry(1,3,4) dynamic_entry(2) [OF assms] union_held [OF assms] insert_iff empty_iff)
qed

theorem common_form_keeps_both_classes_witness:
  "structure_holds (abi_ilp32 4) Elf32_Rela GElf_Rela \<and> GELF_R_TYPE (common_r_info 0x1234f7) = 0xf7"
proof -
  have "list_all (\<lambda>(f, g). structure_holds (abi_ilp32 4) f g \<longleftrightarrow> f \<noteq> Elf32_Dyn) class_pairs \<and>
      GELF_R_TYPE (common_r_info 0x1234f7) = ucast (ELF32_R_TYPE 0x1234f7)"
    using common_form_keeps_both_classes [of "abi_ilp32 4" "0x1234f7" 0] by blast
  moreover have "(Elf32_Rela, GElf_Rela) \<in> set class_pairs" by (simp add: class_pairs_def)
  moreover have "Elf32_Rela \<noteq> Elf32_Dyn" by code_simp
  moreover have "(ucast (ELF32_R_TYPE 0x1234f7) :: 64 word) = 0xf7" by (simp add: ELF32_R_TYPE_def)
  ultimately show ?thesis by (auto simp: list_all_iff)
qed

end
