(* ===== verification/Interface_Constants.thy ===== *)
theory Interface_Constants
  imports Prelude
begin

text \<open>
  The numbers by which the headers for process control speak: the enumerations of
  \<^verbatim>\<open>darwin/libelf.h\<close>, \<^verbatim>\<open>rtld_db.h\<close>, \<^verbatim>\<open>proc_service.h\<close> and \<^verbatim>\<open>lwp.h\<close>, and the constants of
  \<^verbatim>\<open>libproc.h\<close> in the two versions the repository holds, for Darwin and for Solaris.
\<close>

section \<open>Enumerations\<close>

text \<open>In C, enumerators without a value count from zero.\<close>

definition enumerators :: "string list \<Rightarrow> (string \<times> nat) list" where
  "enumerators ns = zip ns [0..<length ns]"

text \<open>libelf. The extension's Darwin header adds one kind of file.\<close>

definition Elf_Cmd :: "(string \<times> nat) list" where
  "Elf_Cmd = enumerators
     [''ELF_C_NULL'', ''ELF_C_READ'', ''ELF_C_WRITE'', ''ELF_C_CLR'', ''ELF_C_SET'', ''ELF_C_FDDONE'',
      ''ELF_C_FDREAD'', ''ELF_C_RDWR'', ''ELF_C_WRIMAGE'', ''ELF_C_IMAGE'', ''ELF_C_NUM'']"

definition Elf_Kind :: "bool \<Rightarrow> (string \<times> nat) list" where
  "Elf_Kind apple = enumerators
     ([''ELF_K_NONE'', ''ELF_K_AR'', ''ELF_K_COFF'', ''ELF_K_ELF''] @
      (if apple then [''ELF_K_MACHO''] else []) @ [''ELF_K_NUM''])"

definition Elf_Type :: "(string \<times> nat) list" where
  "Elf_Type = enumerators
     [''ELF_T_BYTE'', ''ELF_T_ADDR'', ''ELF_T_DYN'', ''ELF_T_EHDR'', ''ELF_T_HALF'', ''ELF_T_OFF'',
      ''ELF_T_PHDR'', ''ELF_T_RELA'', ''ELF_T_REL'', ''ELF_T_SHDR'', ''ELF_T_SWORD'', ''ELF_T_SYM'',
      ''ELF_T_WORD'', ''ELF_T_VDEF'', ''ELF_T_VNEED'', ''ELF_T_SXWORD'', ''ELF_T_XWORD'',
      ''ELF_T_SYMINFO'', ''ELF_T_NOTE'', ''ELF_T_MOVE'', ''ELF_T_MOVEP'', ''ELF_T_CAP'', ''ELF_T_NUM'']"

definition ELF_F_flags :: "(string \<times> nat) list" where
  "ELF_F_flags =
     [(''ELF_F_DIRTY'', 0x1), (''ELF_F_LAYOUT'', 0x4)]"

text \<open>The debugging interface of the runtime linker, and the services it needs.\<close>

definition rd_event_e :: "(string \<times> nat) list" where
  "rd_event_e = enumerators
     [''RD_NONE'', ''RD_PREINIT'', ''RD_POSTINIT'', ''RD_DLACTIVITY'']"

definition r_state_e :: "(string \<times> nat) list" where
  "r_state_e = enumerators
     [''RT_CONSISTENT'', ''RT_ADD'', ''RT_DELETE'']"

definition rd_flags_e :: "(string \<times> nat) list" where
  "rd_flags_e =
     [(''RD_FL_NONE'', 0), (''RD_FL_ODBG'', push_bit 0 1), (''RD_FL_DBG'', push_bit 1 1)]"

definition RD_VERSIONs :: "(string \<times> nat) list" where
  "RD_VERSIONs =
     [(''RD_VERSION1'', 1), (''RD_VERSION2'', 2), (''RD_VERSION3'', 3), (''RD_VERSION4'', 4)]"

definition rd_err_e :: "(string \<times> nat) list" where
  "rd_err_e = enumerators
     [''RD_ERR'', ''RD_OK'', ''RD_NOCAPAB'', ''RD_DBERR'', ''RD_NOBASE'', ''RD_NODYNAM'', ''RD_NOMAPS'']"

definition rd_notify_e :: "(string \<times> nat) list" where
  "rd_notify_e = enumerators
     [''RD_NOTIFY_BPT'', ''RD_NOTIFY_AUTOBPT'', ''RD_NOTIFY_SYSCALL'']"

definition rd_state_e :: "(string \<times> nat) list" where
  "rd_state_e = enumerators
     [''RD_NOSTATE'', ''RD_CONSISTENT'', ''RD_ADD'', ''RD_DELETE'']"

definition rd_skip_e :: "(string \<times> nat) list" where
  "rd_skip_e = enumerators
     [''RD_RESOLVE_NONE'', ''RD_RESOLVE_STEP'', ''RD_RESOLVE_TARGET'', ''RD_RESOLVE_TARGET_STEP'']"

definition ps_err_e :: "(string \<times> nat) list" where
  "ps_err_e = enumerators
     [''PS_OK'', ''PS_ERR'', ''PS_BADPID'', ''PS_BADLID'', ''PS_BADADDR'', ''PS_NOSYM'', ''PS_NOFREGS'']"

text \<open>Light-weight processes.\<close>

definition LWP_flags :: "(string \<times> nat) list" where
  "LWP_flags =
     [(''LWP_DAEMON'', 0x00000020), (''LWP_DETACHED'', 0x00000040), (''LWP_SUSPENDED'', 0x00000080)]"

section \<open>Process control\<close>

text \<open>The header for Darwin.\<close>

definition PS_values :: "(string \<times> nat) list" where
  "PS_values =
     [(''PS_RUN'', 1), (''PS_STOP'', 2), (''PS_LOST'', 3), (''PS_UNDEAD'', 4), (''PS_DEAD'', 5),
      (''PS_IDLE'', 6)]"

definition PGRAB_flags :: "(string \<times> nat) list" where
  "PGRAB_flags =
     [(''PGRAB_RETAIN'', 0x01), (''PGRAB_FORCE'', 0x02), (''PGRAB_RDONLY'', 0x04),
      (''PGRAB_NOSTOP'', 0x08)]"

definition C_errors :: "(string \<times> int) list" where
  "C_errors =
     [(''C_STRANGE'', - 1), (''C_FORK'', 1), (''C_PERM'', 2), (''C_NOEXEC'', 3), (''C_INTR'', 4),
      (''C_LP64'', 5), (''C_NOENT'', 6)]"

definition PRELEASE_flags :: "(string \<times> nat) list" where
  "PRELEASE_flags =
     [(''PRELEASE_CLEAR'', 0x10), (''PRELEASE_RETAIN'', 0x20), (''PRELEASE_HANG'', 0x40),
      (''PRELEASE_KILL'', 0x80)]"

definition BIND_flags :: "(string \<times> nat) list" where
  "BIND_flags =
     [(''BIND_LOCAL'', 0x0001), (''BIND_GLOBAL'', 0x0002), (''BIND_WEAK'', 0x0004)]"

definition TYPE_flags :: "(string \<times> nat) list" where
  "TYPE_flags =
     [(''TYPE_NOTYPE'', 0x0100), (''TYPE_OBJECT'', 0x0200), (''TYPE_FUNC'', 0x0400),
      (''TYPE_SECTION'', 0x0800), (''TYPE_FILE'', 0x1000)]"

text \<open>The header for Solaris.\<close>

definition Solaris_PS_values :: "(string \<times> nat) list" where
  "Solaris_PS_values =
     [(''PS_RUN'', 1), (''PS_STOP'', 2), (''PS_LOST'', 3), (''PS_UNDEAD'', 4), (''PS_DEAD'', 5),
      (''PS_IDLE'', 6)]"

definition Solaris_PGRAB_flags :: "(string \<times> nat) list" where
  "Solaris_PGRAB_flags =
     [(''PGRAB_RETAIN'', 0x01), (''PGRAB_FORCE'', 0x02), (''PGRAB_RDONLY'', 0x04),
      (''PGRAB_NOSTOP'', 0x08)]"

definition Solaris_C_errors :: "(string \<times> int) list" where
  "Solaris_C_errors =
     [(''C_STRANGE'', - 1), (''C_FORK'', 1), (''C_PERM'', 2), (''C_NOEXEC'', 3), (''C_INTR'', 4),
      (''C_LP64'', 5), (''C_NOENT'', 6)]"

definition G_errors :: "(string \<times> int) list" where
  "G_errors =
     [(''G_STRANGE'', - 1), (''G_NOPROC'', 1), (''G_NOCORE'', 2), (''G_NOPROCORCORE'', 3),
      (''G_NOEXEC'', 4), (''G_ZOMB'', 5), (''G_PERM'', 6), (''G_BUSY'', 7), (''G_SYS'', 8),
      (''G_SELF'', 9), (''G_INTR'', 10), (''G_LP64'', 11), (''G_FORMAT'', 12), (''G_ELF'', 13),
      (''G_NOTE'', 14), (''G_ISAINVAL'', 15), (''G_BADLWPS'', 16), (''G_NOFD'', 17)]"

definition Solaris_PRELEASE_flags :: "(string \<times> nat) list" where
  "Solaris_PRELEASE_flags =
     [(''PRELEASE_CLEAR'', 0x10), (''PRELEASE_RETAIN'', 0x20), (''PRELEASE_HANG'', 0x40),
      (''PRELEASE_KILL'', 0x80)]"

definition AI_values :: "(string \<times> nat) list" where
  "AI_values =
     [(''AI_INPUT'', 1), (''AI_OUTPUT'', 2), (''AI_INOUT'', 3)]"

definition Solaris_BIND_flags :: "(string \<times> nat) list" where
  "Solaris_BIND_flags =
     [(''BIND_LOCAL'', 0x0001), (''BIND_GLOBAL'', 0x0002), (''BIND_WEAK'', 0x0004)]"

definition Solaris_TYPE_flags :: "(string \<times> nat) list" where
  "Solaris_TYPE_flags =
     [(''TYPE_NOTYPE'', 0x0100), (''TYPE_OBJECT'', 0x0200), (''TYPE_FUNC'', 0x0400),
      (''TYPE_SECTION'', 0x0800), (''TYPE_FILE'', 0x1000)]"

definition PR_ARG_flags :: "(string \<times> nat) list" where
  "PR_ARG_flags =
     [(''PR_ARG_PIDS'', 0x1), (''PR_ARG_CORES'', 0x2)]"

text \<open>Names of load objects are pointers that are never followed: an address of any width.\<close>

definition PR_OBJ :: "(string \<times> 'a::len word) list" where
  "PR_OBJ =
     [(''PR_OBJ_EXEC'', 0), (''PR_OBJ_LDSO'', 1), (''PR_OBJ_EVERY'', - 1)]"

definition Solaris_PR_OBJ :: "(string \<times> 'a::len word) list" where
  "Solaris_PR_OBJ =
     [(''PR_OBJ_EXEC'', 0), (''PR_OBJ_LDSO'', 1), (''PR_OBJ_EVERY'', - 1)]"

definition PS_OBJ :: "(string \<times> 'a::len word) list" where
  "PS_OBJ =
     [(''PS_OBJ_EXEC'', 0x0), (''PS_OBJ_LDSO'', 0x1)]"

section \<open>The two versions agree\<close>

lemma versions_agree:
  "Solaris_PS_values = PS_values" "Solaris_PGRAB_flags = PGRAB_flags" "Solaris_C_errors = C_errors"
  "Solaris_PRELEASE_flags = PRELEASE_flags" "Solaris_BIND_flags = BIND_flags" "Solaris_TYPE_flags = TYPE_flags"
  "Solaris_PR_OBJ = PR_OBJ"
  by (simp_all only: Solaris_PS_values_def PS_values_def Solaris_PGRAB_flags_def PGRAB_flags_def Solaris_C_errors_def
      C_errors_def Solaris_PRELEASE_flags_def PRELEASE_flags_def Solaris_BIND_flags_def BIND_flags_def
      Solaris_TYPE_flags_def TYPE_flags_def Solaris_PR_OBJ_def PR_OBJ_def)

text \<open>The names of load objects match those of \<^verbatim>\<open>proc_service.h\<close>, and no two are the same pointer.\<close>

lemma object_names:
  "map snd PS_OBJ = map snd (butlast (PR_OBJ :: (string \<times> 'a::len word) list))"
  "1 < LENGTH('a) \<Longrightarrow> distinct (map snd (PR_OBJ :: (string \<times> 'a::len word) list))"
proof -
  show "map snd PS_OBJ = map snd (butlast (PR_OBJ :: (string \<times> 'a word) list))"
    by (simp add: PS_OBJ_def PR_OBJ_def)
  assume "1 < LENGTH('a)"
  then have "bit (- 1 :: 'a word) 1" by simp
  moreover have "\<not> bit (1 :: 'a word) 1" by (simp add: bit_1_iff)
  ultimately have "(1 :: 'a word) \<noteq> - 1" by metis
  then show "distinct (map snd (PR_OBJ :: (string \<times> 'a word) list))" by (simp add: PR_OBJ_def)
qed

lemma errors_distinct: "list_all (\<lambda>t. distinct (map snd t) \<and> 0 \<notin> set (map snd t)) [C_errors, G_errors]"
  by (simp add: C_errors_def G_errors_def)

end
