(* ===== verification/Darwin_Constants.thy ===== *)
theory Darwin_Constants
  imports Darwin_Gelf Interface_Constants "HOL-Library.AList"
begin

unbundle bit_operations_syntax

text \<open>
  The constants of \<^verbatim>\<open>darwin/elf.h\<close>, \<^verbatim>\<open>darwin/link.h\<close> and \<^verbatim>\<open>darwin/procfs.h\<close>, as
  tables in the order of the headers, with the rules about them that the headers state in
  their comments.
\<close>

section \<open>Enumerations of the ELF header\<close>











definition PF_flags :: "(string \<times> nat) list" where
  "PF_flags =
     [(''PF_R'', 0x4), (''PF_W'', 0x2), (''PF_X'', 0x1)]"

definition PF_masks :: "(string \<times> nat) list" where
  "PF_masks =
     [(''PF_MASKOS'', 0x0ff00000), (''PF_MASKPROC'', 0xf0000000), (''PF_SUNW_FAILURE'', 0x00100000)]"



definition SHF_flags :: "(string \<times> nat) list" where
  "SHF_flags =
     [(''SHF_WRITE'', 0x01), (''SHF_ALLOC'', 0x02), (''SHF_EXECINSTR'', 0x04), (''SHF_MERGE'', 0x10),
      (''SHF_STRINGS'', 0x20), (''SHF_INFO_LINK'', 0x40), (''SHF_LINK_ORDER'', 0x80),
      (''SHF_OS_NONCONFORMING'', 0x100), (''SHF_GROUP'', 0x200), (''SHF_TLS'', 0x400)]"

definition SHF_masks :: "(string \<times> nat) list" where
  "SHF_masks =
     [(''SHF_MASKOS'', 0x0ff00000), (''SHF_MASKPROC'', 0xf0000000)]"


definition STB_values :: "(string \<times> nat) list" where
  "STB_values =
     [(''STB_LOCAL'', 0), (''STB_GLOBAL'', 1), (''STB_WEAK'', 2), (''STB_NUM'', 3)]"


definition STT_values :: "(string \<times> nat) list" where
  "STT_values =
     [(''STT_NOTYPE'', 0), (''STT_OBJECT'', 1), (''STT_FUNC'', 2), (''STT_SECTION'', 3), (''STT_FILE'', 4),
      (''STT_COMMON'', 5), (''STT_TLS'', 6), (''STT_NUM'', 7)]"




definition SF1_values :: "(string \<times> nat) list" where
  "SF1_values =
     [(''SF1_SUNW_FPKNWN'', 0x001), (''SF1_SUNW_FPUSED'', 0x002), (''SF1_SUNW_MASK'', 0x003)]"


section \<open>Constants of the runtime linker\<close>



definition DF_flags :: "(string \<times> nat) list" where
  "DF_flags =
     [(''DF_ORIGIN'', 0x00000001), (''DF_SYMBOLIC'', 0x00000002), (''DF_TEXTREL'', 0x00000004),
      (''DF_BIND_NOW'', 0x00000008), (''DF_STATIC_TLS'', 0x00000010)]"

definition DF_P1_flags :: "(string \<times> nat) list" where
  "DF_P1_flags =
     [(''DF_P1_LAZYLOAD'', 0x00000001), (''DF_P1_GROUPPERM'', 0x00000002)]"

definition DF_1_flags :: "(string \<times> nat) list" where
  "DF_1_flags =
     [(''DF_1_NOW'', 0x00000001), (''DF_1_GLOBAL'', 0x00000002), (''DF_1_GROUP'', 0x00000004),
      (''DF_1_NODELETE'', 0x00000008), (''DF_1_LOADFLTR'', 0x00000010), (''DF_1_INITFIRST'', 0x00000020),
      (''DF_1_NOOPEN'', 0x00000040), (''DF_1_ORIGIN'', 0x00000080), (''DF_1_DIRECT'', 0x00000100),
      (''DF_1_TRANS'', 0x00000200), (''DF_1_INTERPOSE'', 0x00000400), (''DF_1_NODEFLIB'', 0x00000800),
      (''DF_1_NODUMP'', 0x00001000), (''DF_1_CONFALT'', 0x00002000), (''DF_1_ENDFILTEE'', 0x00004000),
      (''DF_1_DISPRELDNE'', 0x00008000), (''DF_1_DISPRELPND'', 0x00010000), (''DF_1_NODIRECT'', 0x00020000),
      (''DF_1_IGNMULDEF'', 0x00040000), (''DF_1_NOKSYMS'', 0x00080000), (''DF_1_NOHDR'', 0x00100000),
      (''DF_1_NORELOC'', 0x00400000)]"

definition DTF_1_flags :: "(string \<times> nat) list" where
  "DTF_1_flags =
     [(''DTF_1_PARINIT'', 0x00000001), (''DTF_1_CONFEXP'', 0x00000002)]"


definition VER_FLG_flags :: "(string \<times> nat) list" where
  "VER_FLG_flags =
     [(''VER_FLG_BASE'', 0x1), (''VER_FLG_WEAK'', 0x2)]"






definition EB_values :: "(string \<times> nat) list" where
  "EB_values =
     [(''EB_NULL'', 0), (''EB_DYNAMIC'', 1), (''EB_LDSO_BASE'', 2), (''EB_ARGV'', 3), (''EB_ENVP'', 4),
      (''EB_AUXV'', 5), (''EB_DEVZERO'', 6), (''EB_PAGESIZE'', 7), (''EB_MAX'', 8)]"

definition EB_sizes :: "(string \<times> nat) list" where
  "EB_sizes =
     [(''EB_MAX_SIZE32'', 64), (''EB_MAX_SIZE64'', 128)]"

section \<open>Constants of the process control library\<close>



definition PR_lwp_flags :: "(string \<times> nat) list" where
  "PR_lwp_flags =
     [(''PR_STOPPED'', 0x00000001), (''PR_ISTOP'', 0x00000002), (''PR_DSTOP'', 0x00000004),
      (''PR_STEP'', 0x00000008), (''PR_ASLEEP'', 0x00000010), (''PR_PCINVAL'', 0x00000020),
      (''PR_ASLWP'', 0x00000040), (''PR_AGENT'', 0x00000080), (''PR_DETACH'', 0x00000100),
      (''PR_DAEMON'', 0x00000200)]"

definition PR_process_flags :: "(string \<times> nat) list" where
  "PR_process_flags =
     [(''PR_ISSYS'', 0x00001000), (''PR_VFORKP'', 0x00002000), (''PR_ORPHAN'', 0x00004000)]"

definition PR_mode_flags :: "(string \<times> nat) list" where
  "PR_mode_flags =
     [(''PR_FORK'', 0x00100000), (''PR_RLC'', 0x00200000), (''PR_KLC'', 0x00400000),
      (''PR_ASYNC'', 0x00800000), (''PR_MSACCT'', 0x01000000), (''PR_BPTADJ'', 0x02000000),
      (''PR_PTRACE'', 0x04000000), (''PR_MSFORK'', 0x08000000), (''PR_IDLE'', 0x10000000)]"

definition MA_flags :: "(string \<times> nat) list" where
  "MA_flags =
     [(''MA_READ'', 0x04), (''MA_WRITE'', 0x02), (''MA_EXEC'', 0x01), (''MA_SHARED'', 0x08),
      (''MA_ANON'', 0x40), (''MA_ISM'', 0x80), (''MA_NORESERVE'', 0x100), (''MA_SHM'', 0x200),
      (''MA_RESERVED1'', 0x400)]"

section \<open>Rules\<close>


definition flag_bits :: "nat list \<Rightarrow> bool" where
  "flag_bits vs \<longleftrightarrow> distinct vs \<and> list_all (\<lambda>v. v \<in> set (map (\<lambda>k. 2 ^ k) [0..<32])) vs"

definition value_of :: "(string \<times> nat) list \<Rightarrow> string \<Rightarrow> nat" where
  "value_of t n = the (map_of t n)"

definition word_of :: "(string \<times> nat) list \<Rightarrow> string \<Rightarrow> 32 word" where
  "word_of t n = of_nat (value_of t n)"

definition or_all :: "(string \<times> nat) list \<Rightarrow> 32 word" where
  "or_all t = foldr (OR) (map (\<lambda>(n, v). of_nat v) t) 0"






lemma powers: "map (\<lambda>k. (2 :: nat) ^ k) [0..<32] =
     [1, 2, 4, 8, 16, 32, 64, 128, 256, 512, 1024, 2048, 4096, 8192, 16384, 32768, 65536, 131072, 262144,
      524288, 1048576, 2097152, 4194304, 8388608, 16777216, 33554432, 67108864, 134217728, 268435456,
      536870912, 1073741824, 2147483648]"
  by (simp add: upt_rec)

lemma flag_bits_iff: "flag_bits vs \<longleftrightarrow> distinct vs \<and> list_all (\<lambda>v. v \<in>
     {1, 2, 4, 8, 16, 32, 64, 128, 256, 512, 1024, 2048, 4096, 8192, 16384, 32768, 65536, 131072, 262144,
      524288, 1048576, 2097152, 4194304, 8388608, 16777216, 33554432, 67108864, 134217728, 268435456,
      536870912, 1073741824, 2147483648}) vs"
  by (simp only: flag_bits_def powers list.set)



lemma bits: "list_all (\<lambda>t. flag_bits (map snd t)) [PF_flags, SHF_flags, DF_flags, DF_P1_flags, DF_1_flags, DTF_1_flags,
    VER_FLG_flags, PR_lwp_flags @ PR_process_flags @ PR_mode_flags, MA_flags, PGRAB_flags @ PRELEASE_flags,
    BIND_flags @ TYPE_flags, LWP_flags, ELF_F_flags, PR_ARG_flags, tl rd_flags_e]"
  by (simp add: flag_bits_iff PF_flags_def SHF_flags_def DF_flags_def DF_P1_flags_def DF_1_flags_def DTF_1_flags_def
      VER_FLG_flags_def PR_lwp_flags_def PR_process_flags_def PR_mode_flags_def MA_flags_def PGRAB_flags_def
      PRELEASE_flags_def BIND_flags_def TYPE_flags_def LWP_flags_def ELF_F_flags_def PR_ARG_flags_def
      rd_flags_e_def)










lemma masks:
  "word_of PF_masks ''PF_MASKOS'' AND word_of PF_masks ''PF_MASKPROC'' = 0"
  "or_all PF_flags AND (word_of PF_masks ''PF_MASKOS'' OR word_of PF_masks ''PF_MASKPROC'') = 0"
  "word_of PF_masks ''PF_SUNW_FAILURE'' AND word_of PF_masks ''PF_MASKOS'' = word_of PF_masks ''PF_SUNW_FAILURE''"
  "or_all SHF_flags AND (word_of SHF_masks ''SHF_MASKOS'' OR word_of SHF_masks ''SHF_MASKPROC'') = 0"
  by (simp_all add: word_of_def value_of_def or_all_def PF_masks_def PF_flags_def SHF_masks_def SHF_flags_def)

lemma symbol_bits:
  "map snd BIND_flags = map (\<lambda>(n, v). 2 ^ v) (butlast STB_values)"
  "map snd TYPE_flags = map (\<lambda>(n, v). 2 ^ (v + 8)) (take (length TYPE_flags) STT_values)"
  by (simp_all add: BIND_flags_def STB_values_def TYPE_flags_def STT_values_def)




lemma combined_choices:
  "word_of AI_values ''AI_INPUT'' OR word_of AI_values ''AI_OUTPUT'' = word_of AI_values ''AI_INOUT''"
  "word_of rd_skip_e ''RD_RESOLVE_STEP'' OR word_of rd_skip_e ''RD_RESOLVE_TARGET'' = word_of rd_skip_e ''RD_RESOLVE_TARGET_STEP''"
  by (simp_all add: word_of_def value_of_def AI_values_def rd_skip_e_def enumerators_def upt_rec)

lemma boot_sizes:
  "map_option ((*) (value_of EB_values ''EB_MAX'')) (sizeof (abi_ilp32 4) Elf32_Boot) = Some (value_of EB_sizes ''EB_MAX_SIZE32'')"
  "map_option ((*) (value_of EB_values ''EB_MAX'')) (sizeof abi_lp64 Elf64_Boot) = Some (value_of EB_sizes ''EB_MAX_SIZE64'')"
proof -
  have "sizeof (abi_ilp32 4) Elf32_Boot = Some 8" "sizeof abi_lp64 Elf64_Boot = Some 16" by code_simp+
  then show "map_option ((*) (value_of EB_values ''EB_MAX'')) (sizeof (abi_ilp32 4) Elf32_Boot) = Some (value_of EB_sizes ''EB_MAX_SIZE32'')"
    "map_option ((*) (value_of EB_values ''EB_MAX'')) (sizeof abi_lp64 Elf64_Boot) = Some (value_of EB_sizes ''EB_MAX_SIZE64'')"
    by (simp_all add: value_of_def EB_values_def EB_sizes_def)
qed



text \<open>
  The flags are single bits, no two of a group alike, and disjoint from the masks for
  operating systems and processors. The bits that select symbols are in the order of the
  \<^verbatim>\<open>STB\<close> and \<^verbatim>\<open>STT\<close> constants, as \<^verbatim>\<open>darwin/libproc.h\<close> demands: the bit is two to the
  constant. The sizes for the boot vector are its number of entries times the size of one. The
  flags for Darwin and for Solaris are the same, and the names of load objects match those of
  \<^verbatim>\<open>proc_service.h\<close>, as both versions of \<^verbatim>\<open>libproc.h\<close> require.
\<close>

lemma flags_sound:
  "list_all (\<lambda>t. flag_bits (map snd t)) [PF_flags, SHF_flags, DF_flags, DF_P1_flags, DF_1_flags, DTF_1_flags,
     VER_FLG_flags, PR_lwp_flags @ PR_process_flags @ PR_mode_flags, MA_flags, PGRAB_flags @ PRELEASE_flags,
     BIND_flags @ TYPE_flags, LWP_flags, ELF_F_flags, PR_ARG_flags, tl rd_flags_e] \<and>
   word_of PF_masks ''PF_MASKOS'' AND word_of PF_masks ''PF_MASKPROC'' = 0 \<and>
   or_all PF_flags AND (word_of PF_masks ''PF_MASKOS'' OR word_of PF_masks ''PF_MASKPROC'') = 0 \<and>
   word_of PF_masks ''PF_SUNW_FAILURE'' AND word_of PF_masks ''PF_MASKOS'' = word_of PF_masks ''PF_SUNW_FAILURE'' \<and>
   or_all SHF_flags AND (word_of SHF_masks ''SHF_MASKOS'' OR word_of SHF_masks ''SHF_MASKPROC'') = 0 \<and>
   Solaris_PGRAB_flags = PGRAB_flags \<and> Solaris_PRELEASE_flags = PRELEASE_flags \<and>
   Solaris_BIND_flags = BIND_flags \<and> Solaris_TYPE_flags = TYPE_flags \<and>
   Solaris_PR_OBJ = (PR_OBJ :: (string \<times> 64 word) list) \<and>
   map snd PS_OBJ = map snd (butlast (PR_OBJ :: (string \<times> 64 word) list)) \<and>
   distinct (map snd (PR_OBJ :: (string \<times> 64 word) list)) \<and>
   word_of AI_values ''AI_INPUT'' OR word_of AI_values ''AI_OUTPUT'' = word_of AI_values ''AI_INOUT'' \<and>
   word_of rd_skip_e ''RD_RESOLVE_STEP'' OR word_of rd_skip_e ''RD_RESOLVE_TARGET'' = word_of rd_skip_e ''RD_RESOLVE_TARGET_STEP'' \<and>
   map snd BIND_flags = map (\<lambda>(n, v). 2 ^ v) (butlast STB_values) \<and>
   map snd TYPE_flags = map (\<lambda>(n, v). 2 ^ (v + 8)) (take (length TYPE_flags) STT_values) \<and>
   map_option ((*) (value_of EB_values ''EB_MAX'')) (sizeof (abi_ilp32 4) Elf32_Boot) = Some (value_of EB_sizes ''EB_MAX_SIZE32'') \<and>
   map_option ((*) (value_of EB_values ''EB_MAX'')) (sizeof abi_lp64 Elf64_Boot) = Some (value_of EB_sizes ''EB_MAX_SIZE64'')"
  using bits by (simp add: masks symbol_bits boot_sizes versions_agree object_names combined_choices)

end
