(* ===== verification/Process_Structures.thy ===== *)
theory Process_Structures
  imports Darwin_Layout Interface_Constants
begin

text \<open>
  The structures a debugger finds in the memory of a process or exchanges with the libraries for
  process control: \<^verbatim>\<open>darwin/link.h\<close>, \<^verbatim>\<open>lwp.h\<close>, \<^verbatim>\<open>rtld_db.h\<close>, \<^verbatim>\<open>proc_service.h\<close>, \<^verbatim>\<open>procfs.h\<close>,
  \<^verbatim>\<open>libelf.h\<close> and the two \<^verbatim>\<open>libproc.h\<close>. Unlike those of a file they hold pointers and types of the
  machine, so their layout depends on the data model; the names that end in 32 are the views of
  a 64-bit program on a 32-bit process.
\<close>

section \<open>Members\<close>

text \<open>A pointer is as wide as a \<^verbatim>\<open>long\<close> in every data model here, an enumeration as an \<^verbatim>\<open>int\<close>.\<close>

datatype member =
    Elf cfield
  | Basic ctype
  | Pointer
  | Enumeration
  | Vector nat ctype
  | Struct "(string \<times> member) list"
  | Union "(string \<times> member) list"

definition union_dims :: "(nat \<times> nat) list \<Rightarrow> nat \<times> nat" where
  "union_dims ds = (align_up (struct_align ds) (max_of (map fst ds)), struct_align ds)"

primrec member_dims :: "abi \<Rightarrow> member \<Rightarrow> (nat \<times> nat) option" where
  "member_dims A (Elf f) = field_dims A f"
| "member_dims A (Basic c) = Some (csize A c, calign A c)"
| "member_dims A Pointer = Some (long_size A, long_size A)"
| "member_dims A Enumeration = Some (csize A SInt, calign A SInt)"
| "member_dims A (Vector n c) = Some (n * csize A c, calign A c)"
| "member_dims A (Struct ms) =
     map_option (\<lambda>ds. (snd (laid_out ds), struct_align ds)) (those (map snd (map (map_prod (\<lambda>n. n) (member_dims A)) ms)))"
| "member_dims A (Union ms) = map_option union_dims (those (map snd (map (map_prod (\<lambda>n. n) (member_dims A)) ms)))"

definition members_dims :: "abi \<Rightarrow> (string \<times> member) list \<Rightarrow> (nat \<times> nat) list option" where
  "members_dims A ms = those (map (\<lambda>(_, m). member_dims A m) ms)"

definition layout_of :: "abi \<Rightarrow> (string \<times> member) list \<Rightarrow> ((nat \<times> nat) list \<times> nat) option" where
  "layout_of A ms = map_option laid_out (members_dims A ms)"

definition size_of :: "abi \<Rightarrow> (string \<times> member) list \<Rightarrow> nat option" where
  "size_of A ms = map_option snd (layout_of A ms)"

text \<open>Typedefs of \<^verbatim>\<open>darwin_shim.h\<close> and \<^verbatim>\<open>proc_service.h\<close>.\<close>

definition ulong_t :: ctype where
  "ulong_t = UInt"

definition time32_t :: ctype where
  "time32_t = SInt"

definition Lmid_t :: ctype where
  "Lmid_t = ulong_t"

definition psaddr_t :: ctype where
  "psaddr_t = ULong"

section \<open>The runtime linker\<close>

definition link_map :: "(string \<times> member) list" where
  "link_map = [(''l_addr'', Basic ULong), (''l_name'', Pointer), (''l_ld'', Pointer), (''l_next'', Pointer),
     (''l_prev'', Pointer), (''l_refname'', Pointer)]"

definition link_map32 :: "(string \<times> member) list" where
  "link_map32 = [(''l_addr'', Elf (Typed Elf32_Word)), (''l_name'', Elf (Typed Elf32_Addr)), (''l_ld'', Elf (Typed Elf32_Addr)),
     (''l_next'', Elf (Typed Elf32_Addr)), (''l_prev'', Elf (Typed Elf32_Addr)), (''l_refname'', Elf (Typed Elf32_Addr))]"

definition r_debug :: "(string \<times> member) list" where
  "r_debug = [(''r_version'', Basic SInt), (''r_map'', Pointer), (''r_brk'', Basic ULong), (''r_state'', Enumeration),
     (''r_ldbase'', Basic ULong), (''r_ldsomap'', Pointer), (''r_rdevent'', Enumeration), (''r_flags'', Enumeration)]"

definition r_debug32 :: "(string \<times> member) list" where
  "r_debug32 = [(''r_version'', Elf (Typed Elf32_Word)), (''r_map'', Elf (Typed Elf32_Addr)), (''r_brk'', Elf (Typed Elf32_Word)),
     (''r_state'', Enumeration), (''r_ldbase'', Elf (Typed Elf32_Word)), (''r_ldsomap'', Elf (Typed Elf32_Addr)),
     (''r_rdevent'', Enumeration), (''r_flags'', Enumeration)]"

definition rd_notify :: "(string \<times> member) list" where
  "rd_notify = [(''type'', Enumeration), (''u'', Union [(''bptaddr'', Basic psaddr_t), (''syscallno'', Basic SLong)])]"

definition rd_event_msg :: "(string \<times> member) list" where
  "rd_event_msg = [(''type'', Enumeration), (''u'', Union [(''state'', Enumeration)])]"

definition rd_loadobj :: "(string \<times> member) list" where
  "rd_loadobj = [(''rl_nameaddr'', Basic psaddr_t), (''rl_flags'', Basic UInt), (''rl_base'', Basic psaddr_t),
     (''rl_data_base'', Basic psaddr_t), (''rl_lmident'', Basic Lmid_t), (''rl_refnameaddr'', Basic psaddr_t),
     (''rl_plt_base'', Basic psaddr_t), (''rl_plt_size'', Basic UInt), (''rl_bend'', Basic psaddr_t),
     (''rl_padstart'', Basic psaddr_t), (''rl_padend'', Basic psaddr_t), (''rl_dynamic'', Basic psaddr_t),
     (''rl_tlsmodid'', Basic ULong)]"

definition rd_plt_info :: "(string \<times> member) list" where
  "rd_plt_info = [(''pi_skip_method'', Enumeration), (''pi_nstep'', Basic SLong), (''pi_target'', Basic psaddr_t),
     (''pi_baddr'', Basic psaddr_t), (''pi_flags'', Basic UInt)]"

section \<open>Processes\<close>

text \<open>\<^verbatim>\<open>struct timespec\<close> is a structure of the system: its members are an argument.\<close>

definition lwpinfo :: "(string \<times> member) list \<Rightarrow> (string \<times> member) list" where
  "lwpinfo timespec = [(''lwp_utime'', Struct timespec), (''lwp_stime'', Struct timespec), (''lwpinfo_pad'', Vector 64 SLong)]"

definition timespec32 :: "(string \<times> member) list" where
  "timespec32 = [(''tv_sec'', Basic time32_t), (''tv_nsec'', Basic SInt)]"

definition lwpinfo32 :: "(string \<times> member) list" where
  "lwpinfo32 = [(''lwp_utime'', Struct timespec32), (''lwp_stime'', Struct timespec32), (''lwpinfo_pad'', Vector 64 SInt)]"

text \<open>Types of the system that these structures use are arguments.\<close>

definition pstatus :: "ctype \<Rightarrow> (string \<times> member) list" where
  "pstatus pid_t = [(''pr_flags'', Basic SInt), (''pr_pid'', Basic pid_t), (''pr_dmodel'', Elf (Bytes 1))]"

definition ssd :: "(string \<times> member) list" where
  "ssd = [(''sel'', Basic UInt), (''bo'', Basic UInt), (''ls'', Basic UInt), (''acc1'', Basic UInt), (''acc2'', Basic UInt)]"

definition ps_sym_t :: "abi \<Rightarrow> (string \<times> cfield) list" where
  "ps_sym_t A = (if def_LP64 A then Elf64_Sym else Elf32_Sym)"

definition prmap :: "(string \<times> member) list" where
  "prmap = [(''pr_vaddr'', Basic ULongLong), (''pr_mflags'', Basic SInt)]"

definition prsyminfo :: "(string \<times> member) list" where
  "prsyminfo = [(''prs_object'', Pointer), (''prs_name'', Pointer), (''prs_lmid'', Basic Lmid_t)]"

definition argdes_t :: "(string \<times> member) list" where
  "argdes_t = [(''arg_value'', Basic SLong), (''arg_object'', Pointer), (''arg_type'', Elf (Bytes 1)),
     (''arg_inout'', Elf (Bytes 1)), (''arg_size'', Basic UShort)]"

definition Elf_Arsym :: "ctype \<Rightarrow> (string \<times> member) list" where
  "Elf_Arsym size_t = [(''as_name'', Pointer), (''as_off'', Basic size_t), (''as_hash'', Basic ULong)]"

definition Elf_Arhdr :: "ctype \<Rightarrow> ctype \<Rightarrow> ctype \<Rightarrow> ctype \<Rightarrow> ctype \<Rightarrow> (string \<times> member) list" where
  "Elf_Arhdr time_t uid_t gid_t mode_t off_t = [(''ar_name'', Pointer), (''ar_date'', Basic time_t), (''ar_uid'', Basic uid_t),
     (''ar_gid'', Basic gid_t), (''ar_mode'', Basic mode_t), (''ar_size'', Basic off_t), (''ar_rawname'', Pointer)]"

definition Elf_Data :: "ctype \<Rightarrow> ctype \<Rightarrow> (string \<times> member) list" where
  "Elf_Data size_t off_t = [(''d_buf'', Pointer), (''d_type'', Enumeration), (''d_size'', Basic size_t), (''d_off'', Basic off_t),
     (''d_align'', Basic size_t), (''d_version'', Basic UInt)]"

section \<open>Layouts\<close>

text \<open>The placement is sound for these structures as well.\<close>

lemma member_dims_pos:
  assumes A: "sane_abi A" shows "member_dims A m = Some (z, a) \<Longrightarrow> 0 < a"
proof (cases m)
  case (Elf f)
  then show "member_dims A m = Some (z, a) \<Longrightarrow> 0 < a" using field_dims_pos [OF A] by simp
qed (use A calign_pos [OF A] in \<open>auto simp: sane_abi_def struct_align_def union_dims_def max_of_pos\<close>)

lemma members_dims_pos:
  assumes "sane_abi A" and "members_dims A ms = Some ds"
  shows "\<forall>(z, a) \<in> set ds. 0 < a"
proof -
  have "\<exists>m. member_dims A m = Some (z, a)" if "(z, a) \<in> set ds" for z a
    using those_map [OF assms(2) [unfolded members_dims_def]] that
    by (auto simp: list_all2_conv_all_nth in_set_conv_nth split: prod.splits) (metis prod.collapse)
  then show ?thesis using member_dims_pos [OF assms(1)] by blast
qed

lemma members_sound:
  assumes "sane_abi A" and "members_dims A ms = Some ds" and "layout_of A ms = Some (xs, sz)"
  shows "list_all2 (\<lambda>(z, a) (p, z'). z' = z \<and> a dvd p) ds xs \<and>
    sorted_wrt (\<lambda>(p1, z1) (p2, z2). p1 + z1 \<le> p2) xs \<and> (\<forall>(p, z) \<in> set xs. p + z \<le> sz) \<and>
    struct_align ds dvd sz"
  using laid_out_sound [OF members_dims_pos [OF assms(1,2)], of xs sz] assms(2,3) by (simp add: layout_of_def)

text \<open>Each view with the structure it is a view of.\<close>

definition views :: "((string \<times> member) list \<times> (string \<times> member) list) list" where
  "views = [(link_map32, link_map), (r_debug32, r_debug),
     (lwpinfo32, lwpinfo [(''tv_sec'', Basic SLong), (''tv_nsec'', Basic SLong)])]"

lemma views_match:
  "list_all (\<lambda>(v, n). map fst v = map fst n \<and> layout_of abi_lp64 v = layout_of (abi_ilp32 4) n \<and>
     size_of abi_lp64 v \<noteq> size_of abi_lp64 n) views"
  "list_all (\<lambda>(v, n). map fst v = map fst n \<and> layout_of abi_lp64 v = layout_of (abi_ilp32 8) n \<and>
     size_of abi_lp64 v \<noteq> size_of abi_lp64 n) views"
  by code_simp+

text \<open>The other structures, with their sizes in the two data models.\<close>

definition machine_structures :: "((string \<times> member) list \<times> nat \<times> nat) list" where
  "machine_structures =
     [(link_map, 24, 48), (r_debug, 32, 56), (rd_notify, 8, 16), (rd_event_msg, 8, 8), (rd_loadobj, 52, 104),
      (rd_plt_info, 20, 40), (ssd, 20, 20), (prsyminfo, 12, 24), (argdes_t, 12, 24), (Elf_Arsym ULong, 12, 24),
      (pstatus SInt, 12, 12), (Elf_Arhdr SLong UInt UInt UInt SLong, 28, 48), (Elf_Data ULong SLong, 24, 48)]"

lemma machine_sizes:
  "list_all (\<lambda>(ms, z32, z64). size_of (abi_ilp32 4) ms = Some z32 \<and> size_of abi_lp64 ms = Some z64) machine_structures"
  "list_all (\<lambda>(ms, z32, z64). size_of (abi_ilp32 8) ms = Some z32 \<and> size_of abi_lp64 ms = Some z64) machine_structures"
  by code_simp+

text \<open>
  The address of a mapping has eight bytes also in a 32-bit program, as its comment wants; the
  addresses of the runtime linker's interface do not.
\<close>

lemma mapping_addresses:
  "member_dims (abi_ilp32 lla) (snd (hd prmap)) = Some (8, lla)" "member_dims (abi_ilp32 lla) (snd (hd rd_loadobj)) = Some (4, 4)"
  by (simp_all add: prmap_def rd_loadobj_def psaddr_t_def calign_def abi_ilp32_def)

section \<open>Properties\<close>

text \<open>
  C39. The structures have the sizes of the file format and no padding, in the 32-bit and in the
  64-bit data model, with the fields in the same places, so they can be laid over a file. The
  structures for versions and for symbol information are even the same in both classes. Only the
  move entries end in padding that depends on the compiler. The structures of the runtime linker
  and of light-weight processes depend on the data model; for them the views that end in 32
  have the members of the native structure in the places they have in a 32-bit process, so a
  64-bit program can lay them over its memory, and cannot use the native structure there.
\<close>

theorem structure_sizes:
  assumes "lla = 4 \<or> lla = 8"
  shows "list_all (\<lambda>(fs, z). sizeof abi_lp64 fs = Some z \<and> padding_free abi_lp64 fs \<and> struct_of (abi_ilp32 lla) fs = struct_of abi_lp64 fs)
      structures \<and>
    list_all (\<lambda>(f, g). struct_of abi_lp64 f = struct_of abi_lp64 g)
      [(Elf32_Verdef, Elf64_Verdef), (Elf32_Verdaux, Elf64_Verdaux), (Elf32_Verneed, Elf64_Verneed),
       (Elf32_Vernaux, Elf64_Vernaux), (Elf32_Syminfo, Elf64_Syminfo)] \<and>
    list_all (\<lambda>(v, n). map fst v = map fst n \<and> layout_of abi_lp64 v = layout_of (abi_ilp32 lla) n \<and>
      size_of abi_lp64 v \<noteq> size_of abi_lp64 n) views \<and>
    sizeof abi_lp64 Elf32_Move = Some 24 \<and> sizeof (abi_ilp32 lla) Elf32_Move = Some (if lla = 4 then 20 else 24) \<and>
    sizeof abi_lp64 Elf64_Move = Some 32 \<and> sizeof (abi_ilp32 lla) Elf64_Move = Some (if lla = 4 then 28 else 32)"
proof -
  have "list_all (\<lambda>(fs, z). struct_of (abi_ilp32 lla) fs = struct_of abi_lp64 fs) structures"
    using assms structures_same by blast
  with structures_lp64 have "list_all (\<lambda>(fs, z). sizeof abi_lp64 fs = Some z \<and> padding_free abi_lp64 fs \<and>
      struct_of (abi_ilp32 lla) fs = struct_of abi_lp64 fs) structures"
    unfolding list_all_iff by blast
  moreover have "list_all (\<lambda>(v, n). map fst v = map fst n \<and> layout_of abi_lp64 v = layout_of (abi_ilp32 lla) n \<and>
      size_of abi_lp64 v \<noteq> size_of abi_lp64 n) views"
    using assms views_match by blast
  ultimately show ?thesis using versions_same move_sizes assms by force
qed

theorem structure_sizes_witness: "sizeof (abi_ilp32 4) Elf32_Move = Some 20 \<and> layout_of abi_lp64 r_debug32 = layout_of (abi_ilp32 4) r_debug"
  using structure_sizes [of 4] by (simp add: views_def)

end
