(* ===== verification/Spec2Isabelle.thy ===== *)
theory Spec2Isabelle
  imports Registry_Contract Reference_Counts Handle_Account Isolation Id_Threads Safety Command_Properties Data_Properties Darwin_Arch Darwin_Atomic Darwin_Gelf Darwin_Constants Process_Structures
begin

text \<open>
  A verification of TclDTrace, the Tcl binding to libdtrace: the extension itself
  (\<^verbatim>\<open>generic/dtrace.c\<close>, \<^verbatim>\<open>generic/dtrace.h\<close>) in full, and of the headers it ships for Darwin
  those that compute or describe data (\<^verbatim>\<open>arch.h\<close>, \<^verbatim>\<open>bitmap.h\<close>, \<^verbatim>\<open>darwin_shim.h\<close>,
  \<^verbatim>\<open>elftypes.h\<close>, \<^verbatim>\<open>elf.h\<close>, \<^verbatim>\<open>link.h\<close>, \<^verbatim>\<open>gelf.h\<close>, constants and structures of the others).

  \<^bold>\<open>The program.\<close> A script loads the extension (\<^verbatim>\<open>Dtrace_Init\<close>) and gets thirteen commands.
  \<^verbatim>\<open>open\<close> makes a handle, which the script knows by an integer; a hash table of the
  interpreter leads from the integer to a heap structure, \<^verbatim>\<open>handle_data\<close>. \<^verbatim>\<open>compile\<close> makes a
  program, known by an integer of a second table, with a pointer back to its handle. \<^verbatim>\<open>go\<close>
  registers procedures for the events of a trace and starts it; \<^verbatim>\<open>process\<close> lets libdtrace
  call the intermediate callbacks, which turn its data into Tcl words and call the procedures.
  These may call the commands again, and may close the very handle whose data is processed.
  \<^verbatim>\<open>aggregations\<close> collects printed records into a list, \<^verbatim>\<open>grab\<close> and \<^verbatim>\<open>launch\<close> keep
  processes in a growing vector until \<^verbatim>\<open>go\<close> lets them run. \<^verbatim>\<open>close\<close>, the deletion of the
  interpreter and the exit of the process take all of this down.

  \<^bold>\<open>How it is modelled.\<close> A piece of C code is a function on the state \<open>st\<close> with an outcome
  \<open>exec\<close>: it returns, calls \<^verbatim>\<open>Tcl_Panic\<close>, or does something undefined (\<open>Fault\<close>). The state
  holds the two counters, the heap of \<^verbatim>\<open>handle_data\<close> and \<^verbatim>\<open>dtrace_data\<close> by address, the
  association of interpreters with their data, results and error codes, reference counts of
  objects and the world of libdtrace. Following a pointer looks the address up; a freed one is
  a \<open>Fault\<close>. Addresses are never given out twice, so a dangling pointer is always seen.
  \<^item> \<open>Prelude\<close>: outcomes, \<open>ensures\<close> (returns, with a property) and \<open>allows\<close> (if it
    returns), decimal text, \<^verbatim>\<open>snprintf\<close>. \<open>Hash_Tables\<close>: the contract of a table as locales, and
    the code's tables. \<open>Dtrace_Types\<close>: the header's constants and structures, and the
    interfaces of libdtrace and Tcl as records of functions. \<open>State_Ops\<close>: access to the state,
    the macros \<^verbatim>\<open>objcCheck\<close>, \<^verbatim>\<open>handleCheck\<close>, \<^verbatim>\<open>libError\<close>, and the calls of libdtrace that
    run callbacks.
  \<^item> \<open>Proc_Vector\<close>: the vector of processes, against the locale \<open>growing_vector\<close>.
    \<open>Registry\<close>, \<open>Registry_Inv\<close>: \<^verbatim>\<open>new_hd\<close>, \<^verbatim>\<open>get_hd\<close>, \<^verbatim>\<open>del_hd\<close>, \<^verbatim>\<open>register_pd\<close>, \<^verbatim>\<open>get_pd\<close>
    and the invariant \<open>wf_st\<close> of tables and heap. \<open>Invariance\<close>: the closure conditions by which
    any property is carried through most commands (locale \<open>counted\<close>, whose writes of a callback
    come with the references to it), and through the callbacks as well if it does not look at
    reference counts (locale \<open>conserved\<close>, which is a \<open>counted\<close>; \<open>settled\<close>, if it does not look at
    the world of libdtrace either). They say in which interpreters things happen, which
    structures may change, and how libdtrace may move its world.
  \<^item> \<open>Id_Threads\<close>: the lines of \<^verbatim>\<open>new_hd\<close> and \<^verbatim>\<open>register_pd\<close> between the locks of the mutexes,
    access by access, for any number of threads, and the simulation (locale
    \<open>forward_simulation\<close>) that makes them one step.
  \<^item> \<open>Options\<close>, \<open>Formatting\<close>, \<open>Intermediate\<close>: \<^verbatim>\<open>get_option\<close> to \<^verbatim>\<open>cutWhiteSpace\<close>, and the callbacks
    \<^verbatim>\<open>chew\<close> to \<^verbatim>\<open>listStatement\<close> with the macro \<^verbatim>\<open>CallbackEval\<close>.
  \<^item> \<open>Command_Frame\<close>, \<open>Cmd_Handle\<close>, \<open>Cmd_Program\<close>, \<open>Cmd_Trace\<close>, \<open>Cmd_Process\<close>: the commands, one
    definition each, named as in C (\<open>List_cmd\<close> is \<^verbatim>\<open>List\<close>). \<open>Package\<close>: \<^verbatim>\<open>Dtrace_Init\<close>,
    \<^verbatim>\<open>Dtrace_DeInit\<close>, \<^verbatim>\<open>onDestroy\<close>, the dispatch.
  \<^item> \<open>Persistence\<close>: what lasts through every command, loading and unloading (locale \<open>lasting\<close>,
    and \<open>enduring\<close> where it is conserved as well), interpreted for \<open>steady\<close>, the invariant between
    commands. \<open>Reachability\<close>: the process as a step relation. \<open>Registry_Contract\<close>: the abstract
    registry a script sees, and that every change of the state is a step of it.
    \<open>Reference_Counts\<close>: that the callbacks a handle stores are covered by references.
    \<open>Handle_Account\<close>: that the handles libdtrace has open are those of the live structures, under
    the contract \<open>tracks\<close> of libdtrace.
    \<open>Handle_Homes\<close>: that they run in the interpreter that opened the handle. \<open>Isolation\<close>: that
    what happens in one interpreter does not change what another one has. \<open>Safety\<close>: when the
    commands cannot go wrong (locale \<open>serving\<close>).
  \<^item> \<open>Sample\<close>: a small libdtrace and Tcl library and a session with them, used by the witnesses.
    \<open>Command_Properties\<close>, \<open>Data_Properties\<close> and this theory: the properties of the extension.
  \<^item> \<open>Darwin_Arch\<close>, \<open>Darwin_Bitmap\<close>, \<open>Darwin_Atomic\<close>, \<open>Darwin_Elf\<close>, \<open>Darwin_Layout\<close>, \<open>Darwin_Gelf\<close>,
    \<open>Interface_Constants\<close>, \<open>Darwin_Constants\<close>, \<open>Process_Structures\<close>: the headers, with their
    properties.

  \<^bold>\<open>What is shown.\<close> C1, C2 and C4 to C9, of every state a process can reach: the invariant, the
  refinement of the registry's contract, no dangling programs, no callback without a reference,
  handles of libdtrace are opened and closed in pairs, handle numbers are unique, interpreters are
  isolated, closed numbers never come back. C3: the conditions under which every command returns.
  C10: numbers are given out as if by one thread. C11: unknown numbers are rejected. C12 to C23,
  the contract of each command and callback, on success and on error. C24 to C31, the data:
  aggregations, processes, options, probe descriptions, white space. C32 to C34, loading,
  unloading and exit. C35 to C40, the headers:
  names and byte orders, bitmaps as sets and as locks, the form common to both ELF classes, packed fields, the
  layout of files and of the memory of a process, enumerations. C14, C18, C23, C25, C29, C31,
  C33, C34, C37 and C40 state behaviour that a reader of the code would not expect.

  \<^bold>\<open>Parameters and bounds.\<close> libdtrace and the Tcl library are not part of the repository: they
  are arguments of every definition that calls them, and whatever a property needs of them is a
  hypothesis. What becomes of the list object that \<^verbatim>\<open>::dtrace::aggregations\<close> has given to the
  interpreter is a parameter, too, and so are the operations of \<^verbatim>\<open>sys/atomic.h\<close>. A call of
  libdtrace that runs callbacks is a tree (\<open>lib_run\<close>), so what it does may depend on what each
  callback answered. Scripts are trees of command calls; \<open>tower\<close> runs them
  with \<open>n\<close> levels of nesting and refuses the next one, as Tcl's recursion limit does, and the
  properties hold for every \<open>n\<close>. The recursive definitions are total, none has fuel. An
  \<^verbatim>\<open>int\<close> has 32 and a \<^verbatim>\<open>long\<close> 64 bits: a counter that passes \<open>INT_MAX\<close> is a \<open>Fault\<close>, and the
  buffers of 12 and 128 characters are cut or overrun where the code does it. \<^verbatim>\<open>ckalloc\<close> does
  not fail (it panics inside Tcl), and the sizes passed to it are taken to fit its argument.
  The mutexes protect the counters only, which \<open>Id_Threads\<close> is about; everywhere else a call of
  a command is atomic but for the scripts it runs. Strings of libdtrace and of scripts hold no
  NUL, as C strings do not.

  \<^bold>\<open>Not modelled.\<close> The branches under \<^verbatim>\<open>__APPLE__\<close> in the extension, which refer to a
  variable \<^verbatim>\<open>g_dtp\<close> that is declared nowhere. Release of objects when a reference count reaches
  zero, which Tcl does: only the counts the extension takes and gives back are kept, and C5
  shows that they cover what the handles store. The memory of one \<^verbatim>\<open>argv\<close> vector, allocated,
  filled and freed within a command. The prototypes, the opaque types and the types of
  functions in \<^verbatim>\<open>libelf.h\<close>, \<^verbatim>\<open>gelf.h\<close>, \<^verbatim>\<open>rtld_db.h\<close>,
  \<^verbatim>\<open>proc_service.h\<close>, \<^verbatim>\<open>lwp.h\<close>, \<^verbatim>\<open>procfs.h\<close>, \<^verbatim>\<open>darwin_shim.h\<close> and the two \<^verbatim>\<open>libproc.h\<close>: they
  declare functions of other libraries, with no code here. The demos, the tests, the manual and
  the build files.
\<close>

section \<open>Every state that is reached\<close>

lemma reachable_inv:
  assumes "reachable L (tower L T body n) (initial w) s"
  shows "steady s s"
  using lasts.reachable_tower_P [OF assms any_world_top steady_initial] by (simp add: steady_def)

text \<open>
  C1. The invariant of the extension holds in every state a process reaches from its start by
  loading the extension, calling its commands, deleting interpreters, and by anything else
  that leaves the extension alone, with scripts that call the commands again, nested to any
  depth: the numbers of the tables lead to live structures, every live structure has one number
  in one table, programs belong to handles of their interpreter, the process vectors have a
  capacity that is one less than a power of two (0, 1, 3, 7, and so on) and room for their count,
  and every structure is an open handle.
\<close>

theorem reachable_invariant:
  assumes "reachable L (tower L T body n) (initial w) s"
  shows "wf_st s \<and> all_ready s"
  using reachable_inv [OF assms] by (simp add: steady_def)

theorem reachable_invariant_witness: "wf_st opened1 \<and> all_ready opened1 \<and> handle_of opened1 0 1 = Some 1"
  using reachable_invariant [OF reach_opened1 [unfolded closing_tcl_def]] by (simp only: opened1_handle simp_thms)

text \<open>
  C2. The extension refines the contract of its registry: what a script can see of any state
  that is reached, the interpreters, their handle numbers and the handles of their programs, is
  a state the contract allows, and from any such state on the process only makes the contract's
  steps: numbers are given out once, a handle that is closed, or could not be opened, takes the
  programs of its interpreter with it, and an interpreter is deleted only without handles.
\<close>

theorem registry_refined:
  assumes "reachable L (tower L T body n) (initial w) s" and "reachable L (tower L T body n) s t"
  shows "rtranclp registry_step no_registry (registry_of s) \<and> rtranclp registry_step (registry_of s) (registry_of t)"
  using reachable_conforms [OF assms(1) wf_initial] reachable_conforms [OF assms(2)] reachable_inv [OF assms(1)]
  by (simp add: registry_of_initial steady_def)

theorem registry_refined_witness:
  "rtranclp registry_step no_registry (registry_of opened1) \<and> rtranclp registry_step (registry_of opened1) (registry_of compiled1) \<and>
   handle_nos (registry_of opened1) 0 \<noteq> {} \<and> program_nos (registry_of compiled1) 0 1 = Some 1"
proof -
  have "step sample_lib closing_tcl opened1 compiled1"
    using Done_state_of [OF compiled1_returns] by (auto simp: compiled1_def intro: step_under.command)
  then have r: "reachable sample_lib closing_tcl opened1 compiled1" by (blast intro: reachable_under.intros)
  have "handle_nos (registry_of opened1) 0 \<noteq> {}" using opened1_handle by (auto simp: registry_of_def)
  moreover have "number_of compiled1 0 1 = Some 1" by code_simp
  then have "program_nos (registry_of compiled1) 0 1 = Some 1" by (simp add: registry_of_def compiled1_program)
  ultimately show ?thesis
    using registry_refined [OF reach_opened1 [unfolded closing_tcl_def] r [unfolded closing_tcl_def]] by blast
qed



text \<open>
  C4. No compiled program outlives its handle: in every state that is reached, the structure
  behind a program's number is live, it is an open handle, and a handle number of the same
  interpreter leads to it. So \<^verbatim>\<open>pd->hd\<close> is never a pointer to freed memory when
  \<^verbatim>\<open>::dtrace::exec\<close>, \<^verbatim>\<open>info\<close> or \<^verbatim>\<open>list\<close> follow it.
\<close>

theorem no_dangling_program:
  assumes "reachable L (tower L T body n) (initial w) s" and "program_of s i k = Some pd"
  shows "(\<exists>H h. hds s (pd_hd pd) = Some H \<and> hdl H = Some h) \<and> (\<exists>m. handle_of s i m = Some (pd_hd pd))"
proof -
  have inv: "wf_st s" "all_ready s"
    using reachable_inv [OF assms(1)] by (simp_all add: steady_def)
  from assms(2) obtain d where d: "assoc s i = Some d" "has_prog s d k pd"
    by (auto simp: program_of_has)
  from wf_prog_owner [OF inv(1) d(2)] obtain m where m: "owns s d m (pd_hd pd)" by blast
  with wf_owns_live [OF inv(1)] obtain H where "hds s (pd_hd pd) = Some H" by blast
  with inv(2) m d(1) show ?thesis by (auto simp: all_ready_def handle_of_owns)
qed

theorem no_dangling_program_witness:
  "\<exists>H h. hds compiled1 1 = Some H \<and> hdl H = Some h"
  using no_dangling_program [OF reach_compiled1 [unfolded closing_tcl_def] compiled1_program] by simp

text \<open>
  C5. No callback is freed while a handle stores it: in every state that is reached, the extension
  holds at least as many references to a Tcl object as there are slots of live handles that
  store it, whatever scripts have closed handles or replaced callbacks while their own words
  were held. A registered procedure has an argument, and both are covered.
\<close>

theorem callbacks_held:
  assumes "reachable L (tower L T body n) (initial w) s"
    and "hds s p = Some H" and "cb_procs H ! cb_index cb = Some proc"
  shows "(\<forall>ob. slot_uses s ob \<le> refs s ob) \<and>
    (\<exists>arg. cb_args H ! cb_index cb = Some arg \<and> (\<forall>ob. int (count_list [proc, arg] ob) \<le> refs s ob))"
  using slot_backed [OF _ assms(2) cb_index_less assms(3)] reachable_backed [OF assms(1)] by (simp add: backed_def)

theorem callbacks_held_witness:
  "1 \<le> refs going1 (StrObj ''p'') \<and> 1 \<le> refs going1 (StrObj ''a'')"
proof -
  obtain H where H: "hds going1 1 = Some H" "cb_procs H ! cb_index cb_probe_desc = Some (StrObj ''p'')"
    "cb_args H ! cb_index cb_probe_desc = Some (StrObj ''a'')"
    using going1_handle by auto
  from callbacks_held [OF reach_going1 [unfolded closing_tcl_def] H(1,2)] H(3)
  have "\<forall>ob. int (count_list [StrObj ''p'', StrObj ''a''] ob) \<le> refs going1 ob" by simp
  from this [rule_format, of "StrObj ''p''"] this [rule_format, of "StrObj ''a''"] show ?thesis by simp
qed

text \<open>
  C6. Handles of libdtrace are opened and closed in pairs: count for each handle how often
  \<^verbatim>\<open>dtrace_open\<close> has returned it, less how often \<^verbatim>\<open>dtrace_close\<close> was called with it. If libdtrace
  gives out a handle only when its count is zero, and neither it nor the rest of the process opens
  or closes handles on its own, the count is, in every state that is reached, 1 for the handle of
  each live structure, no two of which have the same one, and for any other handle what it was at
  the start. So none is closed twice, and an open that fails half-way, or a script that closes
  handles inside a callback, leaves none behind. When no number is known any more all counts are as
  at the start, provided that the tables with handles belong to interpreters: an interpreter that
  loads the extension again loses the numbers it had, and their handles stay open.
\<close>

theorem handles_balanced:
  assumes "tracks L opens" and "reachable_under (\<lambda>v w. opens w = opens v) L (tower L T body n) (initial w) s"
  shows "opens (world s) = (\<lambda>h. if h \<in> hdls s then 1 else opens w h) \<and> (\<forall>h \<in> hdls s. opens w h = 0) \<and>
    (\<forall>p q H K. hds s p = Some H \<longrightarrow> hds s q = Some K \<longrightarrow> hdl H = hdl K \<longrightarrow> p = q) \<and>
    ((\<forall>d k p. owns s d k p \<longrightarrow> d \<in> ran (assoc s)) \<longrightarrow> (\<forall>i k. handle_of s i k = None) \<longrightarrow> opens (world s) = opens w)"
proof -
  note b = reachable_accounted [OF assms]
  have "hdls s = {}" if known: "\<forall>d k p. owns s d k p \<longrightarrow> d \<in> ran (assoc s)" and none: "\<forall>i k. handle_of s i k = None"
  proof -
    have "\<not> owns s d k p" for d k p
    proof
      assume o: "owns s d k p"
      with known obtain i where "assoc s i = Some d" by (auto simp: ran_def)
      with o have "handle_of s i k = Some p" by (auto simp: handle_of_owns)
      with none show False by simp
    qed
    then have "hds s p = None" for p using wf_live_owned [OF b(3)] by (cases "hds s p") auto
    then show ?thesis by (simp add: hdls_def)
  qed
  with b(1) balanced_distinct [OF b(1,2)] show ?thesis
    by (auto simp: balanced_def hdls_ran)
qed

theorem handles_balanced_witness:
  "next_free_id tallied = 3 \<and> hdls tallied = {1} \<and> tally (world tallied) = (\<lambda>h. if h = 1 then 1 else 0)"
proof -
  have w: "world tallied = [(False, 2), (True, 2), (True, 1)]" and n: "next_free_id tallied = 3"
    using tallied_state by blast+
  have zero: "tally [] = (\<lambda>h. 0)" by (simp add: tally_def fun_eq_iff)
  have eq: "tally (world tallied) = (\<lambda>h. if h \<in> hdls tallied then 1 else 0)"
    using conjunct1 [OF handles_balanced [OF counting_tracks reach_tallied [unfolded counting_tcl_def]]] unfolding zero .
  have log: "tally (world tallied) h = (if h = 1 then 1 else 0)" for h unfolding w by (simp add: tally_def)
  have "h \<in> hdls tallied \<longleftrightarrow> h = 1" for h using fun_cong [OF eq, of h] unfolding log by (simp split: if_splits)
  with n log show ?thesis by blast
qed

text \<open>
  C7. Handle numbers are global: two numbers of any two interpreters that are equal, or that
  lead to the same structure, are the same number of the same interpreter. A number one
  interpreter was given never gives another interpreter access to the handle, and the callbacks
  of the handle run in the interpreter that knows its number.
\<close>

theorem handle_numbers_unique:
  assumes "reachable L (tower L T body n) (initial w) s"
    and "handle_of s i k = Some p" and "handle_of s j m = Some q" and "k = m \<or> p = q"
  shows "i = j \<and> k = m \<and> p = q \<and> (\<exists>H. hds s p = Some H \<and> hd_interp H = Some i)"
proof -
  have wf: "wf_st s"
    using reachable_inv [OF assms(1)] by (simp add: steady_def)
  from assms(2,3) obtain d e where d: "assoc s i = Some d" "owns s d k p" and "assoc s j = Some e" "owns s e m q"
    by (auto simp: handle_of_owns)
  with wf_owns_unique [OF wf _ _ assms(4)] wf_assoc_inj [OF wf] have "i = j \<and> k = m \<and> p = q" by blast
  moreover from wf_owns_live [OF wf d(2)] obtain H where "hds s p = Some H" by blast
  ultimately show ?thesis using homedD [OF reachable_homed [OF assms(1)] d] by simp
qed

theorem handle_numbers_unique_witness:
  "handle_of opened1 0 1 = Some 1 \<and> (\<exists>H. hds opened1 1 = Some H \<and> hd_interp H = Some 0)"
  using handle_numbers_unique [OF reach_opened1 [unfolded closing_tcl_def] opened1_handle opened1_handle] opened1_handle
  by simp

text \<open>
  C8. Interpreters are isolated: whatever command one interpreter calls in a state that is
  reached, with whatever arguments and scripts, if it returns, another interpreter has the same
  handles and programs under the same numbers as before, and the structures of its handles are
  untouched. So is it when an interpreter loads the extension, and when one is deleted.
\<close>

theorem interpreters_isolated:
  assumes "reachable L (tower L T body n) (initial w) s" and "i \<noteq> j"
  shows "allows (call_command L (tower L T body n) i cmdname objv s) (\<lambda>(rc, t).
      \<forall>k. handle_of t j k = handle_of s j k \<and> program_of t j k = program_of s j k \<and>
        (\<forall>p. handle_of s j k = Some p \<longrightarrow> hds t p = hds s p)) \<and>
    allows (Dtrace_Init (tower L T body n) i s) (\<lambda>(rc, t).
      \<forall>k. handle_of t j k = handle_of s j k \<and> program_of t j k = program_of s j k \<and>
        (\<forall>p. handle_of s j k = Some p \<longrightarrow> hds t p = hds s p)) \<and>
    allows (destroy_interp L i s) (\<lambda>t.
      \<forall>k. handle_of t j k = handle_of s j k \<and> program_of t j k = program_of s j k \<and>
        (\<forall>p. handle_of s j k = Some p \<longrightarrow> hds t p = hds s p))"
proof -
  have s: "homed s" by (rule reachable_homed [OF assms(1)])
  note same = undisturbed_lookups [OF _ s]
  show ?thesis
    by (intro conjI allows_mono [OF call_undisturbed [OF s assms(2)]] allows_mono [OF load_undisturbed [OF s assms(2)]]
        allows_mono [OF destroy_undisturbed [OF s assms(2)]])
      (auto simp: same)
qed

theorem interpreters_isolated_witness:
  "\<exists>rc t. call_command sample_lib closing_tcl 1 ''dtrace::open'' [StrObj ''open''] loaded_twice = Done (rc, t) \<and>
     handle_of t 0 1 = Some 1"
proof -
  let ?call = "call_command sample_lib closing_tcl 1 ''dtrace::open'' [StrObj ''open''] loaded_twice"
  from Done_state_of [OF loaded_twice_opens] obtain rc t where rc: "?call = Done (rc, t)" by blast
  have "(1 :: interp) \<noteq> 0" by simp
  note iso = interpreters_isolated [OF reach_loaded_twice [unfolded closing_tcl_def] this, folded closing_tcl_def]
  from allows_DoneD [OF conjunct1 [OF iso] rc] have "handle_of t 0 1 = handle_of loaded_twice 0 1" by simp
  with rc loaded_twice_handle show ?thesis by simp
qed

text \<open>
  C9. A closed handle stays closed: in every state that is reached, \<^verbatim>\<open>::dtrace::close\<close> with a
  number the interpreter knows succeeds, and in every state that is reached after it, the
  number leads nowhere, in any interpreter, whatever is opened in between.
\<close>

theorem closed_number_stays:
  assumes "reachable L (tower L T body n) (initial w) s"
    and "length objv = 2" and "Tcl_GetIntFromObj U (objv ! 1) = Inr k" and "handle_of s i k = Some p"
  shows "ensures (Close L U i objv s) (\<lambda>(rc, u). rc = TCL_OK \<and>
    (\<forall>t j. reachable L (tower L T body n) u t \<longrightarrow> handle_of t j k = None))"
proof -
  have s: "steady s s" by (rule reachable_inv [OF assms(1)])
  then have wf: "wf_st s" "all_ready s" by (simp_all add: steady_def)
  from assms(4) obtain d where d: "assoc s i = Some d" "owns s d k p" by (auto simp: handle_of_owns)
  from wf_owns_live [OF wf(1) d(2)] all_readyD [OF wf(2)] have r: "ready p s" by blast
  have "handle_of t j k = None" if u: "closed L s d k p u" "steady s u" and t: "reachable L (tower L T body n) u t" for u t j
  proof -
    have "steady u u" using u(2) by (simp add: steady_def)
    from lasts.reachable_tower_P [OF t any_world_top this] have "later u t" by (simp add: steady_def)
    moreover have "k < next_free_id u" "\<not> owns u d' k q" for d' q
      using u(1) wf_owns_range [OF wf(1) d(2)] by (auto simp: closed_def)
    ultimately have "\<not> owns t d' k q" for d' q unfolding later_def by blast
    then show ?thesis by (rule handle_of_None)
  qed
  moreover obtain x where x: "Close L U i objv s = Done x" "fst x = TCL_OK" "closed L s d k p (snd x)"
    using Close_open [OF wf(1) d(1) assms(3) d(2) r assms(2), of L] by (auto simp: ensures_iff)
  moreover have "steady s (snd x)"
    using lasts.Close_P [OF s, of L U i objv] x(1) by (simp add: case_prod_beta)
  ultimately show ?thesis by (simp add: case_prod_beta)
qed

theorem closed_number_stays_witness:
  "ensures (Close sample_lib closing_tcl 0 [StrObj ''close'', IntObj 1] opened1) (\<lambda>(rc, u). rc = TCL_OK \<and> handle_of u 0 1 = None)"
  by (rule ensures_mono [OF closed_number_stays [OF reach_opened1 [unfolded closing_tcl_def], where k = 1 and p = 1]])
    (auto simp: opened1_handle intro: reachable_under.start)

text \<open>
  C10. Taking a number is one indivisible step although it is three lines of C: however the
  accesses of any number of threads to the counter and the mutex are interleaved, no two
  threads are between the locks, the numbers that were given out are 1, 2, 3, and so on in the
  order of the unlocks, each given once, as if each call had run alone, and as long as the
  counter does not reach its limit every thread that asks can still get a number.
\<close>

theorem allocation_atomic:
  assumes "rtranclp access machine_start m"
  shows "rtranclp allocate (1, []) (allocated m) \<and>
    map snd (given m) = map int [1..<Suc (length (given m))] \<and>
    (\<forall>t u. pcs m t \<noteq> Outside \<and> pcs m u \<noteq> Outside \<longrightarrow> t = u) \<and>
    (counter m + 1 < INT_MAX \<longrightarrow> (\<exists>ts m' n ns. run_schedule ts m = Some m' \<and> given m' = given m @ ns @ [(t, n)]))"
proof -
  from ids.simulates [OF assms machine_inv_start]
  have inv: "machine_inv m" and sim: "rtranclp allocate (1, []) (allocated m)"
    by (simp_all add: allocated_start)
  from allocated_numbers [OF sim] show ?thesis
    using sim machine_inv_exclusive [OF inv] allocation_progress [OF inv, of t] by (auto simp: allocated_def)
qed

theorem allocation_atomic_witness:
  "\<exists>m. run_schedule [3, 3, 3, 3, 3, 8, 8] machine_start = Some m \<and> pcs m 8 = Copied \<and>
    rtranclp allocate (1, []) (2, given m) \<and> map snd (given m) = [1] \<and> run_schedule [3] m = None"
proof -
  let ?m = "\<lparr>counter = 2, owner = Some 8, pcs = ((\<lambda>_. Outside)(3 := Outside))(8 := Copied),
    local_id = ((\<lambda>_. 0)(3 := 1))(8 := 2), given = [(3, 1)]\<rparr>"
  have run: "run_schedule [3, 3, 3, 3, 3, 8, 8] machine_start = Some ?m"
    by (simp add: machine_start_def advance_def INT_MAX_def fun_upd_twist)
  from allocation_atomic [OF schedule_access [OF run]]
  have "rtranclp allocate (1, []) (2, given ?m)" "map snd (given ?m) = [1]"
    by (simp_all add: allocated_def)
  moreover have "run_schedule [3] ?m = None" by (simp add: advance_def)
  ultimately show ?thesis using run by (intro exI [of _ ?m]) simp
qed

text \<open>
  The commands on a handle, with the numbers of words they accept. The flag of
  \<^verbatim>\<open>::dtrace::process\<close> is read before the handle and must be a boolean.
\<close>

fun takes_handle :: "'w tcl \<Rightarrow> command \<Rightarrow> tcl_obj list \<Rightarrow> bool" where
  "takes_handle T Cmd_configure objv = (objv \<noteq> [] \<and> even (length objv) \<or> length objv = 3)"
| "takes_handle T Cmd_compile objv = (3 \<le> length objv)"
| "takes_handle T Cmd_launch objv = (3 \<le> length objv)"
| "takes_handle T Cmd_grab objv = (length objv = 3)"
| "takes_handle T Cmd_go objv = (2 \<le> length objv \<and> even (length objv))"
| "takes_handle T Cmd_process objv = (length objv = 2 \<or> length objv = 3 \<and> (\<exists>sleep. boolean_rep T (objv ! 2) = Inr sleep))"
| "takes_handle T Cmd_open objv = False"
| "takes_handle T Cmd_exec objv = False"
| "takes_handle T Cmd_info objv = False"
| "takes_handle T Cmd_list objv = False"
| "takes_handle T c objv = (length objv = 2)"

text \<open>
  C11. A number the interpreter does not know is rejected by every command that takes a handle,
  called with any number of words it accepts (and, for \<^verbatim>\<open>::dtrace::process\<close>, with a flag that is a
  boolean): the command adds to the result that the handle is bad, sets the error code to
  \<^verbatim>\<open>DTRACE HANDLE\<close>, and changes nothing else.
\<close>

theorem unknown_number_rejected:
  assumes "wf_st s" and "assoc s i \<noteq> None" and "takes_handle T c objv"
    and "Tcl_GetIntFromObj T (objv ! 1) = Inr k" and "handle_of s i k = None"
  shows "command_proc L T c i objv s = Done (TCL_ERROR, s\<lparr>error_code := (error_code s)(i := [''DTRACE'', ''HANDLE'']),
    result := (result s)(i := StrObj (Tcl_GetString T (result s i) @ Tcl_GetString T (objv ! 0) @ '' bad handle''))\<rparr>)"
proof -
  have "checked T i objv (objv ! 1) s f = Done (badHandle T i objv s)" for f
    by (rule checked_unknown [OF assms(1,2,4,5)])
  with assms(3) have "command_proc L T c i objv s = Done (badHandle T i objv s)"
    by (cases c) (auto simp: Close_def Configure_def Compile_def Go_def Stop_def Process_def Aggregations_def
        Grab_def Launch_def)
  then show ?thesis by (simp add: badHandle_def fail_def COMMAND_def ERROR_CLASS_def result_ops_defs)
qed

theorem unknown_number_rejected_witness:
  "ensures (command_proc sample_lib sample_tcl Cmd_process 0 [StrObj ''process'', IntObj 9, StrObj ''1''] (session sample_H))
     (\<lambda>(rc, u). rc = TCL_ERROR \<and> error_code u 0 = [''DTRACE'', ''HANDLE''] \<and> hds u = hds (session sample_H))"
proof -
  have "handle_of (session sample_H) 0 9 = None"
    by (rule handle_of_None) (simp add: session_owns)
  moreover have "takes_handle sample_tcl Cmd_process [StrObj ''process'', IntObj 9, StrObj ''1'']"
    by (auto simp: sample_tcl_def text_of_def)
  ultimately show ?thesis
    using unknown_number_rejected [of "session sample_H" 0 sample_tcl Cmd_process "[StrObj ''process'', IntObj 9, StrObj ''1'']" 9 sample_lib]
    by (simp add: wf_session sample_H_wf)
qed

section \<open>Loading and unloading\<close>



text \<open>
  C33. Deleting an interpreter that loaded the extension returns exactly when all its handles
  were closed. With a handle still open, \<^verbatim>\<open>Dtrace_DeInit\<close> reads the handle's structure after it
  has freed it.
\<close>

theorem destroy_needs_closed_handles:
  assumes "wf_st s" and "assoc s i \<noteq> None"
  shows "ensures (destroy_interp L i s) (\<lambda>t. True) \<longleftrightarrow> (\<forall>k. handle_of s i k = None)"
proof -
  from assms(2) obtain d where d: "assoc s i = Some d" by auto
  from assms(1) d obtain es ps where dd: "dds s d = Some \<lparr>handles = Table es, programs = Table ps\<rparr>"
    by (rule wf_assocE)
  have "ensures (destroy_interp L i s) (\<lambda>t. True) \<longleftrightarrow> (\<exists>t. Dtrace_DeInit L d s = Done t)"
    using d by (simp add: destroy_interp_def onDestroy_def ensures_iff seq_eq_Done_iff)
  also have "\<dots> \<longleftrightarrow> es = []"
    using dd by (simp add: DeInit_Done)
  also have "\<dots> \<longleftrightarrow> (\<forall>k. handle_of s i k = None)"
    using d dd by (simp add: handle_of_def map_of_eq_empty_iff [symmetric] fun_eq_iff del: map_of_eq_empty_iff)
  finally show ?thesis .
qed

theorem destroy_needs_closed_handles_witness:
  "\<not> ensures (destroy_interp sample_lib 0 (session sample_H)) (\<lambda>t. True)"
  using destroy_needs_closed_handles [OF wf_session [OF sample_H_wf], of 0 sample_lib] session_handles(1) [of sample_H]
  by (metis option.distinct(1) session_sel(5) fun_upd_same)

text \<open>
  C34. At exit the handlers armed by \<^verbatim>\<open>Dtrace_Init\<close> run through, without touching a handle or
  calling libdtrace, exactly if each of them has its tables to itself and every handle was closed
  before. Deleting an interpreter does not disarm its handler, so the exit then frees its tables
  a second time.
\<close>

theorem exit_safe:
  "(ensures (exit_process L (exit_handlers s) s) (\<lambda>t. hds t = hds s \<and> world t = world s) \<longleftrightarrow>
      distinct (exit_handlers s) \<and>
      (\<forall>d \<in> set (exit_handlers s). \<exists>ps. dds s d = Some \<lparr>handles = Table [], programs = Table ps\<rparr>)) \<and>
   (\<forall>i d t. assoc s i = Some d \<longrightarrow> d \<in> set (exit_handlers s) \<longrightarrow> destroy_interp L i s = Done t \<longrightarrow>
      \<not> ensures (exit_process L (exit_handlers t) t) Q)"
  using exit_iff [of L "exit_handlers s" s] destroy_then_exit [of s _ _ L _ Q] by blast

theorem exit_safe_witness:
  "ensures (exit_process sample_lib (exit_handlers loaded) loaded) (\<lambda>t. hds t = Map.empty) \<and>
   (\<exists>t. destroy_interp sample_lib 0 loaded = Done t \<and> \<not> ensures (exit_process sample_lib (exit_handlers t) t) (\<lambda>u. True))"
proof -
  have l: "exit_handlers loaded = [0]" "dds loaded 0 = Some \<lparr>handles = Table [], programs = Table []\<rparr>" "assoc loaded 0 = Some 0"
    by code_simp+
  then obtain t where t: "destroy_interp sample_lib 0 loaded = Done t"
    by (auto simp: destroy_interp_def onDestroy_def DeInit_ok)
  note safe = exit_safe [of sample_lib loaded "\<lambda>u. True"]
  from safe l have "ensures (exit_process sample_lib (exit_handlers loaded) loaded) (\<lambda>t. hds t = hds loaded \<and> world t = world loaded)"
    by simp
  then have "ensures (exit_process sample_lib (exit_handlers loaded) loaded) (\<lambda>t. hds t = Map.empty)"
    by (rule ensures_mono) (simp add: loaded_no_handles)
  moreover have "\<not> ensures (exit_process sample_lib (exit_handlers t) t) (\<lambda>u. True)" using safe l t by auto
  ultimately show ?thesis using t by blast
qed

end
